(* ===== verification/Prelude.thy ===== *)
theory Prelude imports Complex_Main "HOL-Library.AList" "HOL-Library.Sublist"
  "HOL-Library.List_Lexorder" "HOL-Library.Char_ord" begin

section \<open>Shared vocabulary: Go maps, error values, collections of facts\<close>

text \<open>
  What every component of the development uses.
  A Go map is an association list with distinct keys; the order of the list is the order in
  which a \<open>range\<close> loop visits the map (Go leaves that order open, so a theorem about such a
  loop holds for every order). The operations are the library's \<open>map_of\<close>, \<open>AList.update\<close> and
  \<open>AList.delete\<close>. A string is a list of bytes, as in Go, and \<open>length\<close> is Go's \<open>len\<close>.
\<close>

type_synonym 'v gomap = "(string \<times> 'v) list"

abbreviation gget :: "'v gomap \<Rightarrow> string \<Rightarrow> 'v option" where
  "gget m k \<equiv> map_of m k"

abbreviation gput :: "string \<Rightarrow> 'v \<Rightarrow> 'v gomap \<Rightarrow> 'v gomap" where
  "gput \<equiv> AList.update"

abbreviation gkeys :: "'v gomap \<Rightarrow> string list" where
  "gkeys m \<equiv> List.map fst m"

abbreviation gmap_ok :: "'v gomap \<Rightarrow> bool" where
  "gmap_ok m \<equiv> distinct (gkeys m)"

text \<open>Collections: facts about maps, about results, and about the filters by capability.\<close>

named_theorems gomap_simps
named_theorems result_simps
named_theorems gate_simps

subsection \<open>Maps\<close>

lemma gget_gput [gomap_simps]: "gget (gput k v m) k' = (if k' = k then Some v else gget m k')"
  by (simp add: update_conv')

lemma gmap_ok_gput [gomap_simps, intro]: "gmap_ok m \<Longrightarrow> gmap_ok (gput k v m)"
  by (simp add: distinct_update)

lemma set_gkeys_gput [gomap_simps]: "set (gkeys (gput k v m)) = insert k (set (gkeys m))"
  using dom_update [of k v m] by (simp add: insert_commute)

lemma length_gput_new [gomap_simps]:
  "gget m k = None \<Longrightarrow> length (gput k v m) = Suc (length m)"
  by (induction m) auto

lemma length_gput_old [gomap_simps]:
  "gget m k \<noteq> None \<Longrightarrow> length (gput k v m) = length m"
  by (induction m) auto

lemma length_gput_le: "length (gput k v m) \<le> Suc (length m)"
  by (induction m) auto

lemma gmap_ok_filter [gomap_simps, intro]: "gmap_ok m \<Longrightarrow> gmap_ok (filter P m)"
  by (induction m) (auto simp: image_iff)

lemma gget_filter:
  assumes "gmap_ok m"
  shows "gget (filter P m) k =
    (case gget m k of None \<Rightarrow> None | Some v \<Rightarrow> if P (k, v) then Some v else None)"
  using assms
proof (induction m)
  case Nil
  then show ?case by simp
next
  case (Cons p m)
  obtain a b where p: "p = (a, b)" by (cases p)
  have "k = a \<Longrightarrow> gget m k = None"
    using Cons.prems p by (auto simp: map_of_eq_None_iff)
  with Cons p show ?case by (auto split: option.splits)
qed

lemma gget_in_set: "gget m k = Some v \<Longrightarrow> (k, v) \<in> set m"
  by (rule map_of_SomeD)

lemma gget_of_mem: "gmap_ok m \<Longrightarrow> (k, v) \<in> set m \<Longrightarrow> gget m k = Some v"
  by (simp add: map_of_eq_Some_iff)

lemma gget_perm:
  "gmap_ok m \<Longrightarrow> gmap_ok m' \<Longrightarrow> set m = set m' \<Longrightarrow> gget m = gget m'"
  by (rule map_of_inject_set [THEN iffD2]) auto

text \<open>A list of pairs written into an empty map one by one, as a Go loop fills a map.\<close>

definition of_pairs :: "(string \<times> 'v) list \<Rightarrow> 'v gomap" where
  "of_pairs ps = fold (\<lambda>(k, v) m. gput k v m) ps []"

lemma fold_gput_get:
  "gget (fold (\<lambda>(k, v) m. gput k v m) ps m0) k =
     (case map_of (rev ps) k of None \<Rightarrow> gget m0 k | Some v \<Rightarrow> Some v)"
  by (induction ps arbitrary: m0)
     (auto simp: gget_gput map_add_def split: option.splits)

lemma fold_gput_ok:
  "gmap_ok m0 \<Longrightarrow> gmap_ok (fold (\<lambda>(k, v) m. gput k v m) ps m0)"
  by (induction ps arbitrary: m0) (auto simp: distinct_update)

lemma gget_of_pairs [gomap_simps]: "gget (of_pairs ps) k = map_of (rev ps) k"
  by (simp add: of_pairs_def fold_gput_get split: option.splits)

lemma gmap_ok_of_pairs [simp, intro]: "gmap_ok (of_pairs ps)"
  by (simp add: of_pairs_def fold_gput_ok)

lemma gget_of_pairs_distinct:
  assumes "distinct (List.map fst ps)"
  shows "gget (of_pairs ps) = map_of ps"
proof -
  have "map_of (rev ps) = map_of ps"
    using assms by (intro map_of_inject_set [THEN iffD2]) (auto simp: rev_map [symmetric])
  then show ?thesis by (simp add: gget_of_pairs fun_eq_iff)
qed

subsection \<open>Lists\<close>

lemma find_Some_first:
  "List.find P xs = Some x \<longleftrightarrow> (\<exists>ys zs. xs = ys @ x # zs \<and> P x \<and> (\<forall>y\<in>set ys. \<not> P y))"
proof (induction xs)
  case Nil
  then show ?case by simp
next
  case (Cons a xs)
  show ?case
  proof
    assume *: "List.find P (a # xs) = Some x"
    show "\<exists>ys zs. a # xs = ys @ x # zs \<and> P x \<and> (\<forall>y\<in>set ys. \<not> P y)"
    proof (cases "P a")
      case True
      with * show ?thesis by (intro exI [of _ "[]"] exI [of _ xs]) auto
    next
      case False
      with * Cons.IH obtain ys zs where "xs = ys @ x # zs" "P x" "\<forall>y\<in>set ys. \<not> P y"
        by auto
      with False show ?thesis by (intro exI [of _ "a # ys"] exI [of _ zs]) auto
    qed
  next
    assume "\<exists>ys zs. a # xs = ys @ x # zs \<and> P x \<and> (\<forall>y\<in>set ys. \<not> P y)"
    then obtain ys zs where *: "a # xs = ys @ x # zs" "P x" "\<forall>y\<in>set ys. \<not> P y" by blast
    show "List.find P (a # xs) = Some x"
    proof (cases ys)
      case Nil
      with * show ?thesis by simp
    next
      case (Cons b bs)
      with * have "xs = bs @ x # zs" "\<not> P a" "\<forall>y\<in>set bs. \<not> P y" by auto
      with *(2) Cons.IH show ?thesis by auto
    qed
  qed
qed

lemma mem_set_filter_mono:
  "(\<And>x. P x \<Longrightarrow> Q x) \<Longrightarrow> set (filter P xs) \<subseteq> set (filter Q xs)"
  by auto

text \<open>A relation that holds between two lists up to dropped elements: sublists in order.\<close>

lemma subseq_filter_mono:
  "(\<And>x. P x \<Longrightarrow> Q x) \<Longrightarrow> subseq (filter P xs) (filter Q xs)"
  by (induction xs) auto

lemma subseq_map: "subseq xs ys \<Longrightarrow> subseq (List.map f xs) (List.map f ys)"
  by (induction rule: list_emb.induct) auto

subsection \<open>Results\<close>

text \<open>Running a fallible function over a list: the first error ends the loop.\<close>

fun map_result :: "('a \<Rightarrow> 'e + 'b) \<Rightarrow> 'a list \<Rightarrow> 'e + 'b list" where
  "map_result f [] = Inr []"
| "map_result f (x # xs) =
     (case f x of Inl e \<Rightarrow> Inl e
      | Inr y \<Rightarrow> (case map_result f xs of Inl e \<Rightarrow> Inl e | Inr ys \<Rightarrow> Inr (y # ys)))"

definition bind_result :: "'e + 'a \<Rightarrow> ('a \<Rightarrow> 'e + 'b) \<Rightarrow> 'e + 'b" where
  [result_simps]: "bind_result r f = (case r of Inl e \<Rightarrow> Inl e | Inr x \<Rightarrow> f x)"

definition is_ok :: "'e + 'a \<Rightarrow> bool" where
  [result_simps]: "is_ok r = (case r of Inl _ \<Rightarrow> False | Inr _ \<Rightarrow> True)"

lemma is_ok_simps [simp]: "is_ok (Inr x)" "\<not> is_ok (Inl e)"
  by (simp_all add: is_ok_def)

lemma map_result_Inr [result_simps]:
  "map_result f xs = Inr ys \<longleftrightarrow> list_all2 (\<lambda>x y. f x = Inr y) xs ys"
proof (induction xs arbitrary: ys)
  case Nil
  then show ?case by auto
next
  case (Cons x xs)
  show ?case
  proof (cases ys)
    case Nil
    then show ?thesis by (auto split: sum.splits)
  next
    case (Cons y ys')
    then show ?thesis
      using Cons.IH [of ys'] by (auto split: sum.splits)
  qed
qed

lemma map_result_Inl:
  "map_result f xs = Inl e \<Longrightarrow> \<exists>x\<in>set xs. f x = Inl e"
  by (induction xs) (auto split: sum.splits)

lemma map_result_is_ok:
  "is_ok (map_result f xs) \<longleftrightarrow> (\<forall>x\<in>set xs. is_ok (f x))"
  by (induction xs) (auto simp: is_ok_def split: sum.splits)

end
