(* ===== verification/GoStrings.thy ===== *)
theory GoStrings imports Prelude begin

section \<open>The part of Go's strings package the program uses\<close>

text \<open>
  Byte-string operations of \<open>strings\<close>, \<open>strconv\<close> and \<open>fmt\<close> as the sources under pkg/ call them:
  prefixes and suffixes, \<open>Contains\<close>, \<open>Split\<close> on one byte, \<open>ReplaceAll\<close> with a non-empty needle,
  \<open>TrimSpace\<close> (with the UTF-8 encodings of the Unicode spaces), \<open>ToLower\<close>, \<open>Join\<close> and decimal
  printing of integers. \<open>golib\<close> holds the functions of the language and its library that are not
  spelled out: the shortest decimal form of a float64, lower-casing of a string with non-ASCII
  bytes, \<open>strconv.Quote\<close>, the implementation-specific result of converting a float64 that
  does not fit an int64, and the parsers \<open>time.ParseDuration\<close> and \<open>fmt.Sscanf\<close> of one integer.
\<close>

subsection \<open>Prefix, suffix, substring\<close>

abbreviation has_prefix :: "string \<Rightarrow> string \<Rightarrow> bool" where
  "has_prefix s p \<equiv> prefix p s"

definition has_suffix :: "string \<Rightarrow> string \<Rightarrow> bool" where
  "has_suffix s suf \<longleftrightarrow> length suf \<le> length s \<and> drop (length s - length suf) s = suf"

lemma has_suffix_iff: "has_suffix s suf \<longleftrightarrow> (\<exists>p. s = p @ suf)"
proof
  assume "has_suffix s suf"
  then have "s = take (length s - length suf) s @ suf"
    by (metis append_take_drop_id has_suffix_def)
  then show "\<exists>p. s = p @ suf" ..
next
  assume "\<exists>p. s = p @ suf"
  then show "has_suffix s suf" by (auto simp: has_suffix_def)
qed

fun contains :: "string \<Rightarrow> string \<Rightarrow> bool" where
  "contains [] sub = (sub = [])"
| "contains (c # cs) sub = (prefix sub (c # cs) \<or> contains cs sub)"

lemma contains_iff: "contains s sub \<longleftrightarrow> (\<exists>a b. s = a @ sub @ b)"
proof (induction s)
  case Nil
  then show ?case by auto
next
  case (Cons c cs)
  show ?case
  proof
    assume "contains (c # cs) sub"
    then consider "prefix sub (c # cs)" | "contains cs sub" by auto
    then show "\<exists>a b. c # cs = a @ sub @ b"
    proof cases
      case 1
      then show ?thesis by (auto simp: prefix_def intro: exI [of _ "[]"])
    next
      case 2
      with Cons.IH obtain a b where "cs = a @ sub @ b" by blast
      then have "c # cs = (c # a) @ sub @ b" by simp
      then show ?thesis by blast
    qed
  next
    assume "\<exists>a b. c # cs = a @ sub @ b"
    then obtain a b where ab: "c # cs = a @ sub @ b" by blast
    show "contains (c # cs) sub"
    proof (cases a)
      case Nil
      with ab have "prefix sub (c # cs)" by (simp add: prefix_def)
      then show ?thesis by simp
    next
      case (Cons x xs)
      with ab Cons.IH show ?thesis by auto
    qed
  qed
qed

subsection \<open>Split and Join\<close>

fun split_on :: "char \<Rightarrow> string \<Rightarrow> string list" where
  "split_on c [] = [[]]"
| "split_on c (x # xs) =
     (if x = c then [] # split_on c xs
      else (case split_on c xs of [] \<Rightarrow> [[x]] | y # ys \<Rightarrow> (x # y) # ys))"

fun join :: "string \<Rightarrow> string list \<Rightarrow> string" where
  "join sep [] = []"
| "join sep [x] = x"
| "join sep (x # y # ys) = x @ sep @ join sep (y # ys)"

lemma split_on_nonempty [simp]: "split_on c s \<noteq> []"
  by (cases s) (auto split: list.splits)

lemma nonempty_split_on [simp]: "[] \<noteq> split_on c s"
  by (rule split_on_nonempty [symmetric])

lemma split_on_no_sep: "p \<in> set (split_on c s) \<Longrightarrow> c \<notin> set p"
  by (induction s arbitrary: p) (auto split: if_splits list.splits)

lemma join_split_on: "join [c] (split_on c s) = s"
proof (induction s)
  case Nil
  then show ?case by simp
next
  case (Cons x xs)
  obtain y ys where y: "split_on c xs = y # ys" by (cases "split_on c xs") auto
  with Cons show ?case by (cases ys) auto
qed

lemma split_on_none: "c \<notin> set s \<Longrightarrow> split_on c s = [s]"
  by (induction s) auto

lemma split_on_append: "c \<notin> set p \<Longrightarrow> split_on c (p @ c # s) = p # split_on c s"
  by (induction p) auto

lemma split_on_join:
  "ps \<noteq> [] \<Longrightarrow> (\<forall>p\<in>set ps. c \<notin> set p) \<Longrightarrow> split_on c (join [c] ps) = ps"
  by (induction "[c]" ps rule: join.induct) (auto simp: split_on_none split_on_append)

subsection \<open>ReplaceAll\<close>

text \<open>Leftmost, non-overlapping replacement; the sources pass a non-empty needle.\<close>

function replace_all :: "string \<Rightarrow> string \<Rightarrow> string \<Rightarrow> string" where
  "replace_all old new [] = []"
| "replace_all old new (c # cs) =
     (if old \<noteq> [] \<and> prefix old (c # cs)
      then new @ replace_all old new (drop (length old - 1) cs)
      else c # replace_all old new cs)"
  by pat_completeness auto
termination
  by (relation "measure (\<lambda>(old, new, s). length s)") auto

lemma replace_all_char:
  "replace_all [a] [b] s = List.map (\<lambda>c. if c = a then b else c) s"
  by (induction "[a]" "[b]" s rule: replace_all.induct) auto

lemma replace_all_delete_char:
  "replace_all [a] [] s = filter (\<lambda>c. c \<noteq> a) s"
  by (induction "[a]" "[] :: string" s rule: replace_all.induct) auto

lemma replace_all_absent: "\<not> contains s old \<Longrightarrow> replace_all old new s = s"
  by (induction s) auto

subsection \<open>TrimSpace, ToLower\<close>

text \<open>
  The encodings of the runes for which \<open>unicode.IsSpace\<close> holds: tab, newline, vertical tab,
  form feed, carriage return, space, U+0085, U+00A0, U+1680, U+2000..U+200A, U+2028, U+2029,
  U+202F, U+205F and U+3000.
\<close>

definition space_seqs :: "string list" where
  "space_seqs =
     List.map (\<lambda>n. [char_of n]) [9, 10, 11, 12, 13, 32 :: nat] @
     List.map (\<lambda>n. [char_of (194 :: nat), char_of n]) [133, 160 :: nat] @
     [[char_of (225 :: nat), char_of (154 :: nat), char_of (128 :: nat)]] @
     List.map (\<lambda>n. [char_of (226 :: nat), char_of (128 :: nat), char_of n])
       [128, 129, 130, 131, 132, 133, 134, 135, 136, 137, 138, 168, 169, 175 :: nat] @
     [[char_of (226 :: nat), char_of (129 :: nat), char_of (159 :: nat)],
      [char_of (227 :: nat), char_of (128 :: nat), char_of (128 :: nat)]]"

function strip_seqs :: "string list \<Rightarrow> string \<Rightarrow> string" where
  "strip_seqs qs s =
     (case List.find (\<lambda>q. q \<noteq> [] \<and> prefix q s) qs of
        None \<Rightarrow> s
      | Some q \<Rightarrow> strip_seqs qs (drop (length q) s))"
  by pat_completeness auto
termination
proof (relation "measure (\<lambda>(qs, s). length s)")
  show "wf (measure (\<lambda>(qs :: string list, s :: string). length s))" by simp
next
  fix qs s q
  assume "List.find (\<lambda>q. q \<noteq> [] \<and> prefix q s) qs = Some q"
  then have "q \<noteq> []" and "prefix q s"
    by (auto simp: find_Some_first)
  then have "length s - length q < length s"
    by (cases s) auto
  then show "((qs, drop (length q) s), (qs, s)) \<in> measure (\<lambda>(qs, s). length s)"
    by simp
qed

declare strip_seqs.simps [simp del]

definition trim_space :: "string \<Rightarrow> string" where
  "trim_space s = rev (strip_seqs (List.map rev space_seqs) (rev (strip_seqs space_seqs s)))"

lemma strip_seqs_suffix: "\<exists>p. s = p @ strip_seqs qs s"
proof (induction qs s rule: strip_seqs.induct)
  case (1 qs s)
  show ?case
  proof (cases "List.find (\<lambda>q. q \<noteq> [] \<and> prefix q s) qs")
    case None
    then show ?thesis by (auto simp: strip_seqs.simps [of qs s])
  next
    case (Some q)
    from "1.IH" [OF Some] obtain p where p: "drop (length q) s = p @ strip_seqs qs (drop (length q) s)"
      by blast
    have "strip_seqs qs s = strip_seqs qs (drop (length q) s)"
      using Some by (simp add: strip_seqs.simps [of qs s])
    moreover have "s = (take (length q) s @ p) @ strip_seqs qs (drop (length q) s)"
      by (subst append_take_drop_id [of "length q" s, symmetric], subst p) simp
    ultimately show ?thesis by metis
  qed
qed

lemma strip_seqs_none:
  "List.find (\<lambda>q. q \<noteq> [] \<and> prefix q s) qs = None \<Longrightarrow> strip_seqs qs s = s"
  by (simp add: strip_seqs.simps [of qs s])

definition is_ascii :: "string \<Rightarrow> bool" where
  "is_ascii s \<longleftrightarrow> (\<forall>c\<in>set s. (of_char c :: nat) < 128)"

definition lower_char :: "char \<Rightarrow> char" where
  "lower_char c = (let n = (of_char c :: nat) in if 65 \<le> n \<and> n \<le> 90 then char_of (n + 32) else c)"

text \<open>What of Go and its library is not spelled out.\<close>

record golib =
  fmt_float :: "rat \<Rightarrow> string"      \<comment> \<open>fmt.Sprint of a finite float64\<close>
  uni_lower :: "string \<Rightarrow> string"  \<comment> \<open>strings.ToLower on a string with non-ASCII bytes\<close>
  quote :: "string \<Rightarrow> string"      \<comment> \<open>strconv.Quote, the verb %q\<close>
  conv_oob :: "rat \<Rightarrow> int"         \<comment> \<open>int(v) for a float64 v outside the range of int64\<close>
  parse_duration :: "string \<Rightarrow> int option"  \<comment> \<open>time.ParseDuration, in nanoseconds\<close>
  scan_int :: "string \<Rightarrow> int option"        \<comment> \<open>fmt.Sscanf with the verb %d\<close>

definition to_lower :: "golib \<Rightarrow> string \<Rightarrow> string" where
  "to_lower L s = (if is_ascii s then List.map lower_char s else uni_lower L s)"

subsection \<open>Decimal printing\<close>

definition digit_char :: "nat \<Rightarrow> char" where
  "digit_char n = char_of (48 + n)"

fun dec_nat :: "nat \<Rightarrow> string" where
  "dec_nat n = (if n < 10 then [digit_char n] else dec_nat (n div 10) @ [digit_char (n mod 10)])"

declare dec_nat.simps [simp del]

definition dec_int :: "int \<Rightarrow> string" where
  "dec_int i = (if i < 0 then CHR 0x2D # dec_nat (nat (- i)) else dec_nat (nat i))"

definition digit_val :: "char \<Rightarrow> nat" where
  "digit_val c = of_char c - 48"

definition is_digit :: "char \<Rightarrow> bool" where
  "is_digit c \<longleftrightarrow> CHR ''0'' \<le> c \<and> c \<le> CHR ''9''"

fun nat_of_digits :: "nat \<Rightarrow> string \<Rightarrow> nat" where
  "nat_of_digits acc [] = acc"
| "nat_of_digits acc (c # cs) = nat_of_digits (10 * acc + digit_val c) cs"

lemma nat_of_digits_append:
  "nat_of_digits acc (xs @ ys) = nat_of_digits (nat_of_digits acc xs) ys"
  by (induction xs arbitrary: acc) auto

lemma digit_val_char: "n < 10 \<Longrightarrow> digit_val (digit_char n) = n"
  by (simp add: digit_val_def digit_char_def)

lemma is_digit_iff: "is_digit c \<longleftrightarrow> 48 \<le> (of_char c :: nat) \<and> (of_char c :: nat) \<le> 57"
  by (simp add: is_digit_def less_eq_char_def)

lemma is_digit_char: "n < 10 \<Longrightarrow> is_digit (digit_char n)"
  by (simp add: is_digit_iff digit_char_def)

lemma dec_nat_nonempty [simp]: "dec_nat n \<noteq> []"
  by (subst dec_nat.simps) simp

lemma dec_nat_digits: "c \<in> set (dec_nat n) \<Longrightarrow> is_digit c"
proof (induction n rule: dec_nat.induct)
  case (1 n)
  show ?case
  proof (cases "n < 10")
    case True
    with "1.prems" show ?thesis by (simp add: dec_nat.simps [of n] is_digit_char)
  next
    case False
    with "1.prems" consider "c \<in> set (dec_nat (n div 10))" | "c = digit_char (n mod 10)"
      by (auto simp: dec_nat.simps [of n])
    then show ?thesis
      using "1.IH" False by cases (auto intro: is_digit_char)
  qed
qed

lemma nat_of_dec_nat: "nat_of_digits 0 (dec_nat n) = n"
proof (induction n rule: dec_nat.induct)
  case (1 n)
  show ?case
  proof (cases "n < 10")
    case True
    then show ?thesis by (simp add: dec_nat.simps [of n] digit_val_char)
  next
    case False
    with "1.IH" show ?thesis
      by (simp add: dec_nat.simps [of n] nat_of_digits_append digit_val_char)
  qed
qed

lemma dec_nat_inject: "dec_nat m = dec_nat n \<longleftrightarrow> m = n"
  by (metis nat_of_dec_nat)

subsection \<open>strconv.Atoi\<close>

text \<open>
  An optional sign and one or more decimal digits whose value fits an int64; anything else is an
  error, \<open>None\<close>.
\<close>

definition unsigned_part :: "string \<Rightarrow> string" where
  "unsigned_part s = (case s of [] \<Rightarrow> [] | c # cs \<Rightarrow> if c = CHR ''-'' \<or> c = CHR ''+'' then cs else s)"

definition atoi :: "string \<Rightarrow> int option" where
  "atoi s =
     (let ds = unsigned_part s; n = int (nat_of_digits 0 ds);
          v = (if s \<noteq> [] \<and> hd s = CHR ''-'' then - n else n)
      in if ds \<noteq> [] \<and> (\<forall>c\<in>set ds. is_digit c) \<and> - (2 ^ 63) \<le> v \<and> v < 2 ^ 63
         then Some v else None)"

lemma not_sign_digit: "is_digit c \<Longrightarrow> c \<noteq> CHR ''-'' \<and> c \<noteq> CHR ''+''"
  by (auto simp: is_digit_iff)

lemma atoi_dec_int:
  assumes "- (2 ^ 63) \<le> i" and "i < 2 ^ 63"
  shows "atoi (dec_int i) = Some i"
proof (cases "i < 0")
  case True
  then show ?thesis
    using assms dec_nat_digits [of _ "nat (- i)"]
    by (simp add: atoi_def dec_int_def unsigned_part_def nat_of_dec_nat)
next
  case False
  obtain c cs where c: "dec_nat (nat i) = c # cs" by (cases "dec_nat (nat i)") auto
  then have "is_digit c" using dec_nat_digits [of c "nat i"] by simp
  then have "unsigned_part (dec_nat (nat i)) = dec_nat (nat i)" "hd (dec_nat (nat i)) \<noteq> CHR ''-''"
    using c not_sign_digit by (auto simp: unsigned_part_def)
  with False show ?thesis
    using assms dec_nat_digits [of _ "nat i"]
    by (simp add: atoi_def dec_int_def nat_of_dec_nat Let_def)
qed

text \<open>A concrete instance, for the evaluations of the development.\<close>

definition demo_lib :: golib where
  "demo_lib = \<lparr>fmt_float = (\<lambda>x. dec_int \<lfloor>x\<rfloor>), uni_lower = (\<lambda>s. s),
     quote = (\<lambda>s. [CHR 0x22] @ s @ [CHR 0x22]), conv_oob = (\<lambda>_. - (2 ^ 63)),
     parse_duration = (\<lambda>_. None), scan_int = atoi\<rparr>"

end
