(* ===== verification/Values.thy ===== *)
theory Values imports GoStrings "HOL-Library.Log_Nat" begin

section \<open>Dynamic values, 64-bit integers and floats\<close>

text \<open>
  \<open>gany\<close> is Go's \<open>any\<close> as the program meets it: what \<open>encoding/json\<close> and \<open>yaml.v3\<close> decode
  into an \<open>any\<close>, plus the \<open>int64\<close> of \<open>strconv.ParseInt\<close>. A float64 is the rational it denotes
  (the decoders of JSON produce no NaN and no infinity). \<open>GNilMap\<close> is a nil
  \<open>map[string]any\<close> inside an \<open>any\<close>: not a nil interface, and read like an empty map.
\<close>

datatype gany =
    GNil
  | GBool bool
  | GInt int
  | GInt64 int
  | GFloat rat
  | GStr string
  | GSlice "gany list"
  | GMap "(string \<times> gany) list"
  | GNilMap

fun as_map :: "gany \<Rightarrow> gany gomap option" where
  "as_map (GMap m) = Some m"
| "as_map GNilMap = Some []"
| "as_map _ = None"

fun as_slice :: "gany \<Rightarrow> gany list option" where
  "as_slice (GSlice xs) = Some xs"
| "as_slice _ = None"

fun as_str :: "gany \<Rightarrow> string option" where
  "as_str (GStr s) = Some s"
| "as_str _ = None"

text \<open>Reading a key of a \<open>map[string]any\<close>: the zero value of \<open>any\<close> is nil.\<close>

definition index_any :: "gany gomap \<Rightarrow> string \<Rightarrow> gany" where
  "index_any m k = (case gget m k of None \<Rightarrow> GNil | Some v \<Rightarrow> v)"

text \<open>fmt.Sprint of one operand; maps print sorted by key.\<close>

fun sprint :: "golib \<Rightarrow> gany \<Rightarrow> string" where
  "sprint L GNil = ''<nil>''"
| "sprint L (GBool b) = (if b then ''true'' else ''false'')"
| "sprint L (GInt i) = dec_int i"
| "sprint L (GInt64 i) = dec_int i"
| "sprint L (GFloat x) = fmt_float L x"
| "sprint L (GStr s) = s"
| "sprint L (GSlice vs) = ''['' @ join '' '' (List.map (sprint L) vs) @ '']''"
| "sprint L (GMap m) =
     ''map['' @ join '' ''
        (List.map (\<lambda>(k, s). k @ '':'' @ s) (sort_key fst (List.map (\<lambda>(k, v). (k, sprint L v)) m)))
      @ '']''"
| "sprint L GNilMap = ''map[]''"

subsection \<open>Navigation along a list of keys\<close>

fun nav :: "gany \<Rightarrow> string list \<Rightarrow> gany" where
  "nav v [] = v"
| "nav v (p # ps) = (case as_map v of None \<Rightarrow> GNil | Some m \<Rightarrow> nav (index_any m p) ps)"

lemma nav_append: "nav v (ps @ qs) = nav (nav v ps) qs"
proof (induction v ps rule: nav.induct)
  case (1 v)
  show ?case by simp
next
  case (2 v p ps)
  have "nav GNil qs = GNil" by (cases qs) auto
  with 2 show ?case by (auto split: option.splits)
qed

subsection \<open>int64\<close>

definition int64_min :: int where "int64_min = - (2 ^ 63)"
definition int64_max :: int where "int64_max = 2 ^ 63 - 1"

definition in_int64 :: "int \<Rightarrow> bool" where
  "in_int64 i \<longleftrightarrow> int64_min \<le> i \<and> i \<le> int64_max"

text \<open>Two's complement: the value an int64 holds after an operation with exact result \<open>i\<close>.\<close>

definition wrap64 :: "int \<Rightarrow> int" where
  "wrap64 i = (i + 2 ^ 63) mod 2 ^ 64 - 2 ^ 63"

lemma wrap64_id: "in_int64 i \<Longrightarrow> wrap64 i = i"
  by (simp add: in_int64_def int64_min_def int64_max_def wrap64_def)

lemma in_int64_wrap64: "in_int64 (wrap64 i)"
proof -
  have "0 \<le> (i + 2 ^ 63) mod 2 ^ 64" and "(i + 2 ^ 63) mod 2 ^ 64 < 2 ^ 64" by simp_all
  then show ?thesis
    by (simp add: in_int64_def int64_min_def int64_max_def wrap64_def)
qed

subsection \<open>float64: round to nearest, ties to even\<close>

definition pow2 :: "int \<Rightarrow> rat" where
  "pow2 e = (if 0 \<le> e then 2 ^ nat e else 1 / 2 ^ nat (- e))"

definition ilog2 :: "rat \<Rightarrow> int" where
  "ilog2 x = (let (a, b) = quotient_of x; e = bitlen a - bitlen b
              in if pow2 e \<le> x then e else e - 1)"

definition round_half_even :: "rat \<Rightarrow> int" where
  "round_half_even x =
     (let f = \<lfloor>x\<rfloor>; d = x - of_int f
      in if d < 1 / 2 then f else if 1 / 2 < d then f + 1 else if even f then f else f + 1)"

definition round_pos :: "rat \<Rightarrow> rat" where
  "round_pos x = (let q = max (ilog2 x - 52) (-1074)
                  in of_int (round_half_even (x / pow2 q)) * pow2 q)"

definition f64 :: "rat \<Rightarrow> rat" where
  "f64 x = (if x = 0 then 0 else if x < 0 then - round_pos (- x) else round_pos x)"

definition f64_overflows :: "rat \<Rightarrow> bool" where
  "f64_overflows x \<longleftrightarrow> 2 ^ 1024 \<le> \<bar>f64 x\<bar>"

text \<open>The conversion \<open>int(v)\<close>: truncation, where the result fits.\<close>

definition rat_trunc :: "rat \<Rightarrow> int" where
  "rat_trunc x = (if 0 \<le> x then \<lfloor>x\<rfloor> else - \<lfloor>- x\<rfloor>)"

definition int_of_float :: "golib \<Rightarrow> rat \<Rightarrow> int" where
  "int_of_float L x = (if in_int64 (rat_trunc x) then rat_trunc x else conv_oob L x)"

lemma round_half_even_int [simp]: "round_half_even (of_int n) = n"
  by (simp add: round_half_even_def)

lemma round_half_even_bounds:
  "of_int (round_half_even x) \<le> x + 1 / 2" "x - 1 / 2 \<le> of_int (round_half_even x)"
proof -
  have "of_int \<lfloor>x\<rfloor> \<le> x" "x < of_int \<lfloor>x\<rfloor> + 1" by linarith+
  then show "of_int (round_half_even x) \<le> x + 1 / 2" "x - 1 / 2 \<le> of_int (round_half_even x)"
    by (simp_all add: round_half_even_def Let_def split: if_splits; linarith)+
qed

lemma round_half_even_mono:
  assumes "x \<le> y"
  shows "round_half_even x \<le> round_half_even y"
proof (cases "\<lfloor>x\<rfloor> = \<lfloor>y\<rfloor>")
  case True
  with assms show ?thesis by (auto simp: round_half_even_def Let_def)
next
  case False
  with floor_mono [OF assms] have "\<lfloor>x\<rfloor> + 1 \<le> \<lfloor>y\<rfloor>" by simp
  moreover have "round_half_even x \<le> \<lfloor>x\<rfloor> + 1" "\<lfloor>y\<rfloor> \<le> round_half_even y"
    by (auto simp: round_half_even_def Let_def)
  ultimately show ?thesis by simp
qed

lemma pow2_pos [simp]: "0 < pow2 e"
  by (simp add: pow2_def)

lemma f64_zero [simp]: "f64 0 = 0"
  by (simp add: f64_def)


text \<open>An integer below 2^53 is a float64.\<close>

lemma round_pos_exact:
  assumes "0 < x" and "x / pow2 (max (ilog2 x - 52) (-1074)) = of_int n"
  shows "round_pos x = x"
proof -
  let ?p = "pow2 (max (ilog2 x - 52) (-1074))"
  have "round_pos x = of_int n * ?p" using assms(2) by (simp add: round_pos_def Let_def)
  also have "\<dots> = x / ?p * ?p" by (simp only: assms(2))
  also have "\<dots> = x"
  proof -
    have "x / y * y = x" if "0 < y" for y :: rat using that by simp
    then show ?thesis using pow2_pos by blast
  qed
  finally show ?thesis .
qed

lemma f64_int_pos:
  assumes "0 < n" and "n < 2 ^ 53"
  shows "f64 (of_int n) = of_int n"
proof -
  have "ilog2 (of_int n) \<le> bitlen n - 1"
    by (simp add: ilog2_def Let_def bitlen_def floorlog_def)
  moreover have "bitlen n \<le> 53" using assms by (simp add: bitlen_le_iff_power)
  ultimately have q: "max (ilog2 (of_int n :: rat) - 52) (-1074) \<le> 0" by simp
  define k where "k = nat (- max (ilog2 (of_int n :: rat) - 52) (-1074))"
  have "pow2 (max (ilog2 (of_int n) - 52) (-1074)) = 1 / 2 ^ k"
  proof (cases "max (ilog2 (of_int n :: rat) - 52) (-1074) = 0")
    case True
    then show ?thesis by (simp add: pow2_def k_def)
  next
    case False
    with q show ?thesis by (simp add: pow2_def k_def)
  qed
  then have int: "of_int n / pow2 (max (ilog2 (of_int n) - 52) (-1074)) = of_int (n * 2 ^ k)" by simp
  have "round_pos (of_int n) = of_int n" by (rule round_pos_exact [OF _ int]) (use assms(1) in simp)
  with assms(1) show ?thesis by (simp add: f64_def)
qed

end
