(* ===== verification/Model.thy ===== *)
theory Model imports Values begin

section \<open>The data model of model/\<close>

text \<open>
  The structs of model/: the request context, the error envelope and its constructors, the
  invocation types, and the definition tree a YAML file decodes to (definition.go). A pointer
  field that may be nil is an \<open>option\<close>; a \<open>map[string]string\<close> is a \<open>string gomap\<close>. Struct
  tags are left out. Field names carry a prefix per struct.
\<close>

subsection \<open>context.go\<close>

record request_context =
  SubjectID :: string
  Email :: string
  TenantID :: string
  PartitionID :: string
  Roles :: "string list"
  Claims :: "gany gomap option"
  SessionID :: string
  DeviceID :: string
  CorrelationID :: string
  TraceID :: string
  SpanID :: string
  Locale :: string
  Timezone :: string
  Token :: string

text \<open>Validate: the messages of the missing mandatory fields, none when the context is valid.\<close>

definition validate_context :: "request_context \<Rightarrow> string list" where
  "validate_context rc =
     (if SubjectID rc = [] then [''SubjectID is required''] else []) @
     (if TenantID rc = [] then [''TenantID is required''] else [])"

fun has_role_in :: "string list \<Rightarrow> string \<Rightarrow> bool" where
  "has_role_in [] role = False"
| "has_role_in (r # rs) role = (if r = role then True else has_role_in rs role)"

definition HasRole :: "request_context \<Rightarrow> string \<Rightarrow> bool" where
  "HasRole rc role = has_role_in (Roles rc) role"

definition Claim :: "request_context \<Rightarrow> string \<Rightarrow> gany" where
  "Claim rc key = (case Claims rc of None \<Rightarrow> GNil | Some m \<Rightarrow> index_any m key)"

lemma HasRole_iff: "HasRole rc role \<longleftrightarrow> role \<in> set (Roles rc)"
proof -
  have "has_role_in rs role \<longleftrightarrow> role \<in> set rs" for rs
    by (induction rs) auto
  then show ?thesis by (simp add: HasRole_def)
qed

lemma validate_context_ok:
  "validate_context rc = [] \<longleftrightarrow> SubjectID rc \<noteq> [] \<and> TenantID rc \<noteq> []"
  by (simp add: validate_context_def)

subsection \<open>errors.go\<close>

record field_error =
  fe_field :: string
  fe_code :: string
  fe_message :: string

record error_envelope =
  env_code :: string
  env_message :: string
  env_details :: "field_error list"
  env_trace_id :: string

definition envelope :: "string \<Rightarrow> string \<Rightarrow> error_envelope" where
  "envelope code msg = \<lparr>env_code = code, env_message = msg, env_details = [], env_trace_id = []\<rparr>"

definition ErrBadRequest :: string where "ErrBadRequest = ''BAD_REQUEST''"
definition ErrUnauthorized :: string where "ErrUnauthorized = ''UNAUTHORIZED''"
definition ErrForbidden :: string where "ErrForbidden = ''FORBIDDEN''"
definition ErrNotFound :: string where "ErrNotFound = ''NOT_FOUND''"
definition ErrConflict :: string where "ErrConflict = ''CONFLICT''"
definition ErrValidationError :: string where "ErrValidationError = ''VALIDATION_ERROR''"
definition ErrRateLimited :: string where "ErrRateLimited = ''RATE_LIMITED''"
definition ErrInternalError :: string where "ErrInternalError = ''INTERNAL_ERROR''"
definition ErrBackendUnavailable :: string where "ErrBackendUnavailable = ''BACKEND_UNAVAILABLE''"
definition ErrBackendTimeout :: string where "ErrBackendTimeout = ''BACKEND_TIMEOUT''"

lemmas error_code_defs =
  ErrBadRequest_def ErrUnauthorized_def ErrForbidden_def ErrNotFound_def ErrConflict_def
  ErrValidationError_def ErrRateLimited_def ErrInternalError_def ErrBackendUnavailable_def
  ErrBackendTimeout_def

definition NewBadRequestError :: "string \<Rightarrow> error_envelope" where
  "NewBadRequestError msg = envelope ErrBadRequest msg"
definition NewUnauthorizedError :: "string \<Rightarrow> error_envelope" where
  "NewUnauthorizedError msg = envelope ErrUnauthorized msg"
definition NewForbiddenError :: "string \<Rightarrow> error_envelope" where
  "NewForbiddenError msg = envelope ErrForbidden msg"
definition NewNotFoundError :: "string \<Rightarrow> error_envelope" where
  "NewNotFoundError msg = envelope ErrNotFound msg"
definition NewConflictError :: "string \<Rightarrow> error_envelope" where
  "NewConflictError msg = envelope ErrConflict msg"
definition NewValidationError :: "field_error list \<Rightarrow> error_envelope" where
  "NewValidationError details =
     (envelope ErrValidationError ''One or more fields are invalid'')\<lparr>env_details := details\<rparr>"
definition NewInternalError :: error_envelope where
  "NewInternalError = envelope ErrInternalError ''An unexpected error occurred''"
definition NewBackendUnavailableError :: error_envelope where
  "NewBackendUnavailableError =
     envelope ErrBackendUnavailable ''The backend service is temporarily unavailable''"
definition NewBackendTimeoutError :: error_envelope where
  "NewBackendTimeoutError =
     envelope ErrBackendTimeout ''The backend service did not respond in time''"
definition NewRateLimitedError :: error_envelope where
  "NewRateLimitedError =
     envelope ErrRateLimited ''Rate limit exceeded. Please try again later.''"

text \<open>
  A Go error: an \<open>*ErrorEnvelope\<close>, a package-level sentinel, a plain error, or
  \<open>fmt.Errorf\<close> with the verb w, which keeps the wrapped error (the first component is the whole
  message). A type assertion sees only the outermost error; \<open>errors.Is\<close> walks the chain.
\<close>

datatype go_error =
    Envelope error_envelope
  | Sentinel string
  | Plain string
  | Wrap string go_error

fun error_message :: "go_error \<Rightarrow> string" where
  "error_message (Envelope e) = env_code e @ '': '' @ env_message e"
| "error_message (Sentinel m) = m"
| "error_message (Plain m) = m"
| "error_message (Wrap m _) = m"

fun as_envelope :: "go_error \<Rightarrow> error_envelope option" where
  "as_envelope (Envelope e) = Some e"
| "as_envelope _ = None"

fun error_is :: "go_error \<Rightarrow> string \<Rightarrow> bool" where
  "error_is (Sentinel m) target = (m = target)"
| "error_is (Wrap _ e) target = error_is e target"
| "error_is _ _ = False"

lemmas new_error_defs =
  NewBadRequestError_def NewUnauthorizedError_def NewForbiddenError_def NewNotFoundError_def
  NewConflictError_def NewValidationError_def NewInternalError_def NewBackendUnavailableError_def
  NewBackendTimeoutError_def NewRateLimitedError_def envelope_def

subsection \<open>invoker.go\<close>

record operation_binding =
  ob_type :: string
  ob_operation_id :: string
  ob_service_id :: string
  ob_handler :: string

record invocation_input =
  in_path :: "string gomap"
  in_query :: "string gomap"
  in_headers :: "string gomap"
  in_body :: gany

record invocation_result =
  res_status :: int
  res_body :: gany
  res_headers :: "string gomap"

definition empty_input :: invocation_input where
  "empty_input = \<lparr>in_path = [], in_query = [], in_headers = [], in_body = GNil\<rparr>"

record command_input =
  ci_input :: "gany gomap option"
  ci_route :: "string gomap option"

record data_params =
  dp_page :: int
  dp_page_size :: int
  dp_sort :: string
  dp_sort_dir :: string
  dp_filters :: "string gomap"
  dp_query :: string

record pagination =
  pag_page :: int
  pag_page_size :: int
  pag_domain :: string

end
