(* ===== verification/Capability.thy ===== *)
theory Capability imports Model begin

section \<open>Capability sets and wildcard matching (model/capability.go)\<close>

text \<open>
  \<open>Has\<close>, \<open>HasAll\<close>, \<open>HasAny\<close> and \<open>matchWildcard\<close>, the test every provider guards its answers
  with (\<open>denied\<close>), a specification of wildcards over colon-separated segments, and the interface
  \<open>capability_gate\<close> through which the providers' filters are reasoned about.
\<close>

type_synonym capability_set = "bool gomap"

definition match_wildcard :: "string \<Rightarrow> string \<Rightarrow> bool" where
  "match_wildcard pattern cap =
     (if pattern = ''*'' then True
      else if \<not> has_suffix pattern '':*'' then False
      else has_prefix cap (take (length pattern - 1) pattern))"

text \<open>The loop over the patterns reads the keys only, never the value stored with a key.\<close>

fun any_pattern :: "capability_set \<Rightarrow> string \<Rightarrow> bool" where
  "any_pattern [] cap = False"
| "any_pattern ((pattern, _) # cs) cap =
     (if match_wildcard pattern cap then True else any_pattern cs cap)"

definition Has :: "capability_set \<Rightarrow> string \<Rightarrow> bool" where
  "Has cs cap = (if gget cs cap = Some True then True else any_pattern cs cap)"

fun HasAll :: "capability_set \<Rightarrow> string list \<Rightarrow> bool" where
  "HasAll cs [] = True"
| "HasAll cs (cap # caps) = (if \<not> Has cs cap then False else HasAll cs caps)"

fun HasAny :: "capability_set \<Rightarrow> string list \<Rightarrow> bool" where
  "HasAny cs [] = False"
| "HasAny cs (cap # caps) = (if Has cs cap then True else HasAny cs caps)"

text \<open>The guard \<open>len(x.Capabilities) > 0 && !caps.HasAll(x.Capabilities...)\<close>.\<close>

definition denied :: "capability_set \<Rightarrow> string list \<Rightarrow> bool" where
  "denied cs required \<longleftrightarrow> length required > 0 \<and> \<not> HasAll cs required"

subsection \<open>Reference: wildcards over segments\<close>

abbreviation segs :: "string \<Rightarrow> string list" where
  "segs s \<equiv> split_on CHR '':'' s"

definition covers :: "string \<Rightarrow> string \<Rightarrow> bool" where
  "covers pattern cap \<longleftrightarrow>
     pattern = cap \<or> pattern = ''*'' \<or>
     (\<exists>qs. qs \<noteq> [] \<and> segs pattern = qs @ [''*''] \<and> strict_prefix qs (segs cap))"

lemma any_pattern_iff: "any_pattern cs cap \<longleftrightarrow> (\<exists>p\<in>set (gkeys cs). match_wildcard p cap)"
  by (induction cs) auto

lemma HasAll_iff: "HasAll cs caps \<longleftrightarrow> (\<forall>c\<in>set caps. Has cs c)"
  by (induction caps) auto

lemma HasAny_iff: "HasAny cs caps \<longleftrightarrow> (\<exists>c\<in>set caps. Has cs c)"
  by (induction caps) auto

lemma denied_iff: "denied cs req \<longleftrightarrow> \<not> HasAll cs req"
  by (cases req) (auto simp: denied_def)

lemma prefix_join_segs:
  assumes "qs \<noteq> []" and "\<forall>q\<in>set qs. c \<notin> set q"
  shows "prefix (join [c] qs @ [c]) s \<longleftrightarrow> strict_prefix qs (split_on c s)"
  using assms
proof (induction "[c]" qs arbitrary: s rule: join.induct)
  case 1
  then show ?case by simp
next
  case (2 x)
  then have x: "c \<notin> set x" by simp
  show ?case
  proof
    assume "prefix (join [c] [x] @ [c]) s"
    then obtain r where "s = x @ c # r" by (auto simp: prefix_def)
    with x show "strict_prefix [x] (split_on c s)"
      by (auto simp: split_on_append strict_prefix_def)
  next
    assume "strict_prefix [x] (split_on c s)"
    then obtain zs where "split_on c s = x # zs" and "zs \<noteq> []"
      by (auto simp: strict_prefix_def prefix_def)
    then obtain y ys where "split_on c s = x # y # ys"
      by (cases zs) auto
    then have "s = x @ c # join [c] (y # ys)"
      using join_split_on [of c s] by simp
    then show "prefix (join [c] [x] @ [c]) s" by (simp add: prefix_def)
  qed
next
  case (3 x y ys)
  then have x: "c \<notin> set x" by simp
  have IH: "prefix (join [c] (y # ys) @ [c]) r \<longleftrightarrow> strict_prefix (y # ys) (split_on c r)" for r
    using 3 by simp
  show ?case
  proof
    assume "prefix (join [c] (x # y # ys) @ [c]) s"
    then obtain r where s: "s = x @ c # r" and "prefix (join [c] (y # ys) @ [c]) r"
      by (auto simp: prefix_def)
    with IH x show "strict_prefix (x # y # ys) (split_on c s)"
      by (auto simp: split_on_append strict_prefix_def)
  next
    assume *: "strict_prefix (x # y # ys) (split_on c s)"
    then obtain z zs where sp: "split_on c s = x # z # zs"
      by (auto simp: strict_prefix_def prefix_def)
    define r where "r = join [c] (z # zs)"
    have s: "s = x @ c # r"
      using join_split_on [of c s] sp by (simp add: r_def)
    with x have "split_on c s = x # split_on c r" by (simp add: split_on_append)
    with * IH have "prefix (join [c] (y # ys) @ [c]) r"
      by (auto simp: strict_prefix_def)
    with s show "prefix (join [c] (x # y # ys) @ [c]) s"
      by (auto simp: prefix_def)
  qed
qed

lemma join_snoc: "qs \<noteq> [] \<Longrightarrow> join sep (qs @ [x]) = join sep qs @ sep @ x"
  by (induction sep qs rule: join.induct) auto

lemma suffix_star_segs:
  "has_suffix p '':*'' \<longleftrightarrow> (\<exists>qs. qs \<noteq> [] \<and> segs p = qs @ [''*''])"
proof
  assume "has_suffix p '':*''"
  then obtain a where p: "p = a @ '':*''" by (auto simp: has_suffix_iff)
  have "segs (a @ '':*'') = segs a @ [''*'']"
    by (induction a) (auto split: list.splits)
  with p show "\<exists>qs. qs \<noteq> [] \<and> segs p = qs @ [''*'']" by auto
next
  assume "\<exists>qs. qs \<noteq> [] \<and> segs p = qs @ [''*'']"
  then obtain qs where qs: "qs \<noteq> []" "segs p = qs @ [''*'']" by blast
  have "p = join '':'' (qs @ [''*''])"
    using join_split_on [of "CHR '':''" p] qs by simp
  then have "p = join '':'' qs @ '':*''" using qs(1) by (simp add: join_snoc)
  then show "has_suffix p '':*''" by (auto simp: has_suffix_iff)
qed

lemma match_wildcard_segs:
  "match_wildcard p cap \<longleftrightarrow>
     p = ''*'' \<or> (\<exists>qs. qs \<noteq> [] \<and> segs p = qs @ [''*''] \<and> strict_prefix qs (segs cap))"
proof (cases "has_suffix p '':*''")
  case False
  then show ?thesis by (auto simp: match_wildcard_def suffix_star_segs)
next
  case True
  then obtain qs where qs: "qs \<noteq> []" "segs p = qs @ [''*'']"
    by (auto simp: suffix_star_segs)
  have p: "p = join '':'' qs @ '':*''"
    using join_split_on [of "CHR '':''" p] qs by (simp add: join_snoc)
  have nosep: "\<forall>q\<in>set qs. CHR '':'' \<notin> set q"
    using split_on_no_sep [of _ "CHR '':''" p] qs by auto
  have "take (length p - 1) p = join '':'' qs @ '':''"
    by (simp add: p)
  with True have "match_wildcard p cap \<longleftrightarrow> p = ''*'' \<or> prefix (join '':'' qs @ '':'') cap"
    by (simp add: match_wildcard_def)
  also have "\<dots> \<longleftrightarrow> p = ''*'' \<or> strict_prefix qs (segs cap)"
    using prefix_join_segs [OF qs(1) nosep] by simp
  finally show ?thesis using qs by auto
qed

lemma covers_iff: "covers p cap \<longleftrightarrow> p = cap \<or> match_wildcard p cap"
  by (auto simp: covers_def match_wildcard_segs)

lemma Has_iff:
  "Has cs cap \<longleftrightarrow> gget cs cap = Some True \<or> (\<exists>p\<in>set (gkeys cs). match_wildcard p cap)"
  by (simp add: Has_def any_pattern_iff)

lemma Has_all_true:
  assumes "\<forall>(k, v)\<in>set cs. v"
  shows "Has cs cap \<longleftrightarrow> (\<exists>p\<in>set (gkeys cs). covers p cap)"
proof -
  have "gget cs cap = Some True \<longleftrightarrow> cap \<in> set (gkeys cs)"
  proof
    assume "cap \<in> set (gkeys cs)"
    then obtain v where "gget cs cap = Some v"
      by (metis map_of_eq_None_iff not_None_eq image_set)
    with assms map_of_SomeD [of cs cap v] show "gget cs cap = Some True" by auto
  qed (auto dest: map_of_SomeD simp: rev_image_eqI)
  then show ?thesis by (auto simp: Has_iff covers_iff)
qed

subsection \<open>Inclusion of capability sets\<close>

definition caps_le :: "capability_set \<Rightarrow> capability_set \<Rightarrow> bool" where
  "caps_le cs cs' \<longleftrightarrow> (\<forall>k v. gget cs k = Some v \<longrightarrow> gget cs' k = Some v)"

lemma Has_mono:
  assumes "caps_le cs cs'" and "Has cs cap"
  shows "Has cs' cap"
proof -
  have keys: "set (gkeys cs) \<subseteq> set (gkeys cs')"
  proof
    fix k assume "k \<in> set (gkeys cs)"
    then obtain v where "gget cs k = Some v"
      by (metis map_of_eq_None_iff not_None_eq image_set)
    with assms(1) have "gget cs' k = Some v" by (simp add: caps_le_def)
    then show "k \<in> set (gkeys cs')" by (force dest: map_of_SomeD)
  qed
  show ?thesis
    using assms keys unfolding Has_iff caps_le_def by blast
qed

lemma HasAll_mono: "caps_le cs cs' \<Longrightarrow> HasAll cs req \<Longrightarrow> HasAll cs' req"
  by (auto simp: HasAll_iff intro: Has_mono)

lemma Has_cong:
  assumes "gget cs = gget cs'"
  shows "Has cs cap = Has cs' cap"
  using assms Has_mono [of cs cs' cap] Has_mono [of cs' cs cap] by (auto simp: caps_le_def)

subsection \<open>The interface of a gate\<close>

text \<open>
  What the providers rely on: a test that grants the empty requirement, splits over a
  concatenation, and only grows with the set of capabilities. The lemmas say what a list filtered
  by such a test shows: only what is allowed, in the list's order, and more when more is granted.
\<close>

locale capability_gate =
  fixes allows :: "'c \<Rightarrow> string list \<Rightarrow> bool"
    and le :: "'c \<Rightarrow> 'c \<Rightarrow> bool"
  assumes allows_nil: "allows c []"
    and allows_append: "allows c (r @ s) \<longleftrightarrow> allows c r \<and> allows c s"
    and allows_mono: "le c c' \<Longrightarrow> allows c r \<Longrightarrow> allows c' r"
begin

lemma allows_list: "allows c r \<longleftrightarrow> (\<forall>x\<in>set r. allows c [x])"
proof (induction r)
  case Nil
  show ?case by (simp add: allows_nil)
next
  case (Cons x r)
  then show ?case using allows_append [of c "[x]" r] by auto
qed

lemma allows_subset: "set s \<subseteq> set r \<Longrightarrow> allows c r \<Longrightarrow> allows c s"
  using allows_list [of c r] allows_list [of c s] by blast

lemma shown_allowed: "x \<in> set (filter (\<lambda>x. allows c (req x)) xs) \<Longrightarrow> allows c (req x)"
  by simp

lemma shown_mono:
  "le c c' \<Longrightarrow>
   subseq (filter (\<lambda>x. allows c (req x)) xs) (filter (\<lambda>x. allows c' (req x)) xs)"
  by (intro subseq_filter_mono) (rule allows_mono)

lemma shown_public: "req x = [] \<Longrightarrow> x \<in> set xs \<Longrightarrow> x \<in> set (filter (\<lambda>x. allows c (req x)) xs)"
  by (simp add: allows_nil)

end

interpretation gate: capability_gate "\<lambda>cs req. \<not> denied cs req" caps_le
proof
  fix c c' :: capability_set and r s
  show "\<not> denied c []" by (simp add: denied_def)
  show "\<not> denied c (r @ s) \<longleftrightarrow> \<not> denied c r \<and> \<not> denied c s"
    by (auto simp: denied_iff HasAll_iff)
  show "caps_le c c' \<Longrightarrow> \<not> denied c r \<Longrightarrow> \<not> denied c' r"
    by (auto simp: denied_iff intro: HasAll_mono)
qed

lemmas gate_facts [gate_simps] = denied_iff HasAll_iff

subsection \<open>Properties\<close>

text \<open>
  C16. For a set in which every stored value is true, as both policy evaluators build it, \<open>Has\<close>
  decides exactly the specification over colon-separated segments: some member of the set is the
  capability itself, or the pattern of a single star, or a pattern ending in a star segment whose
  other segments are a proper prefix of the capability's segments.
\<close>

theorem has_covers:
  assumes "\<forall>(k, v)\<in>set cs. v"
  shows "Has cs cap \<longleftrightarrow> (\<exists>p\<in>set (gkeys cs). covers p cap)"
  using assms by (rule Has_all_true)

theorem has_covers_witness:
  "Has [(''orders:*'', True), (''users:view'', True)] ''orders:list:view'' \<longleftrightarrow>
     (\<exists>p\<in>set (gkeys [(''orders:*'', True), (''users:view'', True)]). covers p ''orders:list:view'')"
  by (rule has_covers) simp

text \<open>
  The value stored with a wildcard pattern is never read: a pattern mapped to false grants
  everything it matches, in any set and position.
\<close>

theorem wildcard_ignores_value:
  assumes "match_wildcard p cap"
  shows "Has (cs @ (p, False) # cs') cap"
  using assms by (auto simp: Has_iff)

theorem wildcard_ignores_value_witness:
  "Has ([] @ (''orders:*'', False) # []) ''orders:delete''"
  by (rule wildcard_ignores_value) (simp add: match_wildcard_def has_suffix_def)

end
