(* ===== verification/TTLCache.thy ===== *)
theory TTLCache imports Prelude begin

section \<open>The interface of a cache with expiry\<close>

text \<open>
  Four parts of the program keep a map with expiry times: the capability resolver, the lookup
  provider, the analytics response cache and the partition resolver. They share this contract:
  a cache never invents an entry, and an entry that has expired stays expired. From it follow the
  facts their callers rely on: every hit was stored for that very key, and a property of
  everything stored is a property of every hit. A time is a count of nanoseconds.
\<close>

locale ttl_cache =
  fixes cget :: "int \<Rightarrow> 'k \<Rightarrow> 'c \<Rightarrow> 'v option"
    and cput :: "int \<Rightarrow> 'k \<Rightarrow> 'v \<Rightarrow> 'c \<Rightarrow> 'c"
    and cempty :: 'c
    and cinv :: "'c \<Rightarrow> bool"
  assumes cinv_empty: "cinv cempty"
    and cinv_put: "cinv c \<Longrightarrow> cinv (cput now k v c)"
    and cget_empty: "cget t k cempty = None"
    and cget_put: "cinv c \<Longrightarrow> cget t k' (cput now k v c) = Some v' \<Longrightarrow>
                     (k' = k \<and> v' = v) \<or> cget t k' c = Some v'"
    and cget_earlier: "t \<le> t' \<Longrightarrow> cget t' k c = Some v \<Longrightarrow> cget t k c = Some v"
begin

text \<open>A history of stores, oldest first.\<close>

primrec stores :: "(int \<times> 'k \<times> 'v) list \<Rightarrow> 'c \<Rightarrow> 'c" where
  "stores [] c = c"
| "stores (e # es) c = stores es (cput (fst e) (fst (snd e)) (snd (snd e)) c)"

lemma cinv_stores: "cinv c \<Longrightarrow> cinv (stores es c)"
  by (induction es arbitrary: c) (auto intro: cinv_put)

lemma hit_after_stores:
  "cinv c \<Longrightarrow> cget t k (stores es c) = Some v \<Longrightarrow>
   (\<exists>now. (now, k, v) \<in> set es) \<or> cget t k c = Some v"
proof (induction es arbitrary: c)
  case Nil
  then show ?case by simp
next
  case (Cons e es)
  obtain now k0 v0 where e: "e = (now, k0, v0)" by (cases e)
  from Cons.prems e have "cget t k (stores es (cput now k0 v0 c)) = Some v" by simp
  with Cons.IH [OF cinv_put [OF Cons.prems(1)]]
  have "(\<exists>now. (now, k, v) \<in> set es) \<or> cget t k (cput now k0 v0 c) = Some v" by blast
  then show ?case
  proof
    assume "\<exists>now. (now, k, v) \<in> set es"
    then show ?thesis by auto
  next
    assume "cget t k (cput now k0 v0 c) = Some v"
    from cget_put [OF Cons.prems(1) this] show ?thesis using e by auto
  qed
qed

text \<open>No hit without a store of that key and that value.\<close>

lemma hit_was_stored:
  "cget t k (stores es cempty) = Some v \<Longrightarrow> \<exists>now. (now, k, v) \<in> set es"
  using hit_after_stores [OF cinv_empty, of t k es v] by (auto simp: cget_empty)

definition justified :: "('k \<Rightarrow> 'v \<Rightarrow> bool) \<Rightarrow> 'c \<Rightarrow> bool" where
  "justified P c \<longleftrightarrow> (\<forall>t k v. cget t k c = Some v \<longrightarrow> P k v)"

lemma justified_empty: "justified P cempty"
  by (simp add: justified_def cget_empty)

lemma justified_put: "cinv c \<Longrightarrow> justified P c \<Longrightarrow> P k v \<Longrightarrow> justified P (cput now k v c)"
  unfolding justified_def using cget_put by blast

lemma justified_hit: "justified P c \<Longrightarrow> cget t k c = Some v \<Longrightarrow> P k v"
  by (simp add: justified_def)

lemma miss_stays: "t \<le> t' \<Longrightarrow> cget t k c = None \<Longrightarrow> cget t' k c = None"
  using cget_earlier by (metis option.exhaust)

end

text \<open>
  Caches that store unconditionally, with a fixed lifetime: what was stored is found until it
  expires, and is not served after.
\<close>

locale storing_ttl_cache = ttl_cache +
  fixes ttl :: int
  assumes cget_fresh: "cinv c \<Longrightarrow> t < now + ttl \<Longrightarrow> cget t k (cput now k v c) = Some v"
    and cget_stale: "cinv c \<Longrightarrow> now + ttl < t \<Longrightarrow> cget t k (cput now k v c) = None"
begin

text \<open>Within the lifetime the last store of a key wins.\<close>

lemma last_store_wins:
  "cinv c \<Longrightarrow> t < now2 + ttl \<Longrightarrow> cget t k (cput now2 k v2 (cput now1 k v1 c)) = Some v2"
  by (intro cget_fresh cinv_put)

lemma hit_age:
  "cinv c \<Longrightarrow> cget t k (cput now k v c) = Some v' \<Longrightarrow> t \<le> now + ttl"
  using cget_stale by (metis linorder_not_less option.distinct(1))

end

end
