(* ===== verification/CapabilityResolver.thy ===== *)
theory CapabilityResolver imports Capability TTLCache begin

section \<open>The capability resolver (pkg/capability/resolver.go)\<close>

text \<open>
  \<open>Resolver\<close> caches the capability set of a (subject, tenant, partition) for a fixed time.
  The state is the Go map; each call takes the reading of the clock as an argument. Here
  \<open>Resolve\<close> runs as one call; ResolverSteps splits it at its lock operations into steps of
  concurrent requests, since the read lock is released before the evaluator runs.
\<close>

record cap_entry =
  ce_caps :: capability_set
  ce_expires :: int

record resolver =
  r_ttl :: int
  r_cache :: "cap_entry gomap"

definition NewResolver :: "int \<Rightarrow> resolver" where
  "NewResolver ttl = \<lparr>r_ttl = ttl, r_cache = []\<rparr>"

definition cap_cache_key :: "request_context \<Rightarrow> string" where
  "cap_cache_key rctx = SubjectID rctx @ '':'' @ TenantID rctx @ '':'' @ PartitionID rctx"

definition cap_lookup :: "int \<Rightarrow> string \<Rightarrow> cap_entry gomap \<Rightarrow> capability_set option" where
  "cap_lookup now key cache =
     (case gget cache key of
        Some entry \<Rightarrow> if now < ce_expires entry then Some (ce_caps entry) else None
      | None \<Rightarrow> None)"

definition cap_store ::
  "int \<Rightarrow> int \<Rightarrow> string \<Rightarrow> capability_set \<Rightarrow> cap_entry gomap \<Rightarrow> cap_entry gomap" where
  "cap_store ttl now key caps cache =
     gput key \<lparr>ce_caps = caps, ce_expires = now + ttl\<rparr> cache"

text \<open>
  \<open>Resolve\<close>: \<open>now\<close> is the clock at the check, \<open>now'\<close> the clock when the entry is written, and
  \<open>eval\<close> the policy evaluator.
\<close>

definition Resolve ::
  "(request_context \<Rightarrow> go_error + capability_set) \<Rightarrow> int \<Rightarrow> int \<Rightarrow> request_context \<Rightarrow>
   resolver \<Rightarrow> (go_error + capability_set) \<times> resolver" where
  "Resolve eval now now' rctx r =
     (let key = cap_cache_key rctx in
      case cap_lookup now key (r_cache r) of
        Some caps \<Rightarrow> (Inr caps, r)
      | None \<Rightarrow>
          (case eval rctx of
             Inl err \<Rightarrow> (Inl err, r)
           | Inr caps \<Rightarrow>
               (Inr caps, r\<lparr>r_cache := cap_store (r_ttl r) now' key caps (r_cache r)\<rparr>)))"

definition Invalidate :: "string \<Rightarrow> string \<Rightarrow> resolver \<Rightarrow> resolver" where
  "Invalidate subjectID tenantID r =
     (let pre = subjectID @ '':'' @ tenantID @ '':'' in
      r\<lparr>r_cache := filter (\<lambda>(key, _).
          \<not> (length key \<ge> length pre \<and> take (length pre) key = pre)) (r_cache r)\<rparr>)"

subsection \<open>The cache keeps the contract\<close>

lemma cap_lookup_store:
  "cap_lookup t k' (cap_store ttl now k v c) =
     (if k' = k then (if t < now + ttl then Some v else None) else cap_lookup t k' c)"
  by (simp add: cap_lookup_def cap_store_def gget_gput)

interpretation capc: storing_ttl_cache cap_lookup "cap_store ttl" "[]" gmap_ok ttl
  for ttl :: int
proof
  show "gmap_ok []" by simp
  show "gmap_ok c \<Longrightarrow> gmap_ok (cap_store ttl now k v c)" for c now k v
    by (simp add: cap_store_def gmap_ok_gput)
  show "cap_lookup t k [] = None" for t k
    by (simp add: cap_lookup_def)
  show "gmap_ok c \<Longrightarrow> cap_lookup t k' (cap_store ttl now k v c) = Some v' \<Longrightarrow>
        k' = k \<and> v' = v \<or> cap_lookup t k' c = Some v'" for c t k' now k v v'
    by (auto simp: cap_lookup_store split: if_splits)
  show "t \<le> t' \<Longrightarrow> cap_lookup t' k c = Some v \<Longrightarrow> cap_lookup t k c = Some v" for t t' k c v
    by (auto simp: cap_lookup_def split: option.splits if_splits)
  show "gmap_ok c \<Longrightarrow> t < now + ttl \<Longrightarrow> cap_lookup t k (cap_store ttl now k v c) = Some v"
    for c t now k v
    by (simp add: cap_lookup_store)
  show "gmap_ok c \<Longrightarrow> now + ttl < t \<Longrightarrow> cap_lookup t k (cap_store ttl now k v c) = None"
    for c t now k v
    by (simp add: cap_lookup_store)
qed

definition resolver_ok :: "resolver \<Rightarrow> bool" where
  "resolver_ok r \<longleftrightarrow> gmap_ok (r_cache r)"

lemma resolver_ok_New: "resolver_ok (NewResolver ttl)"
  by (simp add: resolver_ok_def NewResolver_def)

lemma resolver_ok_Resolve:
  "resolver_ok r \<Longrightarrow> Resolve eval now now' rctx r = (res, r') \<Longrightarrow> resolver_ok r'"
  by (auto simp: resolver_ok_def Resolve_def Let_def cap_store_def gmap_ok_gput
           split: option.splits sum.splits)

lemma resolver_ok_Invalidate: "resolver_ok r \<Longrightarrow> resolver_ok (Invalidate s t r)"
  by (auto simp: resolver_ok_def Invalidate_def Let_def)

subsection \<open>Keys\<close>

lemma colon_split:
  fixes c :: char
  assumes "c \<notin> set a" and "c \<notin> set a'" and "a @ c # b = a' @ c # b'"
  shows "a = a' \<and> b = b'"
proof -
  have "split_on c (a @ c # b) = split_on c (a' @ c # b')" using assms(3) by simp
  then have "a = a'" using assms(1,2) by (simp add: split_on_append)
  with assms(3) show ?thesis by simp
qed

definition plain_ids :: "request_context \<Rightarrow> bool" where
  "plain_ids rctx \<longleftrightarrow> CHR '':'' \<notin> set (SubjectID rctx) \<and> CHR '':'' \<notin> set (TenantID rctx)"

lemma cap_cache_key_inj:
  assumes "plain_ids a" and "plain_ids b" and "cap_cache_key a = cap_cache_key b"
  shows "SubjectID a = SubjectID b \<and> TenantID a = TenantID b \<and> PartitionID a = PartitionID b"
  using assms colon_split unfolding plain_ids_def cap_cache_key_def
  by (metis append_Cons append_Nil)

lemma key_prefix_iff:
  assumes "plain_ids rctx" and "CHR '':'' \<notin> set s" and "CHR '':'' \<notin> set t"
  shows "prefix (s @ '':'' @ t @ '':'') (cap_cache_key rctx) \<longleftrightarrow>
         SubjectID rctx = s \<and> TenantID rctx = t"
proof
  assume "prefix (s @ '':'' @ t @ '':'') (cap_cache_key rctx)"
  then obtain r where
    eq: "SubjectID rctx @ CHR '':'' # (TenantID rctx @ CHR '':'' # PartitionID rctx) =
         s @ CHR '':'' # (t @ CHR '':'' # r)"
    by (auto simp: prefix_def cap_cache_key_def)
  have "SubjectID rctx = s" and "TenantID rctx @ CHR '':'' # PartitionID rctx = t @ CHR '':'' # r"
    using colon_split [OF _ _ eq] assms by (auto simp: plain_ids_def)
  moreover have "TenantID rctx = t"
    using colon_split [OF _ _ \<open>TenantID rctx @ CHR '':'' # PartitionID rctx = t @ CHR '':'' # r\<close>]
      assms by (auto simp: plain_ids_def)
  ultimately show "SubjectID rctx = s \<and> TenantID rctx = t" by simp
qed (auto simp: cap_cache_key_def prefix_def)

lemma take_prefix: "length p \<le> length s \<and> take (length p) s = p \<longleftrightarrow> prefix p s"
  by (auto simp: prefix_def) (metis append_take_drop_id)

lemma cap_lookup_Invalidate:
  assumes "resolver_ok r"
  shows "cap_lookup now k (r_cache (Invalidate s t r)) =
    (if prefix (s @ '':'' @ t @ '':'') k then None else cap_lookup now k (r_cache r))"
  using assms
  by (auto simp: Invalidate_def Let_def cap_lookup_def resolver_ok_def gget_filter
        take_prefix [symmetric] simp del: append.simps append_assoc split: option.splits)

subsection \<open>Properties\<close>

lemma Resolve_hit:
  "cap_lookup now (cap_cache_key rctx) (r_cache r) = Some caps \<Longrightarrow>
   Resolve eval now now' rctx r = (Inr caps, r)"
  by (simp add: Resolve_def Let_def)

lemma Resolve_miss_ok:
  "cap_lookup now (cap_cache_key rctx) (r_cache r) = None \<Longrightarrow> eval rctx = Inr caps \<Longrightarrow>
   Resolve eval now now' rctx r =
     (Inr caps, r\<lparr>r_cache := cap_store (r_ttl r) now' (cap_cache_key rctx) caps (r_cache r)\<rparr>)"
  by (simp add: Resolve_def Let_def)

text \<open>
  Results are served from memory for the configured lifetime: after a resolution that had to
  ask the evaluator, every resolution for the same identifiers before the entry expires gives the
  same set without asking the evaluator again and without touching the state.
\<close>

theorem resolve_cached:
  assumes "cap_lookup now (cap_cache_key rctx) (r_cache r) = None"
    and "Resolve eval now now' rctx r = (Inr caps, r')"
    and "cap_cache_key rctx' = cap_cache_key rctx" and "t < now' + r_ttl r"
    and "resolver_ok r"
  shows "Resolve eval' t t' rctx' r' = (Inr caps, r')"
proof -
  have r': "r' = r\<lparr>r_cache := cap_store (r_ttl r) now' (cap_cache_key rctx) caps (r_cache r)\<rparr>"
    using assms(1,2) by (auto simp: Resolve_def Let_def split: sum.splits)
  have "cap_lookup t (cap_cache_key rctx') (r_cache r') = Some caps"
    using capc.cget_fresh [of "r_cache r" t now' "r_ttl r"] assms(3-5)
    by (simp add: r' resolver_ok_def)
  then show ?thesis by (rule Resolve_hit)
qed

definition ctx_of :: "string \<Rightarrow> string \<Rightarrow> string \<Rightarrow> request_context" where
  "ctx_of sub ten part =
     \<lparr>SubjectID = sub, Email = [], TenantID = ten, PartitionID = part, Roles = [],
      Claims = None, SessionID = [], DeviceID = [], CorrelationID = [], TraceID = [],
      SpanID = [], Locale = [], Timezone = [], Token = []\<rparr>"

theorem resolve_cached_witness:
  "Resolve (\<lambda>_. Inl (Plain ''down'')) 3 3 (ctx_of ''u'' ''t'' ''p'')
     (snd (Resolve (\<lambda>_. Inr [(''*'', True)]) 0 0 (ctx_of ''u'' ''t'' ''p'') (NewResolver 5))) =
   (Inr [(''*'', True)],
    snd (Resolve (\<lambda>_. Inr [(''*'', True)]) 0 0 (ctx_of ''u'' ''t'' ''p'') (NewResolver 5)))"
  by (rule resolve_cached [where r = "NewResolver 5" and now = 0 and now' = 0
        and rctx = "ctx_of ''u'' ''t'' ''p''" and eval = "\<lambda>_. Inr [(''*'', True)]"])
     (simp_all add: NewResolver_def cap_lookup_def Resolve_def Let_def resolver_ok_def)

text \<open>
  \<open>Invalidate\<close> is exact on identifiers without a colon: after it no lookup for that subject and
  tenant hits, in any partition, and the lookups of everybody else are what they were.
\<close>

theorem invalidate_exact:
  assumes "resolver_ok r" and "plain_ids rctx" and "CHR '':'' \<notin> set s" and "CHR '':'' \<notin> set t"
  shows "cap_lookup now (cap_cache_key rctx) (r_cache (Invalidate s t r)) =
    (if SubjectID rctx = s \<and> TenantID rctx = t then None
     else cap_lookup now (cap_cache_key rctx) (r_cache r))"
  using cap_lookup_Invalidate [OF assms(1)] key_prefix_iff [OF assms(2-4)] by simp

theorem invalidate_exact_witness:
  "cap_lookup 0 (cap_cache_key (ctx_of ''u'' ''t'' ''p''))
     (r_cache (Invalidate ''u'' ''t'' (NewResolver 5))) =
   (if SubjectID (ctx_of ''u'' ''t'' ''p'') = ''u'' \<and> TenantID (ctx_of ''u'' ''t'' ''p'') = ''t''
    then None else cap_lookup 0 (cap_cache_key (ctx_of ''u'' ''t'' ''p'')) (r_cache (NewResolver 5)))"
  by (rule invalidate_exact) (simp_all add: resolver_ok_New plain_ids_def ctx_of_def)

text \<open>
  The key does not separate identifiers that contain a colon: subject \<open>u:acme\<close> of tenant \<open>x\<close>
  and subject \<open>u\<close> of tenant \<open>acme:x\<close> share one entry, so the second is served the first one's
  capabilities.
\<close>

theorem cap_key_collision:
  "let a = ctx_of ''u:acme'' ''x'' ''p''; b = ctx_of ''u'' ''acme:x'' ''p'';
       eval = (\<lambda>rctx. if SubjectID rctx = ''u:acme'' then Inr [(''*'', True)] else Inr [])
   in TenantID a \<noteq> TenantID b \<and> eval b = Inr [] \<and>
      fst (Resolve eval 1 1 b (snd (Resolve eval 0 0 a (NewResolver 300)))) = Inr [(''*'', True)]"
  by (simp add: Let_def ctx_of_def Resolve_def NewResolver_def cap_cache_key_def cap_lookup_def
        cap_store_def)

end
