(* ===== verification/ResolverSteps.thy ===== *)
theory ResolverSteps imports CapabilityResolver begin

section \<open>Concurrent requests on one resolver\<close>

text \<open>
  \<open>Resolve\<close> holds the read lock for the lookup and the write lock for the store, and runs the
  evaluator between them without a lock. Any number of requests, numbered by \<open>nat\<close>, therefore
  interleave at these points: \<open>AtCheck\<close> before the lookup, \<open>AtEval\<close> before the evaluator answers,
  \<open>AtStore\<close> between the answer and the write, \<open>Returned\<close> at the end. The evaluator is a relation,
  because its answer for one context may change over time. \<open>Invalidate\<close> may run at any moment.
\<close>

datatype rpc =
    AtCheck
  | AtEval
  | AtStore capability_set
  | Returned "go_error + capability_set"

record rsys =
  rs_cache :: "cap_entry gomap"
  rs_clock :: int
  rs_pc :: "nat \<Rightarrow> rpc"

definition rsys_init :: "int \<Rightarrow> rsys" where
  "rsys_init t = \<lparr>rs_cache = [], rs_clock = t, rs_pc = (\<lambda>_. AtCheck)\<rparr>"

definition invalidate_cache :: "string \<Rightarrow> string \<Rightarrow> cap_entry gomap \<Rightarrow> cap_entry gomap" where
  "invalidate_cache s t c = r_cache (Invalidate s t \<lparr>r_ttl = 0, r_cache = c\<rparr>)"

inductive rstep ::
  "int \<Rightarrow> (nat \<Rightarrow> request_context) \<Rightarrow> (request_context \<Rightarrow> go_error + capability_set \<Rightarrow> bool) \<Rightarrow>
   rsys \<Rightarrow> rsys \<Rightarrow> bool"
  for ttl :: int and rq :: "nat \<Rightarrow> request_context"
    and ev :: "request_context \<Rightarrow> go_error + capability_set \<Rightarrow> bool"
where
  tick: "0 \<le> d \<Longrightarrow> rstep ttl rq ev s (s\<lparr>rs_clock := rs_clock s + d\<rparr>)"
| hit: "rs_pc s i = AtCheck \<Longrightarrow>
    cap_lookup (rs_clock s) (cap_cache_key (rq i)) (rs_cache s) = Some caps \<Longrightarrow>
    rstep ttl rq ev s (s\<lparr>rs_pc := (rs_pc s)(i := Returned (Inr caps))\<rparr>)"
| miss: "rs_pc s i = AtCheck \<Longrightarrow>
    cap_lookup (rs_clock s) (cap_cache_key (rq i)) (rs_cache s) = None \<Longrightarrow>
    rstep ttl rq ev s (s\<lparr>rs_pc := (rs_pc s)(i := AtEval)\<rparr>)"
| eval_err: "rs_pc s i = AtEval \<Longrightarrow> ev (rq i) (Inl e) \<Longrightarrow>
    rstep ttl rq ev s (s\<lparr>rs_pc := (rs_pc s)(i := Returned (Inl e))\<rparr>)"
| eval_ok: "rs_pc s i = AtEval \<Longrightarrow> ev (rq i) (Inr caps) \<Longrightarrow>
    rstep ttl rq ev s (s\<lparr>rs_pc := (rs_pc s)(i := AtStore caps)\<rparr>)"
| store: "rs_pc s i = AtStore caps \<Longrightarrow>
    rstep ttl rq ev s
      (s\<lparr>rs_cache := cap_store ttl (rs_clock s) (cap_cache_key (rq i)) caps (rs_cache s),
         rs_pc := (rs_pc s)(i := Returned (Inr caps))\<rparr>)"
| invalidate: "rstep ttl rq ev s (s\<lparr>rs_cache := invalidate_cache u t (rs_cache s)\<rparr>)"

inductive rreach ::
  "int \<Rightarrow> (nat \<Rightarrow> request_context) \<Rightarrow> (request_context \<Rightarrow> go_error + capability_set \<Rightarrow> bool) \<Rightarrow>
   rsys \<Rightarrow> bool"
  for ttl rq ev
where
  start: "rreach ttl rq ev (rsys_init t)"
| run: "rreach ttl rq ev s \<Longrightarrow> rstep ttl rq ev s s' \<Longrightarrow> rreach ttl rq ev s'"

text \<open>
  The invariant: whatever a request holds, and whatever the cache holds, was answered by the
  evaluator for a request with the same key; and no entry outlives the lifetime.
\<close>

definition answered ::
  "(nat \<Rightarrow> request_context) \<Rightarrow> (request_context \<Rightarrow> go_error + capability_set \<Rightarrow> bool) \<Rightarrow>
   string \<Rightarrow> capability_set \<Rightarrow> bool" where
  "answered rq ev key caps \<longleftrightarrow> (\<exists>j. cap_cache_key (rq j) = key \<and> ev (rq j) (Inr caps))"

definition rinv ::
  "int \<Rightarrow> (nat \<Rightarrow> request_context) \<Rightarrow> (request_context \<Rightarrow> go_error + capability_set \<Rightarrow> bool) \<Rightarrow>
   rsys \<Rightarrow> bool" where
  "rinv ttl rq ev s \<longleftrightarrow>
     gmap_ok (rs_cache s) \<and>
     (\<forall>k e. gget (rs_cache s) k = Some e \<longrightarrow>
        answered rq ev k (ce_caps e) \<and> ce_expires e \<le> rs_clock s + ttl) \<and>
     (\<forall>i caps. rs_pc s i = AtStore caps \<longrightarrow> answered rq ev (cap_cache_key (rq i)) caps) \<and>
     (\<forall>i caps. rs_pc s i = Returned (Inr caps) \<longrightarrow> answered rq ev (cap_cache_key (rq i)) caps) \<and>
     (\<forall>i e. rs_pc s i = Returned (Inl e) \<longrightarrow> ev (rq i) (Inl e))"

lemma gget_invalidate:
  "gmap_ok c \<Longrightarrow> gget (invalidate_cache u t c) k = Some e \<Longrightarrow> gget c k = Some e"
  by (auto simp: invalidate_cache_def Invalidate_def Let_def gget_filter
           split: option.splits if_splits)

lemma set_invalidate: "x \<in> set (invalidate_cache u t c) \<Longrightarrow> x \<in> set c"
  by (auto simp: invalidate_cache_def Invalidate_def Let_def)

lemma gmap_ok_invalidate: "gmap_ok c \<Longrightarrow> gmap_ok (invalidate_cache u t c)"
  by (auto simp: invalidate_cache_def Invalidate_def Let_def)

lemma rinv_init: "rinv ttl rq ev (rsys_init t)"
  by (simp add: rinv_def rsys_init_def)

lemma cap_lookup_answered:
  "rinv ttl rq ev s \<Longrightarrow> cap_lookup t k (rs_cache s) = Some caps \<Longrightarrow> answered rq ev k caps"
  by (auto simp: rinv_def cap_lookup_def split: option.splits if_splits)

lemma rinv_step: "rstep ttl rq ev s s' \<Longrightarrow> rinv ttl rq ev s \<Longrightarrow> rinv ttl rq ev s'"
proof (induction rule: rstep.induct)
  case (tick d s)
  then show ?case unfolding rinv_def by fastforce
next
  case (hit s i caps)
  then show ?case
    using cap_lookup_answered [OF hit.prems hit.hyps(2)] by (simp add: rinv_def)
next
  case (miss s i)
  then show ?case by (simp add: rinv_def)
next
  case (eval_err s i e)
  then show ?case by (simp add: rinv_def)
next
  case (eval_ok s i caps)
  then show ?case by (auto simp: rinv_def answered_def)
next
  case (store s i caps)
  then show ?case by (auto simp: rinv_def cap_store_def gget_gput gmap_ok_gput)
next
  case (invalidate s u t)
  then show ?case
    by (auto simp: rinv_def gmap_ok_invalidate dest: set_invalidate)
qed

lemma rinv_reach: "rreach ttl rq ev s \<Longrightarrow> rinv ttl rq ev s"
  by (induction rule: rreach.induct) (auto intro: rinv_init rinv_step)

text \<open>
  C8. In every reachable interleaving of requests, clock ticks and invalidations, a capability set
  handed to a request was computed by the evaluator for a request of the same subject, tenant and
  partition, as long as subject and tenant identifiers hold no colon; and an error handed to a
  request is the evaluator's answer for that very request: errors are never served from the cache.
\<close>

theorem resolver_isolation:
  assumes "rreach ttl rq ev s" and "\<forall>j. plain_ids (rq j)"
  shows "case rs_pc s i of
           Returned (Inr caps) \<Rightarrow>
             (\<exists>j. SubjectID (rq j) = SubjectID (rq i) \<and> TenantID (rq j) = TenantID (rq i) \<and>
                  PartitionID (rq j) = PartitionID (rq i) \<and> ev (rq j) (Inr caps))
         | Returned (Inl e) \<Rightarrow> ev (rq i) (Inl e)
         | _ \<Rightarrow> True"
proof (cases "rs_pc s i")
  case (Returned res)
  show ?thesis
  proof (cases res)
    case (Inl e)
    with Returned rinv_reach [OF assms(1)] show ?thesis by (simp add: rinv_def)
  next
    case (Inr caps)
    with Returned rinv_reach [OF assms(1)] have "answered rq ev (cap_cache_key (rq i)) caps"
      by (simp add: rinv_def)
    then obtain j where j: "cap_cache_key (rq j) = cap_cache_key (rq i)" "ev (rq j) (Inr caps)"
      by (auto simp: answered_def)
    from cap_cache_key_inj [OF _ _ j(1)] assms(2) j(2) show ?thesis
      by (auto simp: Returned Inr)
  qed
qed simp_all

text \<open>A request advances from state to state and is never set back, not by another request either.\<close>

fun pc_rank :: "rpc \<Rightarrow> nat" where
  "pc_rank AtCheck = 3"
| "pc_rank AtEval = 2"
| "pc_rank (AtStore caps) = 1"
| "pc_rank (Returned res) = 0"

inductive_cases rstepE: "rstep ttl rq ev s s'"

lemma rstep_rank:
  "rstep ttl rq ev s s' \<Longrightarrow> rs_pc s' i = rs_pc s i \<or> pc_rank (rs_pc s' i) < pc_rank (rs_pc s i)"
  by (erule rstepE) auto

lemma store_returns: "rs_pc s i = AtStore caps \<Longrightarrow> \<exists>s'. rstep ttl rq ev s s' \<and> rs_pc s' i = Returned (Inr caps)"
  by (rule exI, rule conjI, erule rstep.store) simp

lemma eval_returns:
  assumes "rs_pc s i = AtEval" and "ev (rq i) res"
  shows "\<exists>n\<le>2. \<exists>s' res. (rstep ttl rq ev ^^ n) s s' \<and> rs_pc s' i = Returned res"
proof (cases res)
  case (Inl e)
  with assms have "rstep ttl rq ev s (s\<lparr>rs_pc := (rs_pc s)(i := Returned (Inl e))\<rparr>)" by (simp add: rstep.eval_err)
  then show ?thesis by (intro exI [of _ "1 :: nat"] conjI exI) auto
next
  case (Inr caps)
  define s1 where "s1 = s\<lparr>rs_pc := (rs_pc s)(i := AtStore caps)\<rparr>"
  from assms Inr have "rstep ttl rq ev s s1" by (simp add: rstep.eval_ok s1_def)
  moreover obtain s2 where "rstep ttl rq ev s1 s2" "rs_pc s2 i = Returned (Inr caps)"
    using store_returns [of s1 i caps ttl rq ev] by (auto simp: s1_def)
  ultimately have "(rstep ttl rq ev ^^ 2) s s2" by (auto simp: numeral_2_eq_2)
  with \<open>rs_pc s2 i = Returned (Inr caps)\<close> show ?thesis by blast
qed

text \<open>
  A resolution always ends: in every state, a request can be driven to its answer by at most three
  steps of its own, whatever the others have done, as long as the evaluator answers; and no step of
  anybody sets a request back.
\<close>

theorem resolver_returns:
  assumes "ev (rq i) res"
  shows "(\<exists>n\<le>3. \<exists>s' ans. (rstep ttl rq ev ^^ n) s s' \<and> rs_pc s' i = Returned ans) \<and>
    {s'. rstep ttl rq ev s s'} \<subseteq> {s'. rs_pc s' i = rs_pc s i \<or> pc_rank (rs_pc s' i) < pc_rank (rs_pc s i)}"
proof -
  have "\<exists>n\<le>3. \<exists>s' ans. (rstep ttl rq ev ^^ n) s s' \<and> rs_pc s' i = Returned ans"
  proof (cases "rs_pc s i")
    case AtCheck
    show ?thesis
    proof (cases "cap_lookup (rs_clock s) (cap_cache_key (rq i)) (rs_cache s)")
      case None
      define s1 where "s1 = s\<lparr>rs_pc := (rs_pc s)(i := AtEval)\<rparr>"
      have "rstep ttl rq ev s s1" using AtCheck None by (simp add: rstep.miss s1_def)
      moreover obtain n s2 ans where "n \<le> 2" "(rstep ttl rq ev ^^ n) s1 s2" "rs_pc s2 i = Returned ans"
        using eval_returns [where s = s1 and i = i and ev = ev and rq = rq and ttl = ttl and res = res] assms
        by (auto simp: s1_def)
      ultimately have "(rstep ttl rq ev ^^ Suc n) s s2" "Suc n \<le> 3" by (blast intro: relpowp_Suc_I2, simp)
      with \<open>rs_pc s2 i = Returned ans\<close> show ?thesis by blast
    next
      case (Some caps)
      then have "(rstep ttl rq ev ^^ 1) s (s\<lparr>rs_pc := (rs_pc s)(i := Returned (Inr caps))\<rparr>)"
        using AtCheck by (simp add: rstep.hit relpowp_1 del: relpowp.simps One_nat_def)
      then show ?thesis by (intro exI [of _ "1 :: nat"] conjI exI) auto
    qed
  next
    case AtEval
    then obtain n s' ans where "n \<le> 2" "(rstep ttl rq ev ^^ n) s s'" "rs_pc s' i = Returned ans"
      using eval_returns [where s = s and i = i and ev = ev and rq = rq and ttl = ttl and res = res] assms by auto
    then show ?thesis by (intro exI [of _ n]) auto
  next
    case (AtStore caps)
    from store_returns [OF this, of ttl rq ev] show ?thesis by (intro exI [of _ "1 :: nat"]) auto
  next
    case (Returned ans)
    then show ?thesis by (intro exI [of _ "0 :: nat"]) auto
  qed
  then show ?thesis using rstep_rank [of ttl rq ev s _ i] by blast
qed

text \<open>A concrete run: request 0 misses, is evaluated, and stores.\<close>

definition demo_rq :: "nat \<Rightarrow> request_context" where
  "demo_rq i = ctx_of ''alice'' ''acme'' ''root''"

definition demo_ev :: "request_context \<Rightarrow> go_error + capability_set \<Rightarrow> bool" where
  "demo_ev rctx res \<longleftrightarrow> res = Inr [(''orders:*'', True)]"

definition demo_state1 :: rsys where
  "demo_state1 = (rsys_init 0)\<lparr>rs_pc := (rs_pc (rsys_init 0))(0 := AtEval)\<rparr>"

definition demo_state2 :: rsys where
  "demo_state2 = demo_state1\<lparr>rs_pc := (rs_pc demo_state1)(0 := AtStore [(''orders:*'', True)])\<rparr>"

definition demo_state :: rsys where
  "demo_state = demo_state2\<lparr>rs_cache := cap_store 5 (rs_clock demo_state2)
       (cap_cache_key (demo_rq 0)) [(''orders:*'', True)] (rs_cache demo_state2),
     rs_pc := (rs_pc demo_state2)(0 := Returned (Inr [(''orders:*'', True)]))\<rparr>"

lemma demo_reach: "rreach 5 demo_rq demo_ev demo_state"
proof -
  have "rreach 5 demo_rq demo_ev demo_state1"
    unfolding demo_state1_def
    by (rule rreach.run [OF rreach.start rstep.miss]) (simp_all add: rsys_init_def cap_lookup_def)
  then have "rreach 5 demo_rq demo_ev demo_state2"
    unfolding demo_state2_def
    by (rule rreach.run [OF _ rstep.eval_ok]) (simp_all add: demo_state1_def demo_ev_def)
  then show ?thesis
    unfolding demo_state_def
    by (rule rreach.run [OF _ rstep.store]) (simp add: demo_state2_def)
qed

theorem resolver_isolation_witness:
  "case rs_pc demo_state 0 of
     Returned (Inr caps) \<Rightarrow>
       (\<exists>j. SubjectID (demo_rq j) = SubjectID (demo_rq 0) \<and>
            TenantID (demo_rq j) = TenantID (demo_rq 0) \<and>
            PartitionID (demo_rq j) = PartitionID (demo_rq 0) \<and> demo_ev (demo_rq j) (Inr caps))
   | Returned (Inl e) \<Rightarrow> demo_ev (demo_rq 0) (Inl e)
   | _ \<Rightarrow> True"
  by (rule resolver_isolation [OF demo_reach]) (simp add: demo_rq_def ctx_of_def plain_ids_def)

theorem resolver_returns_witness:
  "\<exists>n\<le>3. \<exists>s' ans. (rstep 5 demo_rq demo_ev ^^ n) (rsys_init 0) s' \<and> rs_pc s' 7 = Returned ans"
  using resolver_returns [of demo_ev demo_rq 7 "Inr [(''orders:*'', True)]" 5 "rsys_init 0"]
  by (simp add: demo_ev_def)

text \<open>Two requests with one context that have both missed and been evaluated; then \<open>j\<close> stores.\<close>

definition both_evaluated :: "nat \<Rightarrow> nat \<Rightarrow> capability_set \<Rightarrow> rsys" where
  "both_evaluated i j caps = (rsys_init 0)\<lparr>rs_pc := (\<lambda>_. AtCheck)(i := AtStore caps, j := AtStore caps)\<rparr>"

lemma both_evaluated_reach:
  assumes "i \<noteq> j" and "rq j = rq i" and "ev (rq i) (Inr caps)"
  shows "rreach ttl rq ev (both_evaluated i j caps)"
proof -
  define st where "st = (\<lambda>p q. (rsys_init 0)\<lparr>rs_pc := (\<lambda>_. AtCheck)(i := p, j := q)\<rparr>)"
  have pc: "rs_pc (st p q) i = p" "rs_pc (st p q) j = q" "rs_cache (st p q) = []" for p q
    using assms(1) by (simp_all add: st_def rsys_init_def)
  have move: "(st p q)\<lparr>rs_pc := (rs_pc (st p q))(i := p')\<rparr> = st p' q"
    "(st p q)\<lparr>rs_pc := (rs_pc (st p q))(j := q')\<rparr> = st p q'" for p q p' q'
    using assms(1) by (auto simp: st_def rsys_init_def fun_upd_def)
  have "st AtCheck AtCheck = rsys_init 0" by (auto simp: st_def rsys_init_def)
  then have "rreach ttl rq ev (st AtCheck AtCheck)" by (simp add: rreach.start)
  then have "rreach ttl rq ev (st AtEval AtCheck)"
    by (rule rreach.run) (rule rstep.miss [of "st AtCheck AtCheck" i, unfolded move], simp_all add: pc cap_lookup_def)
  then have "rreach ttl rq ev (st AtEval AtEval)"
    by (rule rreach.run) (rule rstep.miss [of "st AtEval AtCheck" j, unfolded move], simp_all add: pc cap_lookup_def)
  then have "rreach ttl rq ev (st (AtStore caps) AtEval)"
    by (rule rreach.run) (rule rstep.eval_ok [of "st AtEval AtEval" i, unfolded move], simp_all add: pc assms)
  then have "rreach ttl rq ev (st (AtStore caps) (AtStore caps))"
    by (rule rreach.run) (rule rstep.eval_ok [of "st (AtStore caps) AtEval" j, unfolded move], simp_all add: pc assms)
  then show ?thesis by (simp add: st_def both_evaluated_def)
qed

text \<open>
  C39. Invalidation does not reach a request in flight: with two concurrent requests of one caller, a
  reachable state serves the set that one of them stored; \<open>Invalidate\<close> for the caller removes it; and
  the other, evaluated before, then stores the old set again, which the next lookup serves.
\<close>

theorem invalidate_race:
  assumes "i \<noteq> j" and "rq j = rq i" and "ev (rq i) (Inr caps)" and "0 < ttl"
  shows "\<exists>s s1 s2. rreach ttl rq ev s \<and>
    cap_lookup (rs_clock s) (cap_cache_key (rq i)) (rs_cache s) = Some caps \<and>
    s1 = s\<lparr>rs_cache := invalidate_cache (SubjectID (rq i)) (TenantID (rq i)) (rs_cache s)\<rparr> \<and>
    rstep ttl rq ev s s1 \<and> cap_lookup (rs_clock s1) (cap_cache_key (rq i)) (rs_cache s1) = None \<and>
    rstep ttl rq ev s1 s2 \<and> cap_lookup (rs_clock s2) (cap_cache_key (rq i)) (rs_cache s2) = Some caps"
proof -
  let ?key = "cap_cache_key (rq i)"
  let ?b = "both_evaluated i j caps"
  define s where "s = ?b\<lparr>rs_cache := cap_store ttl (rs_clock ?b) (cap_cache_key (rq j)) caps (rs_cache ?b),
    rs_pc := (rs_pc ?b)(j := Returned (Inr caps))\<rparr>"
  define s1 where "s1 = s\<lparr>rs_cache := invalidate_cache (SubjectID (rq i)) (TenantID (rq i)) (rs_cache s)\<rparr>"
  define s2 where "s2 = s1\<lparr>rs_cache := cap_store ttl (rs_clock s1) ?key caps (rs_cache s1),
    rs_pc := (rs_pc s1)(i := Returned (Inr caps))\<rparr>"
  have "rstep ttl rq ev ?b s" unfolding s_def by (rule rstep.store) (simp add: both_evaluated_def)
  with both_evaluated_reach [where ev = ev and rq = rq, OF assms(1-3)] have reach: "rreach ttl rq ev s" by (rule rreach.run)
  have hit: "cap_lookup (rs_clock s) ?key (rs_cache s) = Some caps"
    using assms(2,4) by (simp add: s_def cap_lookup_store)
  have step1: "rstep ttl rq ev s s1" unfolding s1_def by (rule rstep.invalidate)
  have gone: "cap_lookup (rs_clock s1) ?key (rs_cache s1) = None"
    using assms(2) by (simp add: s1_def s_def both_evaluated_def rsys_init_def cap_store_def invalidate_cache_def
        Invalidate_def cap_lookup_def cap_cache_key_def Let_def)
  have "rs_pc s1 i = AtStore caps" using assms(1) by (simp add: s1_def s_def both_evaluated_def)
  then have step2: "rstep ttl rq ev s1 s2" unfolding s2_def by (rule rstep.store)
  have "cap_lookup (rs_clock s2) ?key (rs_cache s2) = Some caps"
    using assms(4) by (simp add: s2_def cap_lookup_store)
  with reach hit step1 gone step2 show ?thesis unfolding s1_def by blast
qed

theorem invalidate_race_witness:
  "\<exists>s s1 s2. rreach 5 demo_rq demo_ev s \<and>
    cap_lookup (rs_clock s) ''alice:acme:root'' (rs_cache s) = Some [(''orders:*'', True)] \<and>
    s1 = s\<lparr>rs_cache := invalidate_cache ''alice'' ''acme'' (rs_cache s)\<rparr> \<and>
    rstep 5 demo_rq demo_ev s s1 \<and> cap_lookup (rs_clock s1) ''alice:acme:root'' (rs_cache s1) = None \<and>
    rstep 5 demo_rq demo_ev s1 s2 \<and>
    cap_lookup (rs_clock s2) ''alice:acme:root'' (rs_cache s2) = Some [(''orders:*'', True)]"
  using invalidate_race [of 0 1 demo_rq demo_ev "[(''orders:*'', True)]" 5]
  by (simp add: demo_rq_def demo_ev_def ctx_of_def cap_cache_key_def)

end
