(* ===== verification/Definitions.thy ===== *)
theory Definitions imports Model begin

section \<open>The definition tree (model/definition.go)\<close>

text \<open>
  One record per struct of definition.go, in dependency order. A domain definition is what one
  YAML file decodes to: navigation, pages, forms, commands, searches and lookups.
\<close>

record badge_definition =
  bd_operation_id :: string
  bd_field :: string
  bd_style :: string

record nav_child_definition =
  nc_label :: string
  nc_icon :: string
  nc_route :: string
  nc_page_id :: string
  nc_capabilities :: "string list"
  nc_order :: int
  nc_badge :: "badge_definition option"

record navigation_definition =
  nd_label :: string
  nd_icon :: string
  nd_order :: int
  nd_capabilities :: "string list"
  nd_children :: "nav_child_definition list"

record breadcrumb_item =
  bc_label :: string
  bc_route :: string

record response_mapping_definition =
  rm_items_path :: string
  rm_total_path :: string
  rm_field_map :: "string gomap"

record data_source_definition =
  ds_operation_id :: string
  ds_service_id :: string
  ds_handler :: string
  ds_mapping :: response_mapping_definition

record link_definition =
  lk_route :: string
  lk_params :: "string gomap"

record column_definition =
  cd_field :: string
  cd_label :: string
  cd_type :: string
  cd_sortable :: bool
  cd_filterable :: bool
  cd_visible :: string
  cd_format :: string
  cd_width :: string
  cd_link :: "link_definition option"
  cd_status_map :: "string gomap"

record static_option =
  so_label :: string
  so_value :: string

record filter_options_definition =
  fo_lookup_id :: string
  fo_static :: "static_option list"

record filter_definition =
  fl_field :: string
  fl_label :: string
  fl_type :: string
  fl_operator :: string
  fl_options :: "filter_options_definition option"
  fl_default :: string

record confirmation_definition =
  cf_title :: string
  cf_message :: string
  cf_confirm :: string
  cf_cancel :: string
  cf_style :: string

record condition_definition =
  cn_field :: string
  cn_operator :: string
  cn_value :: gany
  cn_effect :: string

record action_definition =
  ad_id :: string
  ad_label :: string
  ad_icon :: string
  ad_style :: string
  ad_capabilities :: "string list"
  ad_type :: string
  ad_command_id :: string
  ad_navigate_to :: string
  ad_form_id :: string
  ad_confirmation :: "confirmation_definition option"
  ad_conditions :: "condition_definition list"
  ad_params :: "string gomap"

record table_definition =
  td_data_source :: data_source_definition
  td_columns :: "column_definition list"
  td_filters :: "filter_definition list"
  td_row_actions :: "action_definition list"
  td_bulk_actions :: "action_definition list"
  td_default_sort :: string
  td_sort_dir :: string
  td_page_size :: int
  td_selectable :: bool

record validation_definition =
  vd_min_length :: "int option"
  vd_max_length :: "int option"
  vd_min :: "rat option"
  vd_max :: "rat option"
  vd_pattern :: string
  vd_message :: string

record lookup_ref_definition =
  lr_lookup_id :: string
  lr_static :: "static_option list"

record field_dependency =
  fd_field :: string
  fd_condition :: string
  fd_value :: string

record field_definition =
  fi_field :: string
  fi_label :: string
  fi_type :: string
  fi_read_only :: string
  fi_required :: bool
  fi_validation :: "validation_definition option"
  fi_lookup :: "lookup_ref_definition option"
  fi_visibility :: string
  fi_format :: string
  fi_placeholder :: string
  fi_help_text :: string
  fi_span :: int
  fi_depends_on :: "field_dependency list"

record section_definition =
  sd_id :: string
  sd_title :: string
  sd_layout :: string
  sd_columns :: int
  sd_capabilities :: "string list"
  sd_collapsible :: bool
  sd_collapsed :: bool
  sd_fields :: "field_definition list"

record page_definition =
  pd_id :: string
  pd_title :: string
  pd_route :: string
  pd_layout :: string
  pd_capabilities :: "string list"
  pd_refresh_interval :: int
  pd_breadcrumb :: "breadcrumb_item list"
  pd_table :: "table_definition option"
  pd_sections :: "section_definition list"
  pd_actions :: "action_definition list"

record form_definition =
  fm_id :: string
  fm_title :: string
  fm_capabilities :: "string list"
  fm_submit_command :: string
  fm_load_source :: "data_source_definition option"
  fm_success_route :: string
  fm_success_message :: string
  fm_sections :: "section_definition list"

record input_mapping =
  im_path_params :: "string gomap"
  im_query_params :: "string gomap"
  im_header_params :: "string gomap"
  im_body_mapping :: string
  im_body_template :: "string gomap"
  im_field_projection :: "string gomap"

record output_mapping =
  om_type :: string
  om_fields :: "string gomap"
  om_error_map :: "string gomap"
  om_success_message :: string

record idempotency_config =
  id_key_source :: string
  id_ttl :: string

record command_definition =
  cm_id :: string
  cm_capabilities :: "string list"
  cm_operation :: operation_binding
  cm_input :: input_mapping
  cm_output :: output_mapping
  cm_idempotency :: "idempotency_config option"

record search_result_mapping =
  sm_items_path :: string
  sm_title_field :: string
  sm_subtitle_field :: string
  sm_category_field :: string
  sm_icon_field :: string
  sm_route :: string
  sm_id_field :: string

record search_definition =
  se_id :: string
  se_domain :: string
  se_capabilities :: "string list"
  se_operation :: operation_binding
  se_result_mapping :: search_result_mapping
  se_weight :: int
  se_max_results :: int

record cache_config =
  cc_ttl :: string
  cc_scope :: string

record lookup_definition =
  lu_id :: string
  lu_operation :: operation_binding
  lu_label_field :: string
  lu_value_field :: string
  lu_search_field :: string
  lu_cache :: "cache_config option"

record domain_definition =
  dd_domain :: string
  dd_version :: string
  dd_navigation :: navigation_definition
  dd_pages :: "page_definition list"
  dd_forms :: "form_definition list"
  dd_commands :: "command_definition list"
  dd_searches :: "search_definition list"
  dd_lookups :: "lookup_definition list"
  dd_checksum :: string
  dd_source_file :: string

end
