(* ===== verification/Descriptors.thy ===== *)
theory Descriptors imports Definitions begin

section \<open>What the frontend receives (model/descriptor.go)\<close>

text \<open>
  One record per descriptor struct; the recursive navigation node is a datatype. Field names carry
  a prefix per struct, as in Definitions. A JSON slice that may be omitted is a list.
\<close>

record badge_descriptor =
  bx_count :: int
  bx_style :: string

datatype navigation_node =
  NavigationNode (nn_id: string) (nn_label: string) (nn_icon: string) (nn_path: string)
    (nn_page_id: string) (nn_children: "navigation_node list") (nn_badge: "badge_descriptor option")

record navigation_tree =
  nt_items :: "navigation_node list"

record breadcrumb_descriptor =
  bb_label :: string
  bb_route :: string

record confirmation_descriptor =
  cx_title :: string
  cx_message :: string
  cx_confirm :: string
  cx_cancel :: string
  cx_style :: string

record condition_descriptor =
  dx_field :: string
  dx_operator :: string
  dx_value :: gany
  dx_effect :: string

record action_descriptor =
  ax_id :: string
  ax_label :: string
  ax_icon :: string
  ax_style :: string
  ax_type :: string
  ax_enabled :: bool
  ax_visible :: bool
  ax_command_id :: string
  ax_navigate_to :: string
  ax_form_id :: string
  ax_confirmation :: "confirmation_descriptor option"
  ax_conditions :: "condition_descriptor list"
  ax_params :: "string gomap"

record link_descriptor =
  lx_route :: string
  lx_params :: "string gomap"

record column_descriptor =
  ox_field :: string
  ox_label :: string
  ox_type :: string
  ox_sortable :: bool
  ox_format :: string
  ox_width :: string
  ox_link :: "link_descriptor option"
  ox_status_map :: "string gomap"

record option_descriptor =
  op_label :: string
  op_value :: string
  op_icon :: string

record filter_descriptor =
  fx_field :: string
  fx_label :: string
  fx_type :: string
  fx_operator :: string
  fx_options :: "option_descriptor list"
  fx_default :: gany

record table_descriptor =
  tx_columns :: "column_descriptor list"
  tx_filters :: "filter_descriptor list"
  tx_row_actions :: "action_descriptor list"
  tx_bulk_actions :: "action_descriptor list"
  tx_data_endpoint :: string
  tx_default_sort :: string
  tx_sort_dir :: string
  tx_page_size :: int
  tx_selectable :: bool

record validation_descriptor =
  vx_min_length :: "int option"
  vx_max_length :: "int option"
  vx_min :: "rat option"
  vx_max :: "rat option"
  vx_pattern :: string
  vx_message :: string

record dependency_descriptor =
  yx_field :: string
  yx_condition :: string
  yx_value :: string

record field_descriptor =
  ux_field :: string
  ux_label :: string
  ux_type :: string
  ux_read_only :: bool
  ux_required :: bool
  ux_validation :: "validation_descriptor option"
  ux_options :: "option_descriptor list"
  ux_format :: string
  ux_placeholder :: string
  ux_help_text :: string
  ux_span :: int
  ux_value :: gany
  ux_depends_on :: "dependency_descriptor list"

record section_descriptor =
  sx_id :: string
  sx_title :: string
  sx_layout :: string
  sx_columns :: int
  sx_collapsible :: bool
  sx_collapsed :: bool
  sx_fields :: "field_descriptor list"

record page_descriptor =
  px_id :: string
  px_title :: string
  px_route :: string
  px_layout :: string
  px_refresh_interval :: int
  px_breadcrumb :: "breadcrumb_descriptor list"
  px_table :: "table_descriptor option"
  px_sections :: "section_descriptor list"
  px_actions :: "action_descriptor list"

record form_descriptor =
  mx_id :: string
  mx_title :: string
  mx_sections :: "section_descriptor list"
  mx_actions :: "action_descriptor list"
  mx_submit_endpoint :: string
  mx_success_route :: string
  mx_success_message :: string

record data_payload =
  pl_items :: "gany gomap list"
  pl_total_count :: int
  pl_page :: int
  pl_page_size :: int

record data_response =
  dr_data :: data_payload
  dr_meta :: "gany gomap option"

record search_result =
  rx_id :: string
  rx_title :: string
  rx_subtitle :: string
  rx_category :: string
  rx_icon :: string
  rx_route :: string
  rx_score :: rat

record search_payload =
  sy_results :: "search_result list"
  sy_total_count :: int
  sy_query :: string

record search_response =
  sq_data :: search_payload
  sq_meta :: "gany gomap option"

record lookup_response =
  ly_options :: "option_descriptor list"
  ly_meta :: "gany gomap option"

end
