(* ===== verification/Registry.thy ===== *)
theory Registry imports Definitions "HOL-Library.Multiset" begin

section \<open>Loading definitions and the registry (pkg/definition/loader.go, registry.go)\<close>

text \<open>
  The loader walks directories and decodes YAML files; the walk of the file system, reading a
  file, the YAML decoder and the hexadecimal SHA-256 are the arguments \<open>walk\<close>, \<open>read_file\<close>,
  \<open>unmarshal\<close> and \<open>sha\<close>. The registry is the snapshot behind the atomic pointer: \<open>Replace\<close>
  builds a new one from a list of domain definitions, and the getters read it.
\<close>

subsection \<open>Loader\<close>

text \<open>\<open>filepath.Ext\<close>: from the last dot of the last path element on.\<close>

fun ext_scan :: "string \<Rightarrow> string \<Rightarrow> string" where
  "ext_scan acc [] = []"
| "ext_scan acc (c # rcs) =
     (if c = CHR ''/'' then []
      else if c = CHR ''.'' then c # acc
      else ext_scan (c # acc) rcs)"

definition filepath_ext :: "string \<Rightarrow> string" where
  "filepath_ext path = ext_scan [] (rev path)"

record walk_entry =
  we_path :: string
  we_is_dir :: bool
  we_err :: "go_error option"

definition LoadFile ::
  "(string \<Rightarrow> string) \<Rightarrow> (string \<Rightarrow> go_error + string) \<Rightarrow> (string \<Rightarrow> go_error + domain_definition) \<Rightarrow>
   string \<Rightarrow> go_error + domain_definition" where
  "LoadFile sha read_file unmarshal path =
     (case read_file path of
        Inl err \<Rightarrow> Inl (Wrap (''reading '' @ path @ '': '' @ error_message err) err)
      | Inr data \<Rightarrow>
          (case unmarshal data of
             Inl err \<Rightarrow> Inl (Wrap (''parsing '' @ path @ '': '' @ error_message err) err)
           | Inr def \<Rightarrow> Inr (def\<lparr>dd_checksum := sha data, dd_source_file := path\<rparr>)))"

text \<open>One call of the walk's callback: nothing, one definition, or an error.\<close>

definition visit_entry ::
  "golib \<Rightarrow> (string \<Rightarrow> go_error + domain_definition) \<Rightarrow> walk_entry \<Rightarrow>
   go_error + domain_definition list" where
  "visit_entry L load_file d =
     (case we_err d of
        Some err \<Rightarrow> Inl err
      | None \<Rightarrow>
          if we_is_dir d then Inr []
          else
            (let ext = to_lower L (filepath_ext (we_path d)) in
             if ext \<noteq> ''.yaml'' \<and> ext \<noteq> ''.yml'' then Inr []
             else (case load_file (we_path d) of
                     Inl err \<Rightarrow>
                       Inl (Wrap (''loading '' @ we_path d @ '': '' @ error_message err) err)
                   | Inr def \<Rightarrow> Inr [def])))"

definition load_dir ::
  "golib \<Rightarrow> (string \<Rightarrow> walk_entry list) \<Rightarrow> (string \<Rightarrow> go_error + domain_definition) \<Rightarrow> string \<Rightarrow>
   go_error + domain_definition list" where
  "load_dir L walk load_file dir =
     (case map_result (visit_entry L load_file) (walk dir) of
        Inl err \<Rightarrow>
          Inl (Wrap (''scanning directory '' @ dir @ '': '' @ error_message err) err)
      | Inr dss \<Rightarrow> Inr (concat dss))"

definition LoadAll ::
  "golib \<Rightarrow> (string \<Rightarrow> walk_entry list) \<Rightarrow> (string \<Rightarrow> go_error + domain_definition) \<Rightarrow>
   string list \<Rightarrow> go_error + domain_definition list" where
  "LoadAll L walk load_file directories =
     bind_result (map_result (load_dir L walk load_file) directories) (\<lambda>dss. Inr (concat dss))"

subsection \<open>Registry\<close>

record snapshot =
  snap_domains :: "domain_definition gomap"
  snap_pages :: "page_definition gomap"
  snap_forms :: "form_definition gomap"
  snap_commands :: "command_definition gomap"
  snap_searches :: "search_definition gomap"
  snap_lookups :: "lookup_definition gomap"
  snap_checksum :: string

text \<open>The inner loops of \<open>Replace\<close>: every element is stored under its id, later ones win.\<close>

fun put_all :: "('a \<Rightarrow> string) \<Rightarrow> 'a list \<Rightarrow> 'a gomap \<Rightarrow> 'a gomap" where
  "put_all ident [] m = m"
| "put_all ident (x # xs) m = put_all ident xs (gput (ident x) x m)"

fun add_domains :: "domain_definition list \<Rightarrow> snapshot \<Rightarrow> snapshot" where
  "add_domains [] s = s"
| "add_domains (def # defs) s =
     add_domains defs
       (s\<lparr>snap_domains := gput (dd_domain def) def (snap_domains s),
          snap_pages := put_all pd_id (dd_pages def) (snap_pages s),
          snap_forms := put_all fm_id (dd_forms def) (snap_forms s),
          snap_commands := put_all cm_id (dd_commands def) (snap_commands s),
          snap_searches := put_all se_id (dd_searches def) (snap_searches s),
          snap_lookups := put_all lu_id (dd_lookups def) (snap_lookups s)\<rparr>)"

definition empty_snapshot :: snapshot where
  "empty_snapshot =
     \<lparr>snap_domains = [], snap_pages = [], snap_forms = [], snap_commands = [],
      snap_searches = [], snap_lookups = [], snap_checksum = []\<rparr>"

definition combined_checksum :: "(string \<Rightarrow> string) \<Rightarrow> domain_definition list \<Rightarrow> string" where
  "combined_checksum sha defs = sha (join '':'' (sort (List.map dd_checksum defs)))"

definition Replace :: "(string \<Rightarrow> string) \<Rightarrow> domain_definition list \<Rightarrow> snapshot" where
  "Replace sha defs =
     (add_domains defs empty_snapshot)\<lparr>snap_checksum := combined_checksum sha defs\<rparr>"

definition GetDomain :: "snapshot \<Rightarrow> string \<Rightarrow> domain_definition option" where
  "GetDomain r domainID = gget (snap_domains r) domainID"
definition GetPageDef :: "snapshot \<Rightarrow> string \<Rightarrow> page_definition option" where
  "GetPageDef r pageID = gget (snap_pages r) pageID"
definition GetFormDef :: "snapshot \<Rightarrow> string \<Rightarrow> form_definition option" where
  "GetFormDef r formID = gget (snap_forms r) formID"
definition GetCommand :: "snapshot \<Rightarrow> string \<Rightarrow> command_definition option" where
  "GetCommand r commandID = gget (snap_commands r) commandID"
definition GetSearch :: "snapshot \<Rightarrow> string \<Rightarrow> search_definition option" where
  "GetSearch r searchID = gget (snap_searches r) searchID"
definition GetLookupDef :: "snapshot \<Rightarrow> string \<Rightarrow> lookup_definition option" where
  "GetLookupDef r lookupID = gget (snap_lookups r) lookupID"
definition AllDomains :: "snapshot \<Rightarrow> domain_definition list" where
  "AllDomains r = List.map snd (snap_domains r)"
definition AllSearches :: "snapshot \<Rightarrow> search_definition list" where
  "AllSearches r = List.map snd (snap_searches r)"
definition Checksum :: "snapshot \<Rightarrow> string" where
  "Checksum r = snap_checksum r"

lemmas registry_get_defs =
  GetDomain_def GetPageDef_def GetFormDef_def GetCommand_def GetSearch_def GetLookupDef_def

subsection \<open>The interface of a keyed store\<close>

text \<open>
  What the registry promises to its clients, for each of its six kinds of definition: the last
  element with an id is the one found, and nothing is found under an id no element has.
\<close>

locale last_wins_store =
  fixes ident :: "'a \<Rightarrow> string"
    and items :: "'d list \<Rightarrow> 'a list"
    and lookup :: "'d list \<Rightarrow> string \<Rightarrow> 'a option"
  assumes lookup_last: "lookup ds k = List.find (\<lambda>x. ident x = k) (rev (items ds))"
begin

lemma lookup_ident: "lookup ds k = Some x \<Longrightarrow> ident x = k"
  unfolding lookup_last by (auto simp: find_Some_first)

lemma lookup_member: "lookup ds k = Some x \<Longrightarrow> x \<in> set (items ds)"
proof -
  assume "lookup ds k = Some x"
  then obtain ys zs where "rev (items ds) = ys @ x # zs"
    unfolding lookup_last find_Some_first by blast
  then have "x \<in> set (rev (items ds))" by simp
  then show ?thesis by simp
qed

lemma lookup_None_iff: "lookup ds k = None \<longleftrightarrow> k \<notin> ident ` set (items ds)"
  unfolding lookup_last by (auto simp: find_None_iff)

lemma lookup_unique:
  assumes "distinct (List.map ident (items ds))" and "x \<in> set (items ds)"
  shows "lookup ds (ident x) = Some x"
proof -
  have "lookup ds (ident x) \<noteq> None" using assms(2) by (auto simp: lookup_None_iff)
  then obtain y where y: "lookup ds (ident x) = Some y" by blast
  have "y = x"
    using assms lookup_ident [OF y] lookup_member [OF y] by (auto simp: distinct_map inj_on_def)
  with y show ?thesis by simp
qed

end

lemma put_all_get:
  "gget (put_all ident xs m) k =
     (case List.find (\<lambda>x. ident x = k) (rev xs) of None \<Rightarrow> gget m k | Some x \<Rightarrow> Some x)"
proof (induction xs arbitrary: m)
  case Nil
  show ?case by simp
next
  case (Cons x xs)
  have app: "List.find P (ys @ [y]) =
      (case List.find P ys of None \<Rightarrow> if P y then Some y else None | Some z \<Rightarrow> Some z)"
    for P :: "'a \<Rightarrow> bool" and ys y
    by (induction ys) auto
  show ?case using Cons by (auto simp: app gget_gput split: option.splits)
qed

lemma put_all_ok: "gmap_ok m \<Longrightarrow> gmap_ok (put_all ident xs m)"
  by (induction xs arbitrary: m) (auto simp: distinct_update)

lemma put_all_append: "put_all ident (xs @ ys) m = put_all ident ys (put_all ident xs m)"
  by (induction xs arbitrary: m) auto

lemma add_domains_fields:
  "snap_domains (add_domains defs s) = put_all dd_domain defs (snap_domains s)"
  "snap_pages (add_domains defs s) = put_all pd_id (concat (List.map dd_pages defs)) (snap_pages s)"
  "snap_forms (add_domains defs s) = put_all fm_id (concat (List.map dd_forms defs)) (snap_forms s)"
  "snap_commands (add_domains defs s) =
     put_all cm_id (concat (List.map dd_commands defs)) (snap_commands s)"
  "snap_searches (add_domains defs s) =
     put_all se_id (concat (List.map dd_searches defs)) (snap_searches s)"
  "snap_lookups (add_domains defs s) =
     put_all lu_id (concat (List.map dd_lookups defs)) (snap_lookups s)"
  by (induction defs arbitrary: s) (auto simp: put_all_append)

lemma Replace_fields:
  "snap_domains (Replace sha defs) = put_all dd_domain defs []"
  "snap_pages (Replace sha defs) = put_all pd_id (concat (List.map dd_pages defs)) []"
  "snap_forms (Replace sha defs) = put_all fm_id (concat (List.map dd_forms defs)) []"
  "snap_commands (Replace sha defs) = put_all cm_id (concat (List.map dd_commands defs)) []"
  "snap_searches (Replace sha defs) = put_all se_id (concat (List.map dd_searches defs)) []"
  "snap_lookups (Replace sha defs) = put_all lu_id (concat (List.map dd_lookups defs)) []"
  by (simp_all add: Replace_def empty_snapshot_def add_domains_fields)

lemma put_all_find:
  "gget (put_all ident xs []) k = List.find (\<lambda>x. ident x = k) (rev xs)"
  by (simp add: put_all_get split: option.splits)

interpretation domains: last_wins_store dd_domain "\<lambda>ds. ds" "\<lambda>ds. GetDomain (Replace sha ds)"
  for sha by unfold_locales (simp add: GetDomain_def Replace_fields put_all_find)

interpretation pages: last_wins_store pd_id "\<lambda>ds. concat (List.map dd_pages ds)"
  "\<lambda>ds. GetPageDef (Replace sha ds)"
  for sha by unfold_locales (simp add: GetPageDef_def Replace_fields put_all_find)

interpretation forms: last_wins_store fm_id "\<lambda>ds. concat (List.map dd_forms ds)"
  "\<lambda>ds. GetFormDef (Replace sha ds)"
  for sha by unfold_locales (simp add: GetFormDef_def Replace_fields put_all_find)

interpretation commands: last_wins_store cm_id "\<lambda>ds. concat (List.map dd_commands ds)"
  "\<lambda>ds. GetCommand (Replace sha ds)"
  for sha by unfold_locales (simp add: GetCommand_def Replace_fields put_all_find)

interpretation searches: last_wins_store se_id "\<lambda>ds. concat (List.map dd_searches ds)"
  "\<lambda>ds. GetSearch (Replace sha ds)"
  for sha by unfold_locales (simp add: GetSearch_def Replace_fields put_all_find)

interpretation lookups: last_wins_store lu_id "\<lambda>ds. concat (List.map dd_lookups ds)"
  "\<lambda>ds. GetLookupDef (Replace sha ds)"
  for sha by unfold_locales (simp add: GetLookupDef_def Replace_fields put_all_find)

text \<open>A snapshot whose maps have distinct keys that are the ids of what they hold.\<close>

definition keyed :: "('a \<Rightarrow> string) \<Rightarrow> 'a gomap \<Rightarrow> bool" where
  "keyed ident m \<longleftrightarrow> gmap_ok m \<and> (\<forall>(k, x)\<in>set m. ident x = k)"

definition snapshot_ok :: "snapshot \<Rightarrow> bool" where
  "snapshot_ok s \<longleftrightarrow>
     keyed dd_domain (snap_domains s) \<and> keyed pd_id (snap_pages s) \<and> keyed fm_id (snap_forms s) \<and>
     keyed cm_id (snap_commands s) \<and> keyed se_id (snap_searches s) \<and> keyed lu_id (snap_lookups s)"

lemma keyed_gput: "keyed ident m \<Longrightarrow> keyed ident (gput (ident x) x m)"
proof -
  assume m: "keyed ident m"
  have "(k, e) \<in> set (gput (ident x) x m) \<Longrightarrow> ident e = k" for k e
    using m by (induction m) (auto simp: keyed_def split: if_splits)
  with m show ?thesis by (auto simp: keyed_def distinct_update)
qed

lemma keyed_put_all: "keyed ident m \<Longrightarrow> keyed ident (put_all ident xs m)"
  by (induction xs arbitrary: m) (auto intro: keyed_gput)

lemma keyed_Nil: "keyed ident []"
  by (simp add: keyed_def)

lemma snapshot_ok_Replace: "snapshot_ok (Replace sha defs)"
  unfolding snapshot_ok_def Replace_fields by (intro conjI keyed_put_all keyed_Nil)

lemma keyed_get: "keyed ident m \<Longrightarrow> gget m k = Some x \<Longrightarrow> ident x = k"
  by (auto simp: keyed_def dest: map_of_SomeD)

lemma AllDomains_Get:
  "snapshot_ok s \<Longrightarrow> d \<in> set (AllDomains s) \<longleftrightarrow> GetDomain s (dd_domain d) = Some d"
  by (auto simp: snapshot_ok_def keyed_def AllDomains_def GetDomain_def map_of_eq_Some_iff
      intro: rev_image_eqI)

lemma length_AllDomains:
  "snapshot_ok s \<Longrightarrow> distinct (List.map dd_domain (AllDomains s))"
proof -
  assume "snapshot_ok s"
  then have "gmap_ok (snap_domains s)" and "List.map dd_domain (AllDomains s) = gkeys (snap_domains s)"
    by (auto simp: snapshot_ok_def keyed_def AllDomains_def)
  then show ?thesis by simp
qed


subsection \<open>Properties\<close>

text \<open>All that a client of the registry can observe, apart from the order of a range.\<close>

definition same_answers :: "snapshot \<Rightarrow> snapshot \<Rightarrow> bool" where
  "same_answers r r' \<longleftrightarrow>
     GetDomain r = GetDomain r' \<and> GetPageDef r = GetPageDef r' \<and> GetFormDef r = GetFormDef r' \<and>
     GetCommand r = GetCommand r' \<and> GetSearch r = GetSearch r' \<and> GetLookupDef r = GetLookupDef r' \<and>
     Checksum r = Checksum r'"

definition ids_distinct :: "domain_definition list \<Rightarrow> bool" where
  "ids_distinct defs \<longleftrightarrow>
     distinct (List.map dd_domain defs) \<and>
     distinct (List.map pd_id (concat (List.map dd_pages defs))) \<and>
     distinct (List.map fm_id (concat (List.map dd_forms defs))) \<and>
     distinct (List.map cm_id (concat (List.map dd_commands defs))) \<and>
     distinct (List.map se_id (concat (List.map dd_searches defs))) \<and>
     distinct (List.map lu_id (concat (List.map dd_lookups defs)))"

lemma mset_concat_map:
  "mset xs = mset ys \<Longrightarrow> mset (concat (List.map f xs)) = mset (concat (List.map f ys))"
  by (metis mset_concat mset_map sum_mset_sum_list)

lemma find_perm:
  assumes "mset xs = mset ys" and "distinct (List.map ident xs)"
  shows "List.find (\<lambda>x. ident x = k) (rev xs) = List.find (\<lambda>x. ident x = k) (rev ys)"
proof -
  have dy: "distinct (List.map ident ys)"
    using assms by (metis mset_eq_imp_distinct_iff mset_map)
  have sets: "set xs = set ys" using assms(1) by (rule mset_eq_setD)
  have eq: "List.find (\<lambda>x. ident x = k) (rev zs) = Some x \<longleftrightarrow> x \<in> set zs \<and> ident x = k"
    if d: "distinct (List.map ident zs)" for zs x
  proof
    assume "List.find (\<lambda>x. ident x = k) (rev zs) = Some x"
    then obtain us vs where "rev zs = us @ x # vs" and "ident x = k"
      unfolding find_Some_first by blast
    then have "x \<in> set (rev zs)" and "ident x = k" by auto
    then show "x \<in> set zs \<and> ident x = k" by simp
  next
    assume x: "x \<in> set zs \<and> ident x = k"
    then have "List.find (\<lambda>x. ident x = k) (rev zs) \<noteq> None" by (auto simp: find_None_iff)
    then obtain y where y: "List.find (\<lambda>x. ident x = k) (rev zs) = Some y" by blast
    then obtain us vs where "rev zs = us @ y # vs" and iy: "ident y = k"
      unfolding find_Some_first by blast
    then have "y \<in> set (rev zs)" by simp
    with x iy d have "y = x" by (auto simp: distinct_map inj_on_def)
    with y show "List.find (\<lambda>x. ident x = k) (rev zs) = Some x" by simp
  qed
  show ?thesis
    using eq [OF assms(2)] eq [OF dy] sets by (metis option.exhaust)
qed

text \<open>
  C29. Reloading the same definitions in any order gives a registry that answers every query and
  reports the checksum as before, provided no id is used twice.
\<close>

theorem registry_order_irrelevant:
  assumes "mset defs = mset defs'" and "ids_distinct defs"
  shows "same_answers (Replace sha defs) (Replace sha defs')"
proof -
  note perm = mset_concat_map [OF assms(1)]
  have "Checksum (Replace sha defs) = Checksum (Replace sha defs')"
    using assms(1) by (simp add: Checksum_def Replace_def combined_checksum_def)
      (metis mset_map properties_for_sort mset_sort sorted_sort)
  then show ?thesis
    using assms perm [of dd_pages] perm [of dd_forms] perm [of dd_commands] perm [of dd_searches]
      perm [of dd_lookups]
    unfolding same_answers_def ids_distinct_def
    by (auto simp: fun_eq_iff domains.lookup_last pages.lookup_last forms.lookup_last
        commands.lookup_last searches.lookup_last lookups.lookup_last intro: find_perm)
qed

definition empty_domain :: "string \<Rightarrow> domain_definition" where
  "empty_domain name =
     \<lparr>dd_domain = name, dd_version = ''1'',
      dd_navigation = \<lparr>nd_label = name, nd_icon = [], nd_order = 0, nd_capabilities = [],
        nd_children = []\<rparr>,
      dd_pages = [], dd_forms = [], dd_commands = [], dd_searches = [], dd_lookups = [],
      dd_checksum = name, dd_source_file = []\<rparr>"

theorem registry_order_irrelevant_witness:
  "same_answers (Replace (\<lambda>d. d) [empty_domain ''a'', empty_domain ''b''])
     (Replace (\<lambda>d. d) [empty_domain ''b'', empty_domain ''a''])"
  by (rule registry_order_irrelevant) (simp_all add: ids_distinct_def empty_domain_def)

text \<open>What the loader takes for a definition file.\<close>

definition is_yaml_file :: "golib \<Rightarrow> walk_entry \<Rightarrow> bool" where
  "is_yaml_file L d \<longleftrightarrow> \<not> we_is_dir d \<and>
     to_lower L (filepath_ext (we_path d)) \<in> {''.yaml'', ''.yml''}"

lemma LoadFile_source: "LoadFile sha rf um path = Inr def \<Longrightarrow> dd_source_file def = path"
  by (auto simp: LoadFile_def split: sum.splits)

lemma visit_entry_source:
  assumes "visit_entry L (LoadFile sha rf um) d = Inr defs"
  shows "List.map dd_source_file defs = (if is_yaml_file L d then [we_path d] else [])"
  using assms
  by (auto simp: visit_entry_def is_yaml_file_def Let_def LoadFile_source
      split: option.splits if_splits sum.splits)

lemma map_result_concat:
  assumes "\<And>x ys. f x = Inr ys \<Longrightarrow> List.map g ys = h x"
  shows "map_result f xs = Inr yss \<Longrightarrow> List.map g (concat yss) = concat (List.map h xs)"
  by (induction xs arbitrary: yss) (auto simp: assms split: sum.splits)

lemma load_dir_source:
  assumes "load_dir L walk (LoadFile sha rf um) dir = Inr defs"
  shows "List.map dd_source_file defs = List.map we_path (filter (is_yaml_file L) (walk dir))"
proof -
  have flt: "concat (List.map (\<lambda>d. if P d then [f d] else []) xs) = List.map f (filter P xs)"
    for P and f :: "walk_entry \<Rightarrow> string" and xs
    by (induction xs) auto
  from assms obtain dss where *: "map_result (visit_entry L (LoadFile sha rf um)) (walk dir) = Inr dss"
    and "defs = concat dss"
    by (auto simp: load_dir_def split: sum.splits)
  moreover have "List.map dd_source_file (concat dss) =
      concat (List.map (\<lambda>d. if is_yaml_file L d then [we_path d] else []) (walk dir))"
    by (rule map_result_concat [OF _ *]) (rule visit_entry_source)
  ultimately show ?thesis by (simp only: flt)
qed

text \<open>
  A load that succeeds has read exactly the YAML files of the walk: the definitions come in
  walk order, one for each file with the extension yaml or yml in any case, none skipped and none
  twice, whatever the file system, the reader and the decoder do.
\<close>

theorem load_all_files:
  assumes "LoadAll L walk (LoadFile sha read_file unmarshal) dirs = Inr defs"
  shows "List.map dd_source_file defs =
    concat (List.map (\<lambda>dir. List.map we_path (filter (is_yaml_file L) (walk dir))) dirs)"
proof -
  from assms obtain dss where
    *: "map_result (load_dir L walk (LoadFile sha read_file unmarshal)) dirs = Inr dss"
    and "defs = concat dss"
    by (auto simp: LoadAll_def bind_result_def split: sum.splits)
  moreover have "List.map dd_source_file (concat dss) =
      concat (List.map (\<lambda>dir. List.map we_path (filter (is_yaml_file L) (walk dir))) dirs)"
    by (rule map_result_concat [OF _ *]) (rule load_dir_source)
  ultimately show ?thesis by simp
qed

theorem load_all_files_witness:
  "List.map dd_source_file [(empty_domain ''x'')\<lparr>dd_checksum := ''sum'', dd_source_file := ''d/a.YML''\<rparr>] =
    concat (List.map (\<lambda>dir. List.map we_path (filter (is_yaml_file demo_lib)
      ((\<lambda>_. [\<lparr>we_path = ''d'', we_is_dir = True, we_err = None\<rparr>,
            \<lparr>we_path = ''d/a.YML'', we_is_dir = False, we_err = None\<rparr>,
            \<lparr>we_path = ''d/readme.md'', we_is_dir = False, we_err = None\<rparr>]) dir))) [''d''])"
  by (rule load_all_files [where sha = "\<lambda>_. ''sum''" and read_file = "\<lambda>_. Inr ''bytes''"
        and unmarshal = "\<lambda>_. Inr (empty_domain ''x'')"])
     (simp add: LoadAll_def load_dir_def visit_entry_def LoadFile_def bind_result_def filepath_ext_def
        to_lower_def is_ascii_def lower_char_def Let_def empty_domain_def char_of_eq_iff)

end
