(* ===== verification/Actions.thy ===== *)
theory Actions imports Descriptors Capability begin

section \<open>Actions (pkg/metadata/action.go)\<close>

text \<open>
  \<open>ResolveActions\<close> drops the actions the caller lacks capabilities for, evaluates the conditions
  it can decide on the data it has, and passes the others on.
\<close>

text \<open>\<open>trimSpace\<close> of action.go: only the space character.\<close>

definition trim_blanks :: "string \<Rightarrow> string" where
  "trim_blanks s =
     rev (dropWhile (\<lambda>c. c = CHR '' '') (rev (dropWhile (\<lambda>c. c = CHR '' '') s)))"

definition splitComma :: "string \<Rightarrow> string list" where
  "splitComma s =
     (if s = [] then []
      else filter (\<lambda>part. part \<noteq> []) (List.map trim_blanks (split_on CHR '','' s)))"

fun any_equal :: "string \<Rightarrow> string list \<Rightarrow> bool" where
  "any_equal s [] = False"
| "any_equal s (v # vs) = (if v = s then True else any_equal s vs)"

definition valueInSlice :: "golib \<Rightarrow> gany \<Rightarrow> gany \<Rightarrow> bool" where
  "valueInSlice L fieldVal condValue =
     (let fieldStr = sprint L fieldVal in
      case condValue of
        GSlice cv \<Rightarrow> any_equal fieldStr (List.map (sprint L) cv)
      | GStr cv \<Rightarrow> any_equal fieldStr (splitComma cv)
      | _ \<Rightarrow> False)"

definition isStaticCondition :: "condition_definition \<Rightarrow> gany gomap option \<Rightarrow> bool" where
  "isStaticCondition cond data =
     (case data of None \<Rightarrow> False | Some d \<Rightarrow> gget d (cn_field cond) \<noteq> None)"

definition evaluateStaticCondition ::
  "golib \<Rightarrow> condition_definition \<Rightarrow> gany gomap option \<Rightarrow> bool" where
  "evaluateStaticCondition L cond data =
     (case data of
        None \<Rightarrow> False
      | Some d \<Rightarrow>
          (case gget d (cn_field cond) of
             None \<Rightarrow> False
           | Some fieldVal \<Rightarrow>
               (let op = cn_operator cond; condValue = cn_value cond in
                if op = ''eq'' \<or> op = ''equals'' \<or> op = ''=='' then sprint L fieldVal = sprint L condValue
                else if op = ''neq'' \<or> op = ''not_equals'' \<or> op = ''!=''
                then sprint L fieldVal \<noteq> sprint L condValue
                else if op = ''in'' then valueInSlice L fieldVal condValue
                else if op = ''not_in'' then \<not> valueInSlice L fieldVal condValue
                else if op = ''exists'' then True
                else if op = ''not_exists'' then \<not> True
                else False)))"

definition applyConditionEffect :: "string \<Rightarrow> bool \<Rightarrow> action_descriptor \<Rightarrow> action_descriptor" where
  "applyConditionEffect effect conditionMet desc =
     (if effect = ''hide'' then (if conditionMet then desc\<lparr>ax_visible := False\<rparr> else desc)
      else if effect = ''show'' then (if \<not> conditionMet then desc\<lparr>ax_visible := False\<rparr> else desc)
      else if effect = ''disable'' then (if conditionMet then desc\<lparr>ax_enabled := False\<rparr> else desc)
      else if effect = ''enable'' then (if \<not> conditionMet then desc\<lparr>ax_enabled := False\<rparr> else desc)
      else desc)"

definition condition_of :: "condition_definition \<Rightarrow> condition_descriptor" where
  "condition_of c = \<lparr>dx_field = cn_field c, dx_operator = cn_operator c, dx_value = cn_value c,
     dx_effect = cn_effect c\<rparr>"

text \<open>The loop over the conditions: the descriptor so far and the conditions for the client.\<close>

fun condition_loop ::
  "golib \<Rightarrow> gany gomap option \<Rightarrow> condition_definition list \<Rightarrow> action_descriptor \<Rightarrow>
   condition_descriptor list \<Rightarrow> action_descriptor \<times> condition_descriptor list" where
  "condition_loop L data [] desc client = (desc, client)"
| "condition_loop L data (cond # conds) desc client =
     (if isStaticCondition cond data
      then condition_loop L data conds
             (applyConditionEffect (cn_effect cond) (evaluateStaticCondition L cond data) desc) client
      else condition_loop L data conds desc (client @ [condition_of cond]))"

definition confirmation_of :: "confirmation_definition \<Rightarrow> confirmation_descriptor" where
  "confirmation_of c = \<lparr>cx_title = cf_title c, cx_message = cf_message c, cx_confirm = cf_confirm c,
     cx_cancel = cf_cancel c, cx_style = cf_style c\<rparr>"

definition resolve_action :: "golib \<Rightarrow> gany gomap option \<Rightarrow> action_definition \<Rightarrow> action_descriptor" where
  "resolve_action L data a =
     (let (desc, client) =
        condition_loop L data (ad_conditions a)
          \<lparr>ax_id = ad_id a, ax_label = ad_label a, ax_icon = ad_icon a, ax_style = ad_style a,
           ax_type = ad_type a, ax_enabled = True, ax_visible = True,
           ax_command_id = ad_command_id a, ax_navigate_to = ad_navigate_to a,
           ax_form_id = ad_form_id a, ax_confirmation = map_option confirmation_of (ad_confirmation a),
           ax_conditions = [], ax_params = ad_params a\<rparr> []
      in if length client > 0 then desc\<lparr>ax_conditions := client\<rparr> else desc)"

fun ResolveActions ::
  "golib \<Rightarrow> capability_set \<Rightarrow> action_definition list \<Rightarrow> gany gomap option \<Rightarrow> action_descriptor list"
  where
  "ResolveActions L caps [] data = []"
| "ResolveActions L caps (action # actions) data =
     (if denied caps (ad_capabilities action) then ResolveActions L caps actions data
      else resolve_action L data action # ResolveActions L caps actions data)"

subsection \<open>Lemmas\<close>

lemma ResolveActions_filter:
  "ResolveActions L caps actions data =
     List.map (resolve_action L data) (filter (\<lambda>a. \<not> denied caps (ad_capabilities a)) actions)"
  by (induction actions) auto

lemma apply_effect_ids [simp]:
  "ax_id (applyConditionEffect eff met desc) = ax_id desc"
  "ax_command_id (applyConditionEffect eff met desc) = ax_command_id desc"
  "ax_conditions (applyConditionEffect eff met desc) = ax_conditions desc"
  by (simp_all add: applyConditionEffect_def)

lemma condition_loop_ids:
  "ax_id (fst (condition_loop L data conds desc client)) = ax_id desc"
  "ax_conditions (fst (condition_loop L data conds desc client)) = ax_conditions desc"
  by (induction L data conds desc client rule: condition_loop.induct) auto

lemma resolve_action_id [simp]: "ax_id (resolve_action L data a) = ad_id a"
  by (simp add: resolve_action_def condition_loop_ids split: prod.splits)
     (metis (no_types, lifting) action_descriptor.select_convs(1) condition_loop_ids(1) fst_conv)

lemma condition_loop_client:
  "snd (condition_loop L data conds desc client) =
     client @ List.map condition_of (filter (\<lambda>c. \<not> isStaticCondition c data) conds)"
  by (induction L data conds desc client rule: condition_loop.induct) auto

text \<open>Which conditions make an action invisible.\<close>

definition hides :: "golib \<Rightarrow> gany gomap option \<Rightarrow> condition_definition \<Rightarrow> bool" where
  "hides L data c \<longleftrightarrow> isStaticCondition c data \<and>
     (cn_effect c = ''hide'' \<and> evaluateStaticCondition L c data \<or>
      cn_effect c = ''show'' \<and> \<not> evaluateStaticCondition L c data)"

lemma condition_loop_visible:
  "ax_visible (fst (condition_loop L data conds desc client)) \<longleftrightarrow>
     ax_visible desc \<and> (\<forall>c\<in>set conds. \<not> hides L data c)"
  by (induction L data conds desc client rule: condition_loop.induct)
     (auto simp: applyConditionEffect_def hides_def)

lemma resolve_action_visible:
  "ax_visible (resolve_action L data a) \<longleftrightarrow> (\<forall>c\<in>set (ad_conditions a). \<not> hides L data c)"
proof -
  have "ax_visible (resolve_action L data a) =
      ax_visible (fst (condition_loop L data (ad_conditions a)
          \<lparr>ax_id = ad_id a, ax_label = ad_label a, ax_icon = ad_icon a, ax_style = ad_style a,
           ax_type = ad_type a, ax_enabled = True, ax_visible = True,
           ax_command_id = ad_command_id a, ax_navigate_to = ad_navigate_to a,
           ax_form_id = ad_form_id a, ax_confirmation = map_option confirmation_of (ad_confirmation a),
           ax_conditions = [], ax_params = ad_params a\<rparr> []))"
    by (simp add: resolve_action_def Let_def split: prod.splits)
  then show ?thesis by (simp add: condition_loop_visible)
qed

lemma any_equal_iff: "any_equal s vs \<longleftrightarrow> s \<in> set vs"
  by (induction vs) auto

end
