(* ===== verification/Config.thy ===== *)
theory Config imports Model begin

section \<open>Configuration (pkg/config/config.go)\<close>

text \<open>
  The configuration records, their defaults, the overrides read from the environment, validation,
  and \<open>Load\<close>. A duration is a count of nanoseconds. Reading the file, decoding YAML and the part
  of the configuration that belongs to the Frame library are arguments of \<open>Load\<close>.
\<close>

definition millisecond :: int where "millisecond = 1000000"
definition second :: int where "second = 1000 * millisecond"
definition minute :: int where "minute = 60 * second"
definition hour :: int where "hour = 60 * minute"

lemmas duration_defs = millisecond_def second_def minute_def hour_def

record cors_config =
  co_allowed_origins :: "string list"
  co_allowed_methods :: "string list"
  co_allowed_headers :: "string list"
  co_max_age :: int

record server_config =
  sv_port :: int
  sv_read_timeout :: int
  sv_write_timeout :: int
  sv_handler_timeout :: int
  sv_shutdown_timeout :: int
  sv_cors :: cors_config

record definitions_config =
  dc_directories :: "string list"
  dc_hot_reload :: bool
  dc_strict_checksums :: bool

record spec_source_config =
  ss_service_id :: string
  ss_spec_file :: string

record specs_config =
  sp_directory :: string
  sp_sources :: "spec_source_config list"

record retry_config =
  rt_max_attempts :: int
  rt_backoff_initial :: int
  rt_backoff_multiplier :: rat
  rt_backoff_max :: int
  rt_idempotent_only :: bool

record service_config =
  sc_base_url :: string
  sc_timeout :: int
  sc_retry :: retry_config
  sc_authorization_namespace :: string

record cache_settings =
  cs_ttl :: int
  cs_max_entries :: int

record search_config =
  sr_timeout_per_provider :: int
  sr_max_results_per_provider :: int

record analytics_config =
  an_enabled :: bool
  an_backend_type :: string
  an_backend_url :: string
  an_org :: string
  an_username :: string
  an_password :: string
  an_token :: string
  an_cache_ttl :: int
  an_allowed_metrics :: "string list"

record tracing_config =
  tr_enabled :: bool
  tr_exporter :: string
  tr_endpoint :: string
  tr_sampling_rate :: rat
  tr_force_sample_errors :: bool

record metrics_config =
  mt_enabled :: bool
  mt_path :: string

record observability_config =
  ob_log_level :: string
  ob_tracing :: tracing_config
  ob_metrics :: metrics_config

record config =
  cfg_server :: server_config
  cfg_definitions :: definitions_config
  cfg_specs :: specs_config
  cfg_services :: "service_config gomap"
  cfg_capability :: cache_settings
  cfg_analytics :: analytics_config
  cfg_search :: search_config
  cfg_lookup :: cache_settings
  cfg_observability :: observability_config

definition Defaults :: config where
  "Defaults = \<lparr>
     cfg_server = \<lparr>sv_port = 8080, sv_read_timeout = 30 * second, sv_write_timeout = 30 * second,
       sv_handler_timeout = 25 * second, sv_shutdown_timeout = 30 * second,
       sv_cors = \<lparr>co_allowed_origins = [],
         co_allowed_methods = [''GET'', ''POST'', ''PUT'', ''PATCH'', ''DELETE'', ''OPTIONS''],
         co_allowed_headers = [''Authorization'', ''Content-Type'', ''X-Tenant-Id'',
           ''X-Partition-Id'', ''X-Access-Id'', ''X-Correlation-Id'', ''X-Idempotency-Key''],
         co_max_age = 86400\<rparr>\<rparr>,
     cfg_definitions = \<lparr>dc_directories = [''/definitions''], dc_hot_reload = False,
       dc_strict_checksums = True\<rparr>,
     cfg_specs = \<lparr>sp_directory = ''/specs'', sp_sources = []\<rparr>,
     cfg_services = [],
     cfg_capability = \<lparr>cs_ttl = 5 * minute, cs_max_entries = 10000\<rparr>,
     cfg_analytics = \<lparr>an_enabled = False, an_backend_type = [], an_backend_url = [], an_org = [],
       an_username = [], an_password = [], an_token = [], an_cache_ttl = 120 * second,
       an_allowed_metrics = []\<rparr>,
     cfg_search = \<lparr>sr_timeout_per_provider = 3 * second, sr_max_results_per_provider = 50\<rparr>,
     cfg_lookup = \<lparr>cs_ttl = 5 * minute, cs_max_entries = 1000\<rparr>,
     cfg_observability = \<lparr>ob_log_level = ''info'',
       ob_tracing = \<lparr>tr_enabled = False, tr_exporter = ''otlp'', tr_endpoint = [],
         tr_sampling_rate = f64 (1 / 10), tr_force_sample_errors = False\<rparr>,
       ob_metrics = \<lparr>mt_enabled = True, mt_path = ''/metrics''\<rparr>\<rparr>\<rparr>"

definition ValidateConfig :: "config \<Rightarrow> go_error option" where
  "ValidateConfig c =
     (let errs = (if sv_port (cfg_server c) < 1 \<or> sv_port (cfg_server c) > 65535
                  then [''server.port must be between 1 and 65535''] else [])
      in if length errs > 0 then Some (Plain (join ''; '' errs)) else None)"

text \<open>applyEnvOverrides, one override after the other, in the order of the code.\<close>

definition override_port :: "golib \<Rightarrow> (string \<Rightarrow> string) \<Rightarrow> server_config \<Rightarrow> server_config" where
  "override_port L env s =
     (let v = env ''THESA_SERVER_PORT'' in
      if v \<noteq> [] then (case scan_int L v of Some port \<Rightarrow> s\<lparr>sv_port := port\<rparr> | None \<Rightarrow> s) else s)"

definition override_string ::
  "(string \<Rightarrow> string) \<Rightarrow> string \<Rightarrow> (string \<Rightarrow> 'r \<Rightarrow> 'r) \<Rightarrow> 'r \<Rightarrow> 'r" where
  "override_string env name upd r = (let v = env name in if v \<noteq> [] then upd v r else r)"

definition override_cache_ttl :: "golib \<Rightarrow> (string \<Rightarrow> string) \<Rightarrow> analytics_config \<Rightarrow> analytics_config" where
  "override_cache_ttl L env a =
     (let v = env ''ANALYTICS_CACHE_TTL'' in
      if v \<noteq> [] then
        (case parse_duration L v of
           Some d \<Rightarrow> a\<lparr>an_cache_ttl := d\<rparr>
         | None \<Rightarrow> (case atoi v of
                      Some secs \<Rightarrow> a\<lparr>an_cache_ttl := wrap64 (secs * second)\<rparr>
                    | None \<Rightarrow> a))
      else a)"

definition metric_patterns :: "string \<Rightarrow> string list" where
  "metric_patterns v = filter (\<lambda>p. p \<noteq> []) (List.map trim_space (split_on CHR '','' v))"

definition override_allowed_metrics :: "(string \<Rightarrow> string) \<Rightarrow> analytics_config \<Rightarrow> analytics_config" where
  "override_allowed_metrics env a =
     (let v = env ''ANALYTICS_ALLOWED_METRICS'' in
      if v \<noteq> [] then
        (let patterns = metric_patterns v in
         if length patterns > 0 then a\<lparr>an_allowed_metrics := patterns\<rparr> else a)
      else a)"

definition applyEnvOverrides :: "golib \<Rightarrow> (string \<Rightarrow> string) \<Rightarrow> config \<Rightarrow> config" where
  "applyEnvOverrides L env cfg =
     cfg\<lparr>cfg_server := override_port L env (cfg_server cfg),
         cfg_observability :=
           override_string env ''THESA_OBSERVABILITY_LOG_LEVEL''
             (\<lambda>v o'. o'\<lparr>ob_log_level := v\<rparr>) (cfg_observability cfg),
         cfg_analytics :=
           (override_allowed_metrics env \<circ> override_cache_ttl L env \<circ>
            override_string env ''ANALYTICS_TOKEN'' (\<lambda>v a. a\<lparr>an_token := v\<rparr>) \<circ>
            override_string env ''ANALYTICS_PASSWORD'' (\<lambda>v a. a\<lparr>an_password := v\<rparr>) \<circ>
            override_string env ''ANALYTICS_USERNAME'' (\<lambda>v a. a\<lparr>an_username := v\<rparr>) \<circ>
            override_string env ''ANALYTICS_ORG'' (\<lambda>v a. a\<lparr>an_org := v\<rparr>) \<circ>
            override_string env ''ANALYTICS_BACKEND_URL''
              (\<lambda>v a. a\<lparr>an_backend_url := v, an_enabled := True\<rparr>) \<circ>
            override_string env ''ANALYTICS_BACKEND_TYPE'' (\<lambda>v a. a\<lparr>an_backend_type := v\<rparr>))
           (cfg_analytics cfg)\<rparr>"

text \<open>
  \<open>Load\<close>. The arguments stand for \<open>os.ReadFile\<close>, \<open>yaml.Unmarshal\<close> into the defaults, and Frame's
  own environment and OIDC discovery, whose success or error is all that matters here.
\<close>

definition LoadConfig ::
  "golib \<Rightarrow> (string \<Rightarrow> string) \<Rightarrow> (string \<Rightarrow> go_error + string) \<Rightarrow>
   (string \<Rightarrow> config \<Rightarrow> go_error + config) \<Rightarrow> go_error option \<Rightarrow> string \<Rightarrow> go_error option \<Rightarrow>
   string \<Rightarrow> go_error + config" where
  "LoadConfig L env read unmarshal fill_env oauth2_uri oidc path =
     (case read path of
        Inl err \<Rightarrow> Inl (Wrap (''config: reading '' @ path @ '': '' @ error_message err) err)
      | Inr data \<Rightarrow>
          (case unmarshal data Defaults of
             Inl err \<Rightarrow> Inl (Wrap (''config: parsing '' @ path @ '': '' @ error_message err) err)
           | Inr cfg \<Rightarrow>
               (case fill_env of
                  Some err \<Rightarrow> Inl (Wrap (''config: frame env: '' @ error_message err) err)
                | None \<Rightarrow>
                    (case if oauth2_uri \<noteq> [] then oidc else None of
                       Some err \<Rightarrow> Inl (Wrap (''config: oidc discovery: '' @ error_message err) err)
                     | None \<Rightarrow>
                         (let cfg' = applyEnvOverrides L env cfg in
                          case ValidateConfig cfg' of
                            Some err \<Rightarrow>
                              Inl (Wrap (''config: validation: '' @ error_message err) err)
                          | None \<Rightarrow> Inr cfg')))))"

lemma ValidateConfig_None:
  "ValidateConfig c = None \<longleftrightarrow> 1 \<le> sv_port (cfg_server c) \<and> sv_port (cfg_server c) \<le> 65535"
  by (auto simp: ValidateConfig_def Let_def)

lemma ValidateConfig_Defaults: "ValidateConfig Defaults = None"
  by (simp add: ValidateConfig_None Defaults_def)

end
