(* ===== verification/OpenAPIIndex.thy ===== *)
theory OpenAPIIndex imports Model begin

section \<open>The OpenAPI index (pkg/openapi/index.go)\<close>

text \<open>
  \<open>Index\<close> maps (service, operation) to an indexed operation and a service to its operation ids.
  The documents come from the kin-openapi library: reading a file, validating a document and
  choosing a media type are the arguments \<open>load_file\<close>, \<open>validate_doc\<close> and \<open>content_get\<close>. A
  document is kept as the parts the code reads; parameters and responses are stored and handed
  on as they come. A range over the paths of a document and over the operations of a path visits
  them in the order of the association list.
\<close>

record oa_schema = sc_required :: "string list"

record oa_media = md_schema :: "oa_schema option"

type_synonym oa_content = "oa_media gomap"

record oa_operation =
  oo_id :: string
  oo_params :: "gany option list"
  oo_body :: "oa_content option"
  oo_responses :: gany

record oa_path_item =
  pi_params :: "gany option list"
  pi_operations :: "oa_operation gomap"

record oa_doc =
  oa_servers :: "string list"
  oa_paths :: "oa_path_item gomap"

record spec_source =
  sp_service_id :: string
  sp_base_url :: string
  sp_spec_path :: string

record indexed_operation =
  ix_service_id :: string
  ix_operation_id :: string
  ix_method :: string
  ix_path_template :: string
  ix_parameters :: "gany list"
  ix_request_body :: "oa_content option"
  ix_responses :: gany
  ix_base_url :: string

record validation_error =
  ve_field :: string
  ve_message :: string

record index =
  idx_operations :: "indexed_operation gomap"
  idx_by_service :: "string list gomap"

definition NewIndex :: index where
  "NewIndex = \<lparr>idx_operations = [], idx_by_service = []\<rparr>"

definition operationKey :: "string \<Rightarrow> string \<Rightarrow> string" where
  "operationKey serviceID operationID = serviceID @ '':'' @ operationID"

definition ops_of :: "index \<Rightarrow> string \<Rightarrow> string list" where
  "ops_of idx serviceID =
     (case gget (idx_by_service idx) serviceID of None \<Rightarrow> [] | Some ids \<Rightarrow> ids)"

subsection \<open>Load\<close>

text \<open>The parameters whose reference resolved: those of the path first, then the operation's.\<close>

fun resolved_params :: "gany option list \<Rightarrow> gany list" where
  "resolved_params [] = []"
| "resolved_params (None # refs) = resolved_params refs"
| "resolved_params (Some p # refs) = p # resolved_params refs"

definition index_operation ::
  "spec_source \<Rightarrow> string \<Rightarrow> string \<Rightarrow> oa_path_item \<Rightarrow> string \<times> oa_operation \<Rightarrow> index \<Rightarrow> index" where
  "index_operation src baseURL path pathItem mo idx =
     (let (method, op) = mo in
      if oo_id op = [] then idx
      else
        idx\<lparr>idx_operations :=
              gput (operationKey (sp_service_id src) (oo_id op))
                \<lparr>ix_service_id = sp_service_id src, ix_operation_id = oo_id op,
                 ix_method = method, ix_path_template = path,
                 ix_parameters = resolved_params (pi_params pathItem) @ resolved_params (oo_params op),
                 ix_request_body = oo_body op, ix_responses = oo_responses op,
                 ix_base_url = baseURL\<rparr>
                (idx_operations idx),
            idx_by_service :=
              gput (sp_service_id src) (ops_of idx (sp_service_id src) @ [oo_id op])
                (idx_by_service idx)\<rparr>)"

definition index_path ::
  "spec_source \<Rightarrow> string \<Rightarrow> string \<times> oa_path_item \<Rightarrow> index \<Rightarrow> index" where
  "index_path src baseURL pp idx =
     fold (index_operation src baseURL (fst pp) (snd pp)) (pi_operations (snd pp)) idx"

definition base_url :: "spec_source \<Rightarrow> oa_doc \<Rightarrow> string" where
  "base_url src doc =
     (if sp_base_url src = [] \<and> length (oa_servers doc) > 0 then hd (oa_servers doc)
      else sp_base_url src)"

fun LoadSpecs ::
  "(string \<Rightarrow> go_error + oa_doc) \<Rightarrow> (oa_doc \<Rightarrow> go_error option) \<Rightarrow> spec_source list \<Rightarrow> index \<Rightarrow>
   index \<times> go_error option" where
  "LoadSpecs load_file validate_doc [] idx = (idx, None)"
| "LoadSpecs load_file validate_doc (src # specs) idx =
     (case load_file (sp_spec_path src) of
        Inl err \<Rightarrow>
          (idx, Some (Wrap (''openapi: loading '' @ sp_service_id src @ '' ('' @ sp_spec_path src @
             ''): '' @ error_message err) err))
      | Inr doc \<Rightarrow>
          (case validate_doc doc of
             Some err \<Rightarrow>
               (idx, Some (Wrap (''openapi: validating '' @ sp_service_id src @ '': '' @
                  error_message err) err))
           | None \<Rightarrow>
               LoadSpecs load_file validate_doc specs
                 (fold (index_path src (base_url src doc)) (oa_paths doc) idx)))"

subsection \<open>Lookup and validation\<close>

definition GetOperation :: "index \<Rightarrow> string \<Rightarrow> string \<Rightarrow> indexed_operation option" where
  "GetOperation idx serviceID operationID =
     gget (idx_operations idx) (operationKey serviceID operationID)"

definition AllOperationIDs :: "index \<Rightarrow> string \<Rightarrow> string list" where
  "AllOperationIDs idx serviceID = sort (ops_of idx serviceID)"

text \<open>The loop over the required fields of the schema.\<close>

fun missing_fields :: "string list \<Rightarrow> gany gomap \<Rightarrow> validation_error list" where
  "missing_fields [] body = []"
| "missing_fields (req # reqs) body =
     (if gget body req = None
      then \<lparr>ve_field = req, ve_message = req @ '' is required''\<rparr> # missing_fields reqs body
      else missing_fields reqs body)"

definition ValidateRequest ::
  "(oa_content \<Rightarrow> string \<Rightarrow> oa_media option) \<Rightarrow> index \<Rightarrow> string \<Rightarrow> string \<Rightarrow> gany gomap \<Rightarrow>
   validation_error list" where
  "ValidateRequest content_get idx serviceID operationID body =
     (case gget (idx_operations idx) (operationKey serviceID operationID) of
        None \<Rightarrow>
          [\<lparr>ve_field = [],
            ve_message = ''operation '' @ serviceID @ ''/'' @ operationID @ '' not found''\<rparr>]
      | Some op \<Rightarrow>
          (case ix_request_body op of
             None \<Rightarrow> []
           | Some content \<Rightarrow>
               (case content_get content ''application/json'' of
                  None \<Rightarrow> []
                | Some ct \<Rightarrow>
                    (case md_schema ct of
                       None \<Rightarrow> []
                     | Some schema \<Rightarrow> missing_fields (sc_required schema) body))))"

subsection \<open>The invariant of the index\<close>

text \<open>
  The two maps agree: an entry is stored under the key of its own service and operation, and the
  ids listed for a service are those the operations map has an entry for.
\<close>

definition index_ok :: "index \<Rightarrow> bool" where
  "index_ok idx \<longleftrightarrow>
     (\<forall>k op. gget (idx_operations idx) k = Some op \<longrightarrow>
        k = operationKey (ix_service_id op) (ix_operation_id op) \<and>
        ix_operation_id op \<in> set (ops_of idx (ix_service_id op))) \<and>
     (\<forall>s i. i \<in> set (ops_of idx s) \<longrightarrow> gget (idx_operations idx) (operationKey s i) \<noteq> None)"

lemma ops_of_NewIndex [simp]: "ops_of NewIndex s = []"
  by (simp add: ops_of_def NewIndex_def)

lemma index_ok_New: "index_ok NewIndex"
  by (simp add: index_ok_def) (simp add: NewIndex_def)

lemma ops_of_index_operation:
  "ops_of (index_operation src b path item mo idx) s =
     ops_of idx s @ (if s = sp_service_id src \<and> oo_id (snd mo) \<noteq> [] then [oo_id (snd mo)] else [])"
  by (cases mo) (auto simp: index_operation_def ops_of_def gget_gput)

lemma index_ok_operation:
  assumes "index_ok idx"
  shows "index_ok (index_operation src b path item mo idx)"
proof (cases "oo_id (snd mo) = []")
  case True
  with assms show ?thesis by (cases mo) (simp add: index_operation_def)
next
  case False
  have inv1: "\<And>k op. gget (idx_operations idx) k = Some op \<Longrightarrow>
        k = operationKey (ix_service_id op) (ix_operation_id op) \<and>
        ix_operation_id op \<in> set (ops_of idx (ix_service_id op))"
    and inv2: "\<And>s i. i \<in> set (ops_of idx s) \<Longrightarrow> gget (idx_operations idx) (operationKey s i) \<noteq> None"
    using assms by (auto simp: index_ok_def)
  show ?thesis
    unfolding index_ok_def ops_of_index_operation
    using False inv1 inv2
    by (cases mo) (auto simp: index_operation_def gget_gput split: if_splits)
qed

lemma index_ok_path: "index_ok idx \<Longrightarrow> index_ok (index_path src b pp idx)"
  unfolding index_path_def
  by (rule fold_invariant [where P = index_ok and Q = "\<lambda>_. True"]) (auto intro: index_ok_operation)

lemma index_ok_paths: "index_ok idx \<Longrightarrow> index_ok (fold (index_path src b) pps idx)"
  by (rule fold_invariant [where P = index_ok and Q = "\<lambda>_. True"]) (auto intro: index_ok_path)

lemma index_ok_Load: "index_ok idx \<Longrightarrow> index_ok (fst (LoadSpecs lf vd specs idx))"
  by (induction lf vd specs idx rule: LoadSpecs.induct)
     (auto simp: index_ok_paths split: sum.splits option.splits)

lemma operationKey_inject:
  assumes "CHR '':'' \<notin> set s" and "CHR '':'' \<notin> set s'"
  shows "operationKey s i = operationKey s' i' \<longleftrightarrow> s = s' \<and> i = i'"
proof
  assume "operationKey s i = operationKey s' i'"
  then have "split_on CHR '':'' (s @ CHR '':'' # i) = split_on CHR '':'' (s' @ CHR '':'' # i')"
    by (simp add: operationKey_def)
  with assms have "s = s'" by (simp add: split_on_append)
  with \<open>operationKey s i = operationKey s' i'\<close> show "s = s' \<and> i = i'"
    by (simp add: operationKey_def)
qed simp

text \<open>The ids a list of specs contributes to a service, in load order.\<close>

definition path_ids :: "oa_doc \<Rightarrow> string list" where
  "path_ids doc =
     filter (\<lambda>i. i \<noteq> []) (concat (List.map (\<lambda>(_, item). List.map (oo_id \<circ> snd) (pi_operations item))
       (oa_paths doc)))"

fun spec_ids :: "(string \<Rightarrow> go_error + oa_doc) \<Rightarrow> spec_source list \<Rightarrow> string \<Rightarrow> string list" where
  "spec_ids lf [] s = []"
| "spec_ids lf (src # specs) s =
     (case lf (sp_spec_path src) of
        Inl _ \<Rightarrow> []
      | Inr doc \<Rightarrow> (if sp_service_id src = s then path_ids doc else []) @ spec_ids lf specs s)"

lemma ops_of_fold_operations:
  "ops_of (fold (index_operation src b path item) mos idx) s =
     ops_of idx s @ (if s = sp_service_id src
                     then filter (\<lambda>i. i \<noteq> []) (List.map (oo_id \<circ> snd) mos) else [])"
  by (induction mos arbitrary: idx) (auto simp: ops_of_index_operation)

lemma ops_of_fold_paths:
  "ops_of (fold (index_path src b) pps idx) s =
     ops_of idx s @ (if s = sp_service_id src
       then filter (\<lambda>i. i \<noteq> []) (concat (List.map (\<lambda>(_, item).
              List.map (oo_id \<circ> snd) (pi_operations item)) pps)) else [])"
  by (induction pps arbitrary: idx) (auto simp: index_path_def ops_of_fold_operations)

lemma ops_of_Load:
  "LoadSpecs lf vd specs idx = (idx', None) \<Longrightarrow>
   ops_of idx' s = ops_of idx s @ spec_ids lf specs s"
  by (induction lf vd specs idx arbitrary: idx' rule: LoadSpecs.induct)
     (auto simp: ops_of_fold_paths path_ids_def split: sum.splits option.splits)

lemma GetOperation_iff:
  assumes "index_ok idx" and "CHR '':'' \<notin> set s"
    and "\<forall>(k, op)\<in>set (idx_operations idx). CHR '':'' \<notin> set (ix_service_id op)"
  shows "GetOperation idx s i \<noteq> None \<longleftrightarrow> i \<in> set (ops_of idx s)"
proof
  assume "GetOperation idx s i \<noteq> None"
  then obtain op where op: "gget (idx_operations idx) (operationKey s i) = Some op"
    by (auto simp: GetOperation_def)
  then have "operationKey s i = operationKey (ix_service_id op) (ix_operation_id op)"
    and "ix_operation_id op \<in> set (ops_of idx (ix_service_id op))"
    using assms(1) by (auto simp: index_ok_def)
  moreover have "CHR '':'' \<notin> set (ix_service_id op)"
    using map_of_SomeD [OF op] assms(3) by auto
  ultimately show "i \<in> set (ops_of idx s)"
    using operationKey_inject [OF assms(2)] by auto
next
  assume "i \<in> set (ops_of idx s)"
  with assms(1) show "GetOperation idx s i \<noteq> None"
    by (auto simp: index_ok_def GetOperation_def)
qed

lemma missing_fields_iff:
  "missing_fields reqs body =
     List.map (\<lambda>r. \<lparr>ve_field = r, ve_message = r @ '' is required''\<rparr>)
       (filter (\<lambda>r. gget body r = None) reqs)"
  by (induction reqs) auto


text \<open>Every entry belongs to a service of the specs that were loaded.\<close>

definition services_in :: "string set \<Rightarrow> index \<Rightarrow> bool" where
  "services_in S idx \<longleftrightarrow> (\<forall>(k, op)\<in>set (idx_operations idx). ix_service_id op \<in> S)"

lemma services_in_operation:
  assumes "services_in S idx" and "sp_service_id src \<in> S"
  shows "services_in S (index_operation src b path item mo idx)"
proof (cases "oo_id (snd mo) = []")
  case True
  with assms show ?thesis by (cases mo) (simp add: index_operation_def)
next
  case False
  obtain verb op where mo: "mo = (verb, op)" by (cases mo)
  have "(k, e) \<in> set (gput k0 v m) \<Longrightarrow> e = v \<or> (k, e) \<in> set m" for k e k0 and v :: 'v and m
    by (induction m) (auto split: if_splits)
  with assms False mo show ?thesis
    unfolding services_in_def by (fastforce simp: index_operation_def)
qed

lemma services_in_paths:
  assumes "services_in S idx" and "sp_service_id src \<in> S"
  shows "services_in S (fold (index_path src b) pps idx)"
proof -
  have one: "services_in S i \<Longrightarrow> services_in S (index_path src b pp i)" for pp i
    unfolding index_path_def
    by (rule fold_invariant [where P = "services_in S" and Q = "\<lambda>_. True"])
       (auto intro: services_in_operation assms(2))
  show ?thesis
    by (rule fold_invariant [where P = "services_in S" and Q = "\<lambda>_. True"])
       (auto intro: one assms(1))
qed

lemma services_in_Load:
  "services_in S idx \<Longrightarrow> sp_service_id ` set specs \<subseteq> S \<Longrightarrow>
   services_in S (fst (LoadSpecs lf vd specs idx))"
  by (induction lf vd specs idx rule: LoadSpecs.induct)
     (auto simp: services_in_paths split: sum.splits option.splits)

lemma index_ok_get:
  assumes "index_ok idx" and "GetOperation idx s i = Some op" and "CHR '':'' \<notin> set s"
    and "CHR '':'' \<notin> set (ix_service_id op)"
  shows "ix_service_id op = s" and "ix_operation_id op = i"
proof -
  have "operationKey s i = operationKey (ix_service_id op) (ix_operation_id op)"
    using assms(1,2) by (auto simp: index_ok_def GetOperation_def)
  then show "ix_service_id op = s" and "ix_operation_id op = i"
    using operationKey_inject [OF assms(3,4)] by auto
qed

subsection \<open>Properties\<close>

text \<open>
  C30. After a load that succeeds, an operation is found under a service exactly when one of the
  documents loaded for that service names it (service ids without a colon); operations without an
  id are skipped.
\<close>

theorem load_exact:
  assumes "LoadSpecs lf vd specs NewIndex = (idx, None)"
    and "\<forall>src\<in>set specs. CHR '':'' \<notin> set (sp_service_id src)" and "CHR '':'' \<notin> set s"
  shows "GetOperation idx s i \<noteq> None \<longleftrightarrow> i \<in> set (spec_ids lf specs s)"
proof -
  have ok: "index_ok idx" using index_ok_Load [OF index_ok_New, of lf vd specs] assms(1) by simp
  have "services_in (sp_service_id ` set specs) idx"
    using services_in_Load [of _ NewIndex specs lf vd] assms(1)
    by (simp add: services_in_def NewIndex_def)
  then have "\<forall>(k, op)\<in>set (idx_operations idx). CHR '':'' \<notin> set (ix_service_id op)"
    using assms(2) unfolding services_in_def by fastforce
  from GetOperation_iff [OF ok assms(3) this] ops_of_Load [OF assms(1)] show ?thesis by simp
qed

definition demo_op :: "string \<Rightarrow> oa_content option \<Rightarrow> oa_operation" where
  "demo_op i body = \<lparr>oo_id = i, oo_params = [Some (GStr ''id''), None], oo_body = body,
     oo_responses = GNil\<rparr>"

definition demo_doc :: oa_doc where
  "demo_doc = \<lparr>oa_servers = [''http://orders''], oa_paths =
     [(''/orders/{id}'', \<lparr>pi_params = [], pi_operations = [(''GET'', demo_op ''getOrder'' None)]\<rparr>),
      (''/orders'', \<lparr>pi_params = [], pi_operations =
         [(''POST'', demo_op ''createOrder''
            (Some [(''application/json'', \<lparr>md_schema = Some \<lparr>sc_required = [''sku'', ''qty'']\<rparr>\<rparr>)])),
          (''DELETE'', demo_op [] None)]\<rparr>)]\<rparr>"

definition demo_src :: spec_source where
  "demo_src = \<lparr>sp_service_id = ''orders-svc'', sp_base_url = [], sp_spec_path = ''orders.yaml''\<rparr>"

definition demo_index :: index where
  "demo_index = fst (LoadSpecs (\<lambda>_. Inr demo_doc) (\<lambda>_. None) [demo_src] NewIndex)"

lemmas demo_index_defs =
  demo_index_def demo_src_def demo_doc_def demo_op_def NewIndex_def base_url_def index_path_def
  index_operation_def operationKey_def ops_of_def GetOperation_def

lemma demo_load:
  "LoadSpecs (\<lambda>_. Inr demo_doc) (\<lambda>_. None) [demo_src] NewIndex = (demo_index, None)"
  by (simp add: demo_index_def)

theorem load_exact_witness:
  "GetOperation demo_index ''orders-svc'' ''getOrder'' \<noteq> None \<longleftrightarrow>
     ''getOrder'' \<in> set (spec_ids (\<lambda>_. Inr demo_doc) [demo_src] ''orders-svc'')"
  by (rule load_exact [OF demo_load]) (simp_all add: demo_src_def)

text \<open>
  Request validation against a loaded index is exact: for an operation with a JSON schema the
  errors are one per required field that the body lacks, in the schema's order, and each names
  its field.
\<close>

theorem validate_request_exact:
  assumes "GetOperation idx s i = Some op" and "ix_request_body op = Some content"
    and "content_get content ''application/json'' = Some \<lparr>md_schema = Some schema\<rparr>"
  shows "ValidateRequest content_get idx s i body =
    List.map (\<lambda>r. \<lparr>ve_field = r, ve_message = r @ '' is required''\<rparr>)
      (filter (\<lambda>r. r \<notin> set (gkeys body)) (sc_required schema))"
  using assms
  by (simp add: ValidateRequest_def GetOperation_def missing_fields_iff map_of_eq_None_iff)

theorem validate_request_exact_witness:
  "ValidateRequest gget demo_index ''orders-svc'' ''createOrder'' [(''sku'', GStr ''a'')] =
    List.map (\<lambda>r. \<lparr>ve_field = r, ve_message = r @ '' is required''\<rparr>)
      (filter (\<lambda>r. r \<notin> set (gkeys [(''sku'', GStr ''a'')])) (sc_required \<lparr>sc_required = [''sku'', ''qty'']\<rparr>))"
  by (rule validate_request_exact
        [where op = "the (GetOperation demo_index ''orders-svc'' ''createOrder'')" and
           content = "[(''application/json'', \<lparr>md_schema = Some \<lparr>sc_required = [''sku'', ''qty'']\<rparr>\<rparr>)]"])
     (simp_all add: demo_index_defs)

end
