(* ===== verification/Invoker.thy ===== *)
theory Invoker imports Config OpenAPIIndex "HOL-Library.Multiset" begin

section \<open>Backend invocation (pkg/invoker)\<close>

text \<open>
  The dispatching registry, the SDK handlers, and the invoker that turns an indexed OpenAPI
  operation into HTTP requests with retries. Whatever happens outside the program is a world of
  type \<open>'w\<close> threaded through the calls: an invoker is a function from a world to a result and the
  next world. \<open>http_env\<close> holds what net/http, net/url, encoding/json and the context provide.
\<close>

type_synonym 'w invoke_fn =
  "request_context option \<Rightarrow> operation_binding \<Rightarrow> invocation_input \<Rightarrow> 'w \<Rightarrow>
   (go_error + invocation_result) \<times> 'w"

subsection \<open>Registry (registry.go)\<close>

record 'w operation_invoker =
  oi_supports :: "operation_binding \<Rightarrow> bool"
  oi_invoke :: "'w invoke_fn"

fun InvokeRegistry :: "golib \<Rightarrow> 'w operation_invoker list \<Rightarrow> 'w invoke_fn" where
  "InvokeRegistry L [] rctx binding input w =
     (Inl (Plain (''invoker: no invoker supports binding type '' @ quote L (ob_type binding))), w)"
| "InvokeRegistry L (i # invs) rctx binding input w =
     (if oi_supports i binding then oi_invoke i rctx binding input w
      else InvokeRegistry L invs rctx binding input w)"

definition RegisterInvoker :: "'w operation_invoker \<Rightarrow> 'w operation_invoker list \<Rightarrow> 'w operation_invoker list"
  where "RegisterInvoker i r = r @ [i]"

subsection \<open>SDK handlers (sdk.go)\<close>

type_synonym 'w sdk_handler =
  "request_context option \<Rightarrow> invocation_input \<Rightarrow> 'w \<Rightarrow> (go_error + invocation_result) \<times> 'w"

text \<open>\<open>Register\<close> panics on a name that is taken: \<open>None\<close>.\<close>

definition RegisterHandler ::
  "string \<Rightarrow> 'w sdk_handler \<Rightarrow> 'w sdk_handler gomap \<Rightarrow> 'w sdk_handler gomap option" where
  "RegisterHandler name handler handlers =
     (if gget handlers name \<noteq> None then None else Some (gput name handler handlers))"

definition HandlerNames :: "'w sdk_handler gomap \<Rightarrow> string list" where
  "HandlerNames handlers = sort (gkeys handlers)"

definition SDKSupports :: "operation_binding \<Rightarrow> bool" where
  "SDKSupports binding \<longleftrightarrow> ob_type binding = ''sdk''"

definition SDKInvoke :: "golib \<Rightarrow> 'w sdk_handler gomap \<Rightarrow> 'w invoke_fn" where
  "SDKInvoke L handlers rctx binding input w =
     (case gget handlers (ob_handler binding) of
        None \<Rightarrow> (Inl (Plain (''invoker: SDK handler '' @ quote L (ob_handler binding) @ '' not found'')), w)
      | Some handler \<Rightarrow> handler rctx input w)"

subsection \<open>What the OpenAPI invoker takes from the outside (openapi.go)\<close>

record http_request =
  hr_method :: string
  hr_url :: string
  hr_header :: "string gomap"
  hr_body :: "string option"

record http_response =
  rp_status :: int
  rp_header :: "string \<Rightarrow> string"
  rp_read :: "nat \<Rightarrow> go_error + string"   \<comment> \<open>reading at most that many bytes of the body\<close>

text \<open>An error of \<open>client.Do\<close>, with what \<open>errors.As\<close> finds in its chain.\<close>

record transport_error =
  te_error :: go_error
  te_is_op_error :: bool
  te_is_dns_error :: bool

record 'w http_env =
  he_new_request_error :: "string \<Rightarrow> string \<Rightarrow> go_error option"
  he_do :: "http_request \<Rightarrow> 'w \<Rightarrow> (transport_error + http_response) \<times> 'w"
  he_ctx_err :: "'w \<Rightarrow> go_error option"
  he_wait :: "int \<Rightarrow> 'w \<Rightarrow> go_error option \<times> 'w"  \<comment> \<open>the select: \<open>Some\<close> if the context ends first\<close>
  he_marshal :: "gany \<Rightarrow> go_error + string"
  he_unmarshal :: "string \<Rightarrow> go_error + gany"
  he_path_escape :: "string \<Rightarrow> string"
  he_encode_values :: "string gomap \<Rightarrow> string"
  he_canonical :: "string \<Rightarrow> string"

subsection \<open>URL and headers\<close>

fun substitute_path :: "(string \<Rightarrow> string) \<Rightarrow> string gomap \<Rightarrow> string \<Rightarrow> string" where
  "substitute_path esc [] path = path"
| "substitute_path esc ((name, val) # ps) path =
     substitute_path esc ps (replace_all (''{'' @ name @ ''}'') (esc val) path)"

definition buildRequestURL :: "'w http_env \<Rightarrow> indexed_operation \<Rightarrow> invocation_input \<Rightarrow> string" where
  "buildRequestURL e op input =
     (let path = substitute_path (he_path_escape e) (in_path input) (ix_path_template op);
          result = ix_base_url op @ path
      in if length (in_query input) > 0
         then result @ ''?'' @ he_encode_values e
                (fold (\<lambda>(k, v) params. gput k v params) (in_query input) [])
         else result)"

definition sanitizeHeader :: "string \<Rightarrow> string" where
  "sanitizeHeader s = replace_all [CHR 0x0A] [] (replace_all [CHR 0x0D] [] s)"

definition header_set :: "'w http_env \<Rightarrow> string \<Rightarrow> string \<Rightarrow> string gomap \<Rightarrow> string gomap" where
  "header_set e k v h = gput (he_canonical e k) v h"

fun custom_headers :: "'w http_env \<Rightarrow> string gomap \<Rightarrow> string gomap \<Rightarrow> string gomap" where
  "custom_headers e [] h = h"
| "custom_headers e ((k, v) # hs) h =
     custom_headers e hs (header_set e (sanitizeHeader k) (sanitizeHeader v) h)"

definition standard_headers :: "'w http_env \<Rightarrow> request_context option \<Rightarrow> string \<Rightarrow> string gomap" where
  "standard_headers e rctx meth =
     (let h0 = header_set e ''Accept'' ''application/json'' [];
          h1 = (if meth = ''POST'' \<or> meth = ''PUT'' \<or> meth = ''PATCH''
                then header_set e ''Content-Type'' ''application/json'' h0 else h0)
      in case rctx of
           None \<Rightarrow> h1
         | Some rc \<Rightarrow>
             (let h2 = (if Token rc \<noteq> []
                        then header_set e ''Authorization'' (''Bearer '' @ sanitizeHeader (Token rc)) h1
                        else h1)
              in header_set e ''X-Request-Subject'' (sanitizeHeader (SubjectID rc))
                  (header_set e ''X-Correlation-Id'' (sanitizeHeader (CorrelationID rc))
                  (header_set e ''X-Partition-Id'' (sanitizeHeader (PartitionID rc))
                  (header_set e ''X-Tenant-Id'' (sanitizeHeader (TenantID rc)) h2)))))"

definition buildRequestHeaders ::
  "'w http_env \<Rightarrow> request_context option \<Rightarrow> invocation_input \<Rightarrow> string \<Rightarrow> string gomap" where
  "buildRequestHeaders e rctx input meth =
     custom_headers e (in_headers input) (standard_headers e rctx meth)"

fun extract_headers :: "(string \<Rightarrow> string) \<Rightarrow> string list \<Rightarrow> string gomap \<Rightarrow> string gomap" where
  "extract_headers get [] headers = headers"
| "extract_headers get (key # keys) headers =
     (if get key \<noteq> [] then extract_headers get keys (gput key (get key) headers)
      else extract_headers get keys headers)"

definition extractResponseHeaders :: "http_response \<Rightarrow> string gomap" where
  "extractResponseHeaders resp =
     extract_headers (rp_header resp)
       [''Content-Type'', ''X-Correlation-Id'', ''X-Trace-Id'', ''X-Request-Id'', ''Retry-After''] []"

subsection \<open>Classification and backoff\<close>

definition isIdempotentMethod :: "string \<Rightarrow> bool" where
  "isIdempotentMethod meth \<longleftrightarrow>
     meth \<in> {''GET'', ''PUT'', ''DELETE'', ''HEAD'', ''OPTIONS''}"

definition isRetryableStatus :: "int \<Rightarrow> bool" where
  "isRetryableStatus code \<longleftrightarrow> code = 500 \<or> code = 502 \<or> code = 503 \<or> code = 504"

definition isRetryableError :: "go_error \<Rightarrow> bool" where
  "isRetryableError err = (case as_envelope err of Some _ \<Rightarrow> False | None \<Rightarrow> True)"

definition isConnectionError :: "transport_error \<Rightarrow> bool" where
  "isConnectionError err = (if te_is_op_error err then True else te_is_dns_error err)"

definition backoff_defaults :: "retry_config \<Rightarrow> retry_config" where
  "backoff_defaults cfg =
     cfg\<lparr>rt_backoff_initial :=
           (if rt_backoff_initial cfg \<le> 0 then 100 * millisecond else rt_backoff_initial cfg),
         rt_backoff_multiplier :=
           (if rt_backoff_multiplier cfg \<le> 0 then 2 else rt_backoff_multiplier cfg),
         rt_backoff_max := (if rt_backoff_max cfg \<le> 0 then 2 * second else rt_backoff_max cfg)\<rparr>"

text \<open>The loop multiplies in float64 and stops at the maximum.\<close>

fun backoff_loop :: "golib \<Rightarrow> rat \<Rightarrow> int \<Rightarrow> nat \<Rightarrow> int \<Rightarrow> int" where
  "backoff_loop L factor maxDelay 0 delay = delay"
| "backoff_loop L factor maxDelay (Suc n) delay =
     (let delay' = int_of_float L (f64 (f64 (of_int delay) * factor)) in
      if delay' > maxDelay then maxDelay else backoff_loop L factor maxDelay n delay')"

definition calculateBackoff :: "golib \<Rightarrow> retry_config \<Rightarrow> nat \<Rightarrow> int" where
  "calculateBackoff L cfg0 attempt =
     (let cfg = backoff_defaults cfg0 in
      backoff_loop L (rt_backoff_multiplier cfg) (rt_backoff_max cfg) (attempt - 1)
        (rt_backoff_initial cfg))"

subsection \<open>One request, and the retry loop\<close>

definition read_limit :: nat where "read_limit = 10 * 2 ^ 20"

definition executeOnce ::
  "'w http_env \<Rightarrow> http_request \<Rightarrow> 'w \<Rightarrow> (go_error + invocation_result) \<times> 'w" where
  "executeOnce e req w =
     (case he_new_request_error e (hr_method req) (hr_url req) of
        Some err \<Rightarrow> (Inl (Wrap (''invoker: build request: '' @ error_message err) err), w)
      | None \<Rightarrow>
          (let (outcome, w1) = he_do e req w in
           case outcome of
             Inl err \<Rightarrow>
               (if isConnectionError err then (Inl (Envelope NewBackendUnavailableError), w1)
                else if he_ctx_err e w1 \<noteq> None then (Inl (Envelope NewBackendTimeoutError), w1)
                else (Inl (Wrap (''invoker: request failed: '' @ error_message (te_error err))
                             (te_error err)), w1))
           | Inr resp \<Rightarrow>
               (case rp_read resp read_limit of
                  Inl err \<Rightarrow> (Inl (Wrap (''invoker: read response: '' @ error_message err) err), w1)
                | Inr respBody \<Rightarrow>
                    (Inr \<lparr>res_status = rp_status resp,
                          res_body =
                            (if length respBody > 0
                             then (case he_unmarshal e respBody of Inl _ \<Rightarrow> GNil | Inr parsed \<Rightarrow> parsed)
                             else GNil),
                          res_headers = extractResponseHeaders resp\<rparr>, w1))))"

text \<open>
  \<open>n\<close> counts the iterations left, so that \<open>attempt + n = maxAttempts\<close>; with none left the loop
  has fallen through to the code after it.
\<close>

fun retry_loop ::
  "golib \<Rightarrow> 'w http_env \<Rightarrow> retry_config \<Rightarrow> bool \<Rightarrow> http_request \<Rightarrow> nat \<Rightarrow> nat \<Rightarrow>
   go_error option \<Rightarrow> invocation_result \<Rightarrow> 'w \<Rightarrow> (go_error + invocation_result) \<times> 'w" where
  "retry_loop L e cfg canRetry req attempt 0 lastErr lastResult w =
     (case lastErr of Some err \<Rightarrow> (Inl err, w) | None \<Rightarrow> (Inr lastResult, w))"
| "retry_loop L e cfg canRetry req attempt (Suc n) lastErr lastResult w =
     (let (cancelled, w1) =
        (if attempt > 0 then he_wait e (calculateBackoff L cfg attempt) w else (None, w)) in
      case cancelled of
        Some err \<Rightarrow> (Inl err, w1)
      | None \<Rightarrow>
          (let (r, w2) = executeOnce e req w1 in
           case r of
             Inl err \<Rightarrow>
               (if \<not> canRetry \<or> \<not> isRetryableError err then (Inl err, w2)
                else retry_loop L e cfg canRetry req (Suc attempt) n (Some err) lastResult w2)
           | Inr result \<Rightarrow>
               (if isRetryableStatus (res_status result) \<and> canRetry \<and> n > 0
                then retry_loop L e cfg canRetry req (Suc attempt) n lastErr result w2
                else (Inr result, w2))))"

definition zero_result :: invocation_result where
  "zero_result = \<lparr>res_status = 0, res_body = GNil, res_headers = []\<rparr>"

definition max_attempts :: "retry_config \<Rightarrow> nat" where
  "max_attempts cfg = (if rt_max_attempts cfg < 1 then 1 else nat (rt_max_attempts cfg))"

definition executeWithRetry ::
  "golib \<Rightarrow> 'w http_env \<Rightarrow> service_config \<Rightarrow> http_request \<Rightarrow> 'w \<Rightarrow>
   (go_error + invocation_result) \<times> 'w" where
  "executeWithRetry L e svc req w =
     (let cfg = sc_retry svc;
          canRetry = (isIdempotentMethod (hr_method req) \<or> \<not> rt_idempotent_only cfg)
      in retry_loop L e cfg canRetry req 0 (max_attempts cfg) None zero_result w)"

definition OpenAPISupports :: "operation_binding \<Rightarrow> bool" where
  "OpenAPISupports binding \<longleftrightarrow> ob_type binding = ''openapi''"

definition OpenAPIInvoke ::
  "golib \<Rightarrow> 'w http_env \<Rightarrow> index \<Rightarrow> service_config gomap \<Rightarrow> 'w invoke_fn" where
  "OpenAPIInvoke L e idx clients rctx binding input w =
     (case GetOperation idx (ob_service_id binding) (ob_operation_id binding) of
        None \<Rightarrow>
          (Inl (Plain (''invoker: operation '' @ ob_service_id binding @ ''/'' @
             ob_operation_id binding @ '' not found in OpenAPI index'')), w)
      | Some op \<Rightarrow>
          (case gget clients (ob_service_id binding) of
             None \<Rightarrow>
               (Inl (Plain (''invoker: service '' @ quote L (ob_service_id binding) @
                  '' not configured'')), w)
           | Some svc \<Rightarrow>
               (let url = buildRequestURL e op input;
                    headers = buildRequestHeaders e rctx input (ix_method op)
                in if in_body input \<noteq> GNil then
                     (case he_marshal e (in_body input) of
                        Inl err \<Rightarrow> (Inl (Wrap (''invoker: marshal body: '' @ error_message err) err), w)
                      | Inr bytes \<Rightarrow>
                          executeWithRetry L e svc
                            \<lparr>hr_method = ix_method op, hr_url = url, hr_header = headers,
                             hr_body = Some bytes\<rparr> w)
                   else
                     executeWithRetry L e svc
                       \<lparr>hr_method = ix_method op, hr_url = url, hr_header = headers,
                        hr_body = None\<rparr> w)))"

text \<open>The two invokers as main.go registers them.\<close>

definition openapi_invoker ::
  "golib \<Rightarrow> 'w http_env \<Rightarrow> index \<Rightarrow> service_config gomap \<Rightarrow> 'w operation_invoker" where
  "openapi_invoker L e idx clients =
     \<lparr>oi_supports = OpenAPISupports, oi_invoke = OpenAPIInvoke L e idx clients\<rparr>"

definition sdk_invoker :: "golib \<Rightarrow> 'w sdk_handler gomap \<Rightarrow> 'w operation_invoker" where
  "sdk_invoker L handlers = \<lparr>oi_supports = SDKSupports, oi_invoke = SDKInvoke L handlers\<rparr>"


subsection \<open>Dispatch\<close>

text \<open>
  What the registry needs of the invokers it holds: no binding is supported by two of them. Then
  the first one found is the only one, whatever the order of registration.
\<close>

locale exclusive_dispatch =
  fixes supports :: "'i \<Rightarrow> 'b \<Rightarrow> bool"
    and pool :: "'i list"
  assumes exclusive: "i \<in> set pool \<Longrightarrow> j \<in> set pool \<Longrightarrow> supports i b \<Longrightarrow> supports j b \<Longrightarrow> i = j"
begin

lemma found_iff:
  assumes "set js = set pool"
  shows "List.find (\<lambda>i. supports i b) js = Some i \<longleftrightarrow> i \<in> set pool \<and> supports i b"
proof
  assume "List.find (\<lambda>i. supports i b) js = Some i"
  then obtain us vs where "js = us @ i # vs" "supports i b" unfolding find_Some_first by blast
  moreover from this have "i \<in> set js" by simp
  ultimately show "i \<in> set pool \<and> supports i b" using assms by blast
next
  assume i: "i \<in> set pool \<and> supports i b"
  then have "List.find (\<lambda>i. supports i b) js \<noteq> None" using assms by (auto simp: find_None_iff)
  then obtain j where j: "List.find (\<lambda>i. supports i b) js = Some j" by blast
  then obtain us vs where "js = us @ j # vs" "supports j b" unfolding find_Some_first by blast
  moreover from this have "j \<in> set js" by simp
  ultimately have "j = i" using exclusive i assms by blast
  with j show "List.find (\<lambda>i. supports i b) js = Some i" by simp
qed

lemma find_order: "set js = set pool \<Longrightarrow> List.find (\<lambda>i. supports i b) js = List.find (\<lambda>i. supports i b) pool"
  using found_iff [of js b] found_iff [of pool b] by (metis option.exhaust)

end

lemma InvokeRegistry_find:
  "InvokeRegistry L invs rctx b input w =
     (case List.find (\<lambda>i. oi_supports i b) invs of
        Some i \<Rightarrow> oi_invoke i rctx b input w
      | None \<Rightarrow> (Inl (Plain (''invoker: no invoker supports binding type '' @ quote L (ob_type b))), w))"
  by (induction invs) auto

interpretation backends: exclusive_dispatch oi_supports
    "[openapi_invoker L e idx clients, sdk_invoker L handlers]"
  for L :: golib and e :: "'w http_env" and idx clients and handlers :: "'w sdk_handler gomap"
  by unfold_locales
     (auto simp: openapi_invoker_def sdk_invoker_def OpenAPISupports_def SDKSupports_def)

subsection \<open>The retry loop\<close>

text \<open>The same environment, with a log of the requests that were sent.\<close>

definition logging :: "'w http_env \<Rightarrow> ('w \<times> http_request list) http_env" where
  "logging e =
     \<lparr>he_new_request_error = he_new_request_error e,
      he_do = (\<lambda>req (w, sent). let (r, w') = he_do e req w in (r, (w', sent @ [req]))),
      he_ctx_err = (\<lambda>(w, sent). he_ctx_err e w),
      he_wait = (\<lambda>d (w, sent). let (c, w') = he_wait e d w in (c, (w', sent))),
      he_marshal = he_marshal e, he_unmarshal = he_unmarshal e,
      he_path_escape = he_path_escape e, he_encode_values = he_encode_values e,
      he_canonical = he_canonical e\<rparr>"

lemma executeOnce_log:
  "\<exists>k\<le>1. snd (snd (executeOnce (logging e) req (w, sent))) = sent @ replicate k req"
proof (cases "he_new_request_error e (hr_method req) (hr_url req)")
  case None
  then have "snd (snd (executeOnce (logging e) req (w, sent))) = sent @ replicate 1 req"
    by (auto simp: executeOnce_def logging_def Let_def split: sum.splits prod.splits)
  then show ?thesis by blast
next
  case (Some err)
  then have "snd (snd (executeOnce (logging e) req (w, sent))) = sent @ replicate 0 req"
    by (simp add: executeOnce_def logging_def)
  then show ?thesis by blast
qed

lemma replicate_add: "replicate m x @ replicate n x = replicate (m + n) x"
  by (simp add: replicate_add)

lemma wait_log:
  "snd (snd (if a > 0 then he_wait (logging e) d (w, sent) else (None, (w, sent)))) = sent"
  by (simp add: logging_def split: prod.splits)

lemma retry_loop_log:
  "\<exists>k. k \<le> n \<and> (\<not> canRetry \<longrightarrow> k \<le> 1) \<and>
     snd (snd (retry_loop L (logging e) cfg canRetry req a n le lr (w, sent))) = sent @ replicate k req"
proof (induction n arbitrary: a le lr w sent)
  case 0
  show ?case by (rule exI [of _ 0]) (simp split: option.splits)
next
  case (Suc n)
  obtain c w1 s1 where wt: "(if a > 0 then he_wait (logging e) (calculateBackoff L cfg a) (w, sent)
      else (None, (w, sent))) = (c, (w1, s1))"
    by (metis prod.exhaust)
  have s1: "s1 = sent" using wait_log [of a e "calculateBackoff L cfg a" w sent] wt by simp
  show ?case
  proof (cases c)
    case (Some err)
    with wt s1 show ?thesis by (intro exI [of _ 0]) (simp add: Let_def)
  next
    case None
    obtain r w2 s2 where ex: "executeOnce (logging e) req (w1, s1) = (r, (w2, s2))"
      by (metis prod.exhaust)
    obtain k1 where k1: "k1 \<le> 1" "s2 = sent @ replicate k1 req"
      using executeOnce_log [of e req w1 s1] ex s1 by auto
    let ?res = "retry_loop L (logging e) cfg canRetry req a (Suc n) le lr (w, sent)"
    have stop: "snd ?res = (w2, s2) \<Longrightarrow> ?thesis"
      using k1 by (intro exI [of _ k1]) auto
    have cont: "canRetry \<Longrightarrow> ?res = retry_loop L (logging e) cfg canRetry req (Suc a) n le' lr' (w2, s2) \<Longrightarrow>
        ?thesis" for le' lr'
    proof -
      assume cr: canRetry and eq: "?res = retry_loop L (logging e) cfg canRetry req (Suc a) n le' lr' (w2, s2)"
      obtain k where k: "k \<le> n"
        "snd (snd (retry_loop L (logging e) cfg canRetry req (Suc a) n le' lr' (w2, s2))) =
           s2 @ replicate k req"
        using Suc.IH by blast
      with k1 eq cr show ?thesis
        by (intro exI [of _ "k1 + k"]) (auto simp: replicate_add)
    qed
    show ?thesis
    proof (cases r)
      case (Inl err)
      then show ?thesis
        using stop cont [of "Some err" lr] wt None ex
        by (cases "\<not> canRetry \<or> \<not> isRetryableError err") (auto simp: Let_def)
    next
      case (Inr result)
      then show ?thesis
        using stop cont [of le result] wt None ex
        by (cases "isRetryableStatus (res_status result) \<and> canRetry \<and> n > 0") (auto simp: Let_def)
    qed
  qed
qed

text \<open>A result comes from the last request; the stored one is never returned.\<close>

lemma retry_loop_last:
  assumes "fst (retry_loop L e cfg canRetry req a n le lr w) = Inr res"
    and "n > 0 \<or> le \<noteq> None"
  shows "\<exists>w1. executeOnce e req w1 = (Inr res, snd (retry_loop L e cfg canRetry req a n le lr w))"
  using assms
proof (induction n arbitrary: a le lr w)
  case 0
  then show ?case by (auto split: option.splits)
next
  case (Suc n)
  obtain c w1 where wt: "(if a > 0 then he_wait e (calculateBackoff L cfg a) w else (None, w)) = (c, w1)"
    by (metis prod.exhaust)
  have c: "c = None" using Suc.prems(1) wt by (cases c) (auto simp: Let_def)
  obtain r w2 where ex: "executeOnce e req w1 = (r, w2)" by (metis prod.exhaust)
  show ?case
  proof (cases r)
    case (Inl err)
    have go: "canRetry" "isRetryableError err"
      using Suc.prems(1) wt c ex Inl by (auto simp: Let_def split: if_splits)
    with Suc.IH [of "Suc a" "Some err" lr w2] Suc.prems(1) wt c ex Inl show ?thesis
      by (auto simp: Let_def)
  next
    case (Inr result)
    show ?thesis
    proof (cases "isRetryableStatus (res_status result) \<and> canRetry \<and> n > 0")
      case True
      with Suc.IH [of "Suc a" le result w2] Suc.prems(1) wt c ex Inr show ?thesis
        by (auto simp: Let_def)
    next
      case False
      with Suc.prems(1) wt c ex Inr show ?thesis by (auto simp: Let_def)
    qed
  qed
qed

lemma max_attempts_pos: "0 < max_attempts cfg"
  by (simp add: max_attempts_def)

subsection \<open>Headers and URLs\<close>

definition header_safe :: "string \<Rightarrow> bool" where
  "header_safe s \<longleftrightarrow> CHR 0x0D \<notin> set s \<and> CHR 0x0A \<notin> set s"

lemma sanitizeHeader_filter: "sanitizeHeader s = filter (\<lambda>c. c \<noteq> CHR 0x0A) (filter (\<lambda>c. c \<noteq> CHR 0x0D) s)"
  by (simp add: sanitizeHeader_def replace_all_delete_char)

lemma sanitize_safe [simp]: "header_safe (sanitizeHeader s)"
  by (simp add: header_safe_def sanitizeHeader_filter)

lemma sanitize_id: "header_safe s \<Longrightarrow> sanitizeHeader s = s"
  by (auto simp: header_safe_def sanitizeHeader_filter filter_id_conv)

definition headers_safe :: "'w http_env \<Rightarrow> string gomap \<Rightarrow> bool" where
  "headers_safe e h \<longleftrightarrow>
     (\<forall>(k, v)\<in>set h. header_safe v \<and> (\<exists>k0. header_safe k0 \<and> k = he_canonical e k0))"

lemma headers_safe_Nil [simp]: "headers_safe e []"
  by (simp add: headers_safe_def)

lemma headers_safe_set [intro]:
  assumes "headers_safe e h" and "header_safe k" and "header_safe v"
  shows "headers_safe e (header_set e k v h)"
proof -
  have upd: "(a, b) \<in> set (gput x y m) \<Longrightarrow> (a, b) = (x, y) \<or> (a, b) \<in> set m" for a b x y and m :: "string gomap"
    by (induction m) (auto split: if_splits)
  show ?thesis
    unfolding headers_safe_def header_set_def
  proof (intro ballI, clarify)
    fix a b
    assume "(a, b) \<in> set (gput (he_canonical e k) v h)"
    then have "(a, b) = (he_canonical e k, v) \<or> (a, b) \<in> set h" by (rule upd)
    with assms show "header_safe b \<and> (\<exists>k0. header_safe k0 \<and> a = he_canonical e k0)"
      by (auto simp: headers_safe_def)
  qed
qed

lemma header_safe_const:
  "header_safe ''Accept''" "header_safe ''Content-Type''" "header_safe ''application/json''"
  "header_safe ''Authorization''" "header_safe ''X-Tenant-Id''" "header_safe ''X-Partition-Id''"
  "header_safe ''X-Correlation-Id''" "header_safe ''X-Request-Subject''"
  by (simp_all add: header_safe_def)

lemma header_safe_bearer: "header_safe (''Bearer '' @ sanitizeHeader v)"
  using sanitize_safe [of v] by (simp add: header_safe_def)

lemma headers_safe_standard: "headers_safe e (standard_headers e rctx meth)"
  unfolding standard_headers_def Let_def
  by (cases rctx)
     (simp_all add: headers_safe_set header_safe_const header_safe_bearer [simplified])

lemma headers_safe_custom: "headers_safe e h \<Longrightarrow> headers_safe e (custom_headers e hs h)"
  by (induction e hs h rule: custom_headers.induct) (simp_all add: headers_safe_set)

lemma count_replace_all:
  "c \<notin> set old \<Longrightarrow> c \<notin> set new \<Longrightarrow> count (mset (replace_all old new s)) c = count (mset s) c"
proof (induction old new s rule: replace_all.induct)
  case (1 old new)
  show ?case by simp
next
  case (2 old new x xs)
  show ?case
  proof (cases "old \<noteq> [] \<and> prefix old (x # xs)")
    case False
    with 2 show ?thesis by auto
  next
    case True
    then obtain r where r: "x # xs = old @ r" by (auto simp: prefix_def)
    with True have "drop (length old - 1) xs = r" by (cases old) auto
    moreover have "count (mset (x # xs)) c = count (mset r) c"
      using "2.prems"(1) by (simp only: r) (simp add: count_eq_zero_iff)
    moreover have "count (mset new) c = 0" using "2.prems"(2) by (simp add: count_eq_zero_iff)
    ultimately show ?thesis using 2 True by simp
  qed
qed

lemma count_substitute_path:
  assumes "\<And>v. c \<notin> set (esc v)" and "c \<noteq> CHR 0x7B" and "c \<noteq> CHR 0x7D"
  shows "(\<forall>(name, v)\<in>set ps. c \<notin> set name) \<Longrightarrow>
    count (mset (substitute_path esc ps path)) c = count (mset path) c"
  by (induction ps arbitrary: path) (use assms in \<open>auto simp: count_replace_all\<close>)


lemma backoff_loop_le: "0 < n \<Longrightarrow> backoff_loop L factor m n d \<le> m"
proof (induction L factor m n d rule: backoff_loop.induct)
  case (1 L factor m d)
  then show ?case by simp
next
  case (2 L factor m n d)
  then show ?case by (cases n) (auto simp: Let_def)
qed

subsection \<open>Properties\<close>

text \<open>An environment whose backend always gives the same answer.\<close>

definition fixed_env :: "transport_error + http_response \<Rightarrow> unit http_env" where
  "fixed_env answer =
     \<lparr>he_new_request_error = (\<lambda>_ _. None), he_do = (\<lambda>_ w. (answer, w)), he_ctx_err = (\<lambda>_. None),
      he_wait = (\<lambda>_ w. (None, w)), he_marshal = (\<lambda>_. Inr ''{}''),
      he_unmarshal = (\<lambda>_. Inr (GMap [])), he_path_escape = (\<lambda>s. filter (\<lambda>c. c \<noteq> CHR 0x2F) s),
      he_encode_values = (\<lambda>_. []), he_canonical = (\<lambda>s. s)\<rparr>"

definition answer_with :: "int \<Rightarrow> transport_error + http_response" where
  "answer_with code = Inr \<lparr>rp_status = code, rp_header = (\<lambda>_. []), rp_read = (\<lambda>_. Inr [])\<rparr>"

definition demo_service :: "int \<Rightarrow> bool \<Rightarrow> service_config" where
  "demo_service n idem = \<lparr>sc_base_url = [], sc_timeout = 0,
     sc_retry = \<lparr>rt_max_attempts = n, rt_backoff_initial = 0, rt_backoff_multiplier = 0,
       rt_backoff_max = 0, rt_idempotent_only = idem\<rparr>, sc_authorization_namespace = []\<rparr>"

definition demo_request :: "string \<Rightarrow> http_request" where
  "demo_request meth = \<lparr>hr_method = meth, hr_url = ''http://orders/orders'', hr_header = [], hr_body = None\<rparr>"

text \<open>
  C31. An invocation sends the same request at most as often as the service is configured to be
  tried: whatever the backend, the waits and the context do, the requests sent are copies of one
  request, at most MaxAttempts of them, and at most one when MaxAttempts is below one.
\<close>

theorem retry_bounded:
  "\<exists>k. int k \<le> max 1 (rt_max_attempts (sc_retry svc)) \<and>
     snd (snd (executeWithRetry L (logging e) svc req (w, []))) = replicate k req"
  using retry_loop_log [of "max_attempts (sc_retry svc)"
      "isIdempotentMethod (hr_method req) \<or> \<not> rt_idempotent_only (sc_retry svc)" L e "sc_retry svc" req
      0 None zero_result w "[]"]
  by (auto simp: executeWithRetry_def max_attempts_def Let_def nat_le_iff le_nat_iff split: if_splits)

text \<open>
  A request whose method is not idempotent is sent at most once to a service that is
  configured to retry idempotent requests only.
\<close>

theorem unsafe_not_retried:
  assumes "\<not> isIdempotentMethod (hr_method req)" and "rt_idempotent_only (sc_retry svc)"
  shows "length (snd (snd (executeWithRetry L (logging e) svc req (w, [])))) \<le> 1"
  using retry_loop_log [of "max_attempts (sc_retry svc)" False L e "sc_retry svc" req
      0 None zero_result w "[]"] assms
  by (auto simp: executeWithRetry_def Let_def)

theorem unsafe_not_retried_witness:
  "length (snd (snd (executeWithRetry demo_lib (logging (fixed_env (answer_with 503)))
     (demo_service 5 True) (demo_request ''POST'') ((), [])))) \<le> 1"
  by (rule unsafe_not_retried) (simp_all add: isIdempotentMethod_def demo_request_def demo_service_def)

text \<open>
  A result is the answer to the last request that was sent: never a remembered earlier one,
  and never the zero value the loop starts from.
\<close>

theorem retry_result_is_last:
  assumes "executeWithRetry L e svc req w = (Inr res, w')"
  shows "\<exists>w1. executeOnce e req w1 = (Inr res, w')"
  using retry_loop_last [of L e "sc_retry svc"
      "isIdempotentMethod (hr_method req) \<or> \<not> rt_idempotent_only (sc_retry svc)" req 0 "max_attempts (sc_retry svc)" None zero_result w res]
    assms max_attempts_pos [of "sc_retry svc"]
  by (auto simp: executeWithRetry_def Let_def)

theorem retry_result_is_last_witness:
  "\<exists>w1. executeOnce (fixed_env (answer_with 200)) (demo_request ''GET'') w1 =
     (Inr \<lparr>res_status = 200, res_body = GNil, res_headers = []\<rparr>, ())"
  by (rule retry_result_is_last [where L = demo_lib and svc = "demo_service 1 True" and w = "()"])
     (simp add: executeWithRetry_def executeOnce_def Let_def demo_service_def demo_request_def
        fixed_env_def answer_with_def max_attempts_def extractResponseHeaders_def isRetryableStatus_def)

text \<open>
  From the second retry on, the wait before an attempt is at most the configured maximum.
\<close>

theorem backoff_bounded:
  assumes "attempt \<ge> 2"
  shows "calculateBackoff L cfg attempt \<le> rt_backoff_max (backoff_defaults cfg)"
  using assms by (simp add: calculateBackoff_def Let_def backoff_loop_le)

theorem backoff_bounded_witness:
  "calculateBackoff demo_lib (sc_retry (demo_service 5 True)) 3 \<le>
     rt_backoff_max (backoff_defaults (sc_retry (demo_service 5 True)))"
  by (rule backoff_bounded) simp

text \<open>
  The first wait is the initial delay, not bounded by the maximum.
\<close>

theorem first_backoff_unbounded:
  "calculateBackoff L \<lparr>rt_max_attempts = 3, rt_backoff_initial = 10 * second,
     rt_backoff_multiplier = 2, rt_backoff_max = second, rt_idempotent_only = False\<rparr> 1 = 10 * second"
  by (simp add: calculateBackoff_def backoff_defaults_def second_def
      millisecond_def Let_def)

text \<open>
  C33. No header of a request carries a carriage return or a line feed, neither in its value nor in
  the key given to the header map, whatever the context, the token and the mapped headers hold.
\<close>

theorem no_header_injection: "headers_safe e (buildRequestHeaders e rctx input meth)"
  unfolding buildRequestHeaders_def by (intro headers_safe_custom headers_safe_standard)

text \<open>
  C32. Path parameters cannot add path segments, nor begin a query or a fragment: the URL is the base
  URL, a path and the encoded query, and each of the slash, the question mark and the hash occurs in that
  path exactly as often as in the template of the operation, in whatever order the parameters are
  visited, if escaping never produces it, as \<open>url.PathEscape\<close>, and the parameter names do not contain it.
\<close>

theorem path_segments_fixed:
  assumes "c \<in> {CHR ''/'', CHR 0x3F, CHR 0x23}"
    and "\<And>v. c \<notin> set (he_path_escape e v)" and "\<forall>(name, v)\<in>set (in_path input). c \<notin> set name"
  shows "\<exists>path. buildRequestURL e op input = ix_base_url op @ path @
      (if in_query input = [] then []
       else ''?'' @ he_encode_values e (fold (\<lambda>(k, v) params. gput k v params) (in_query input) [])) \<and>
    count (mset path) c = count (mset (ix_path_template op)) c"
  using assms count_substitute_path [of c "he_path_escape e" "in_path input"]
  by (intro exI [of _ "substitute_path (he_path_escape e) (in_path input) (ix_path_template op)"])
    (auto simp: buildRequestURL_def Let_def)

theorem path_segments_fixed_witness:
  "\<exists>path. buildRequestURL (fixed_env (answer_with 200)) (the (GetOperation demo_index ''orders-svc'' ''getOrder''))
       (empty_input\<lparr>in_path := [(''id'', ''../admin'')], in_query := [(''q'', ''x'')]\<rparr>) =
     ix_base_url (the (GetOperation demo_index ''orders-svc'' ''getOrder'')) @ path @ ''?'' \<and>
     count (mset path) CHR ''/'' =
     count (mset (ix_path_template (the (GetOperation demo_index ''orders-svc'' ''getOrder'')))) CHR ''/''"
  using path_segments_fixed [of "CHR ''/''" "fixed_env (answer_with 200)"
      "empty_input\<lparr>in_path := [(''id'', ''../admin'')], in_query := [(''q'', ''x'')]\<rparr>"
      "the (GetOperation demo_index ''orders-svc'' ''getOrder'')"]
  by (simp add: fixed_env_def empty_input_def)

text \<open>
  The order in which the two invokers are registered does not matter: no binding is taken by
  both.
\<close>

theorem dispatch_order:
  assumes "set invs = set [openapi_invoker L e idx clients, sdk_invoker L handlers]"
  shows "InvokeRegistry L invs =
    InvokeRegistry L [openapi_invoker L e idx clients, sdk_invoker L handlers]"
  by (intro ext) (simp only: InvokeRegistry_find backends.find_order [OF assms])

theorem dispatch_order_witness:
  "InvokeRegistry demo_lib [sdk_invoker demo_lib [], openapi_invoker demo_lib (fixed_env (answer_with 200)) NewIndex []] =
    InvokeRegistry demo_lib [openapi_invoker demo_lib (fixed_env (answer_with 200)) NewIndex [], sdk_invoker demo_lib []]"
  by (rule dispatch_order) auto

end
