(* ===== verification/Validator.thy ===== *)
theory Validator imports Registry OpenAPIIndex begin

section \<open>Validation of definitions (pkg/definition/validator.go)\<close>

text \<open>
  One function per method of \<open>Validator\<close>, each returning its list of errors in the order the code
  appends them. \<open>L\<close> supplies the verb q. The sets of form, command and lookup ids are the maps
  the code builds; the one for lookups is built and never read. The index is optional.
\<close>

record verror =
  verr_path :: string
  verr_code :: string
  verr_message :: string

definition verr :: "string \<Rightarrow> string \<Rightarrow> string \<Rightarrow> verror" where
  "verr path code msg = \<lparr>verr_path = path, verr_code = code, verr_message = msg\<rparr>"

definition verror_text :: "verror \<Rightarrow> string" where
  "verror_text e = verr_path e @ '': '' @ verr_message e"

definition id_set :: "('a \<Rightarrow> string) \<Rightarrow> 'a list \<Rightarrow> bool gomap" where
  "id_set ident xs = fold (\<lambda>x m. gput (ident x) True m) xs []"

text \<open>Indexing a \<open>map[string]bool\<close>: absent keys read as false.\<close>

definition has_id :: "bool gomap \<Rightarrow> string \<Rightarrow> bool" where
  "has_id m k = (case gget m k of None \<Rightarrow> False | Some b \<Rightarrow> b)"

definition at_index :: "string \<Rightarrow> nat \<Rightarrow> string" where
  "at_index field i = field @ ''['' @ dec_nat i @ '']''"

definition validPageLayouts :: "string list" where
  "validPageLayouts = [''list'', ''detail'', ''dashboard'', ''custom'', ''table'']"

text \<open>The check of an operation id against the index, shared by tables and commands.\<close>

definition operation_errors ::
  "golib \<Rightarrow> string \<Rightarrow> index \<Rightarrow> string \<Rightarrow> string \<Rightarrow> string \<Rightarrow> verror list" where
  "operation_errors L path idx domain service operation =
     (let serviceID = (if service = [] then domain @ ''-svc'' else service) in
      if GetOperation idx serviceID operation = None
      then [verr path ''OPERATION_NOT_FOUND''
              (''operation '' @ quote L operation @ '' not found in service '' @ quote L serviceID)]
      else [])"

definition validateTable ::
  "golib \<Rightarrow> string \<Rightarrow> table_definition \<Rightarrow> string \<Rightarrow> index option \<Rightarrow> verror list" where
  "validateTable L pre t domain index =
     (if length (td_columns t) = 0
      then [verr (pre @ ''.columns'') ''REQUIRED'' ''at least one column is required''] else []) @
     (if td_page_size t < 0 \<or> td_page_size t > 200
      then [verr (pre @ ''.page_size'') ''RANGE'' ''page_size must be 0-200''] else []) @
     (case index of
        None \<Rightarrow> []
      | Some idx \<Rightarrow>
          if ds_operation_id (td_data_source t) \<noteq> []
          then operation_errors L (pre @ ''.data_source.operation_id'') idx domain
                 (ds_service_id (td_data_source t)) (ds_operation_id (td_data_source t))
          else [])"

definition validatePage ::
  "golib \<Rightarrow> string \<Rightarrow> page_definition \<Rightarrow> string \<Rightarrow> index option \<Rightarrow> verror list" where
  "validatePage L pre p domain index =
     (if pd_id p = [] then [verr (pre @ ''.id'') ''REQUIRED'' ''id is required''] else []) @
     (if pd_title p = [] then [verr (pre @ ''.title'') ''REQUIRED'' ''title is required''] else []) @
     (if pd_layout p = []
      then [verr (pre @ ''.layout'') ''REQUIRED'' ''layout is required'']
      else if pd_layout p \<notin> set validPageLayouts
      then [verr (pre @ ''.layout'') ''INVALID_ENUM'' (''invalid layout '' @ quote L (pd_layout p))]
      else []) @
     (if (pd_layout p = ''list'' \<or> pd_layout p = ''table'') \<and> pd_table p = None
      then [verr (pre @ ''.table'') ''REQUIRED''
              (''table is required for '' @ pd_layout p @ '' layout'')]
      else []) @
     (case pd_table p of None \<Rightarrow> [] | Some t \<Rightarrow> validateTable L (pre @ ''.table'') t domain index)"

definition validateForm ::
  "golib \<Rightarrow> string \<Rightarrow> form_definition \<Rightarrow> bool gomap \<Rightarrow> verror list" where
  "validateForm L pre f commandIDs =
     (if fm_id f = [] then [verr (pre @ ''.id'') ''REQUIRED'' ''id is required''] else []) @
     (if fm_title f = [] then [verr (pre @ ''.title'') ''REQUIRED'' ''title is required''] else []) @
     (if fm_submit_command f = []
      then [verr (pre @ ''.submit_command'') ''REQUIRED'' ''submit_command is required'']
      else if \<not> has_id commandIDs (fm_submit_command f)
      then [verr (pre @ ''.submit_command'') ''REF_NOT_FOUND''
              (''command '' @ quote L (fm_submit_command f) @ '' not found in domain'')]
      else []) @
     (if length (fm_sections f) = 0
      then [verr (pre @ ''.sections'') ''REQUIRED'' ''at least one section is required''] else [])"

definition validateCommand ::
  "golib \<Rightarrow> string \<Rightarrow> command_definition \<Rightarrow> string \<Rightarrow> index option \<Rightarrow> verror list" where
  "validateCommand L pre c domain index =
     (let opType = ob_type (cm_operation c) in
      (if cm_id c = [] then [verr (pre @ ''.id'') ''REQUIRED'' ''id is required''] else []) @
      (if opType = []
       then [verr (pre @ ''.operation.type'') ''REQUIRED'' ''operation.type is required'']
       else if opType \<noteq> ''openapi'' \<and> opType \<noteq> ''sdk''
       then [verr (pre @ ''.operation.type'') ''INVALID_ENUM''
               (''invalid operation type '' @ quote L opType)]
       else []) @
      (if opType = ''openapi'' \<and> ob_operation_id (cm_operation c) = []
       then [verr (pre @ ''.operation.operation_id'') ''REQUIRED''
               ''operation_id required for openapi type'']
       else []) @
      (if opType = ''sdk'' \<and> ob_handler (cm_operation c) = []
       then [verr (pre @ ''.operation.handler'') ''REQUIRED'' ''handler required for sdk type'']
       else []) @
      (case index of
         None \<Rightarrow> []
       | Some idx \<Rightarrow>
           if opType = ''openapi'' \<and> ob_operation_id (cm_operation c) \<noteq> []
           then operation_errors L (pre @ ''.operation.operation_id'') idx domain
                  (ob_service_id (cm_operation c)) (ob_operation_id (cm_operation c))
           else []))"

definition validateActionRef ::
  "golib \<Rightarrow> string \<Rightarrow> action_definition \<Rightarrow> bool gomap \<Rightarrow> bool gomap \<Rightarrow> verror list" where
  "validateActionRef L pre a formIDs commandIDs =
     (if ad_type a = ''form'' then
        (if ad_form_id a \<noteq> [] \<and> \<not> has_id formIDs (ad_form_id a)
         then [verr (pre @ ''.form_id'') ''REF_NOT_FOUND''
                 (''form '' @ quote L (ad_form_id a) @ '' not found'')] else [])
      else if ad_type a = ''command'' \<or> ad_type a = ''confirm'' then
        (if ad_command_id a \<noteq> [] \<and> \<not> has_id commandIDs (ad_command_id a)
         then [verr (pre @ ''.command_id'') ''REF_NOT_FOUND''
                 (''command '' @ quote L (ad_command_id a) @ '' not found'')] else [])
      else [])"

text \<open>A loop \<open>for i, x := range xs\<close> that appends the errors of each element.\<close>

fun each_from :: "nat \<Rightarrow> (nat \<Rightarrow> 'a \<Rightarrow> 'b list) \<Rightarrow> 'a list \<Rightarrow> 'b list" where
  "each_from i f [] = []"
| "each_from i f (x # xs) = f i x @ each_from (Suc i) f xs"

fun capability_format_errors ::
  "golib \<Rightarrow> string \<Rightarrow> string \<Rightarrow> string list \<Rightarrow> verror list" where
  "capability_format_errors L path domain [] = []"
| "capability_format_errors L path domain (cap # caps) =
     (if cap \<noteq> ''*'' \<and> \<not> contains cap '':''
      then [verr path ''INVALID_FORMAT''
              (''capability '' @ quote L cap @ '' must contain a colon separator (e.g. '' @
               quote L (domain @ '':view'') @ '')'')]
      else []) @ capability_format_errors L path domain caps"

definition validateDomain ::
  "golib \<Rightarrow> string \<Rightarrow> domain_definition \<Rightarrow> index option \<Rightarrow> verror list" where
  "validateDomain L pre def index =
     (let formIDs = id_set fm_id (dd_forms def);
          commandIDs = id_set cm_id (dd_commands def);
          lookupIDs = id_set lu_id (dd_lookups def) in
      (if dd_domain def = [] then [verr (pre @ ''.domain'') ''REQUIRED'' ''domain is required'']
       else []) @
      (if dd_version def = [] then [verr (pre @ ''.version'') ''REQUIRED'' ''version is required'']
       else []) @
      (if nd_label (dd_navigation def) = []
       then [verr (pre @ ''.navigation.label'') ''REQUIRED'' ''navigation.label is required'']
       else []) @
      (if length (nd_children (dd_navigation def)) = 0
       then [verr (pre @ ''.navigation.children'') ''REQUIRED''
               ''at least one navigation child is required'']
       else []) @
      each_from 0 (\<lambda>i p. validatePage L (at_index (pre @ ''.pages'') i) p (dd_domain def) index)
        (dd_pages def) @
      each_from 0 (\<lambda>i f. validateForm L (at_index (pre @ ''.forms'') i) f commandIDs)
        (dd_forms def) @
      each_from 0 (\<lambda>i c. validateCommand L (at_index (pre @ ''.commands'') i) c (dd_domain def) index)
        (dd_commands def) @
      each_from 0 (\<lambda>i p. each_from 0 (\<lambda>j action.
          validateActionRef L (at_index (at_index (pre @ ''.pages'') i @ ''.actions'') j) action
            formIDs commandIDs) (pd_actions p))
        (dd_pages def) @
      each_from 0 (\<lambda>i p. capability_format_errors L (at_index (pre @ ''.pages'') i @ ''.capabilities'')
          (dd_domain def) (pd_capabilities p))
        (dd_pages def))"

definition ValidateDefs ::
  "golib \<Rightarrow> domain_definition list \<Rightarrow> index option \<Rightarrow> verror list" where
  "ValidateDefs L defs index =
     each_from 0 (\<lambda>i def. validateDomain L (at_index ''definitions'' i) def index) defs"

subsection \<open>What an empty list of errors means\<close>

definition operation_known :: "index option \<Rightarrow> string \<Rightarrow> string \<Rightarrow> string \<Rightarrow> bool" where
  "operation_known index domain service operation \<longleftrightarrow>
     (case index of
        None \<Rightarrow> True
      | Some idx \<Rightarrow>
          GetOperation idx (if service = [] then domain @ ''-svc'' else service) operation \<noteq> None)"

definition wf_table :: "index option \<Rightarrow> string \<Rightarrow> table_definition \<Rightarrow> bool" where
  "wf_table index domain t \<longleftrightarrow>
     td_columns t \<noteq> [] \<and> 0 \<le> td_page_size t \<and> td_page_size t \<le> 200 \<and>
     (ds_operation_id (td_data_source t) \<noteq> [] \<longrightarrow>
        operation_known index domain (ds_service_id (td_data_source t))
          (ds_operation_id (td_data_source t)))"

definition wf_page :: "index option \<Rightarrow> string \<Rightarrow> page_definition \<Rightarrow> bool" where
  "wf_page index domain p \<longleftrightarrow>
     pd_id p \<noteq> [] \<and> pd_title p \<noteq> [] \<and> pd_layout p \<in> set validPageLayouts \<and>
     (pd_layout p \<in> {''list'', ''table''} \<longrightarrow> pd_table p \<noteq> None) \<and>
     (\<forall>t. pd_table p = Some t \<longrightarrow> wf_table index domain t) \<and>
     (\<forall>cap\<in>set (pd_capabilities p). cap = ''*'' \<or> CHR '':'' \<in> set cap)"

definition wf_form :: "string set \<Rightarrow> form_definition \<Rightarrow> bool" where
  "wf_form commands f \<longleftrightarrow>
     fm_id f \<noteq> [] \<and> fm_title f \<noteq> [] \<and> fm_submit_command f \<noteq> [] \<and>
     fm_submit_command f \<in> commands \<and> fm_sections f \<noteq> []"

definition wf_command :: "index option \<Rightarrow> string \<Rightarrow> command_definition \<Rightarrow> bool" where
  "wf_command index domain c \<longleftrightarrow>
     cm_id c \<noteq> [] \<and>
     (ob_type (cm_operation c) = ''openapi'' \<and> ob_operation_id (cm_operation c) \<noteq> [] \<and>
        operation_known index domain (ob_service_id (cm_operation c))
          (ob_operation_id (cm_operation c)) \<or>
      ob_type (cm_operation c) = ''sdk'' \<and> ob_handler (cm_operation c) \<noteq> [])"

definition wf_action :: "string set \<Rightarrow> string set \<Rightarrow> action_definition \<Rightarrow> bool" where
  "wf_action forms commands a \<longleftrightarrow>
     (ad_type a = ''form'' \<and> ad_form_id a \<noteq> [] \<longrightarrow> ad_form_id a \<in> forms) \<and>
     (ad_type a \<in> {''command'', ''confirm''} \<and> ad_command_id a \<noteq> [] \<longrightarrow>
        ad_command_id a \<in> commands)"

definition wf_domain :: "index option \<Rightarrow> domain_definition \<Rightarrow> bool" where
  "wf_domain index def \<longleftrightarrow>
     dd_domain def \<noteq> [] \<and> dd_version def \<noteq> [] \<and> nd_label (dd_navigation def) \<noteq> [] \<and>
     nd_children (dd_navigation def) \<noteq> [] \<and>
     (\<forall>p\<in>set (dd_pages def). wf_page index (dd_domain def) p \<and>
        (\<forall>a\<in>set (pd_actions p).
           wf_action (fm_id ` set (dd_forms def)) (cm_id ` set (dd_commands def)) a)) \<and>
     (\<forall>f\<in>set (dd_forms def). wf_form (cm_id ` set (dd_commands def)) f) \<and>
     (\<forall>c\<in>set (dd_commands def). wf_command index (dd_domain def) c)"

lemma has_id_id_set: "has_id (id_set ident xs) k \<longleftrightarrow> k \<in> ident ` set xs"
proof -
  have "has_id (fold (\<lambda>x m. gput (ident x) True m) xs m0) k \<longleftrightarrow> k \<in> ident ` set xs \<or> has_id m0 k"
    for m0
  proof (induction xs arbitrary: m0)
    case Nil
    show ?case by simp
  next
    case (Cons x xs)
    have "has_id (gput (ident x) True m0) k \<longleftrightarrow> k = ident x \<or> has_id m0 k"
      by (simp add: has_id_def gget_gput)
    then show ?case by (auto simp: Cons.IH)
  qed
  then show ?thesis by (simp add: id_set_def has_id_def)
qed

lemma each_from_Nil:
  "each_from i f xs = [] \<longleftrightarrow> (\<forall>j<length xs. f (i + j) (xs ! j) = [])"
proof (induction xs arbitrary: i)
  case Nil
  show ?case by simp
next
  case (Cons x xs)
  show ?case
  proof
    assume *: "each_from i f (x # xs) = []"
    show "\<forall>j<length (x # xs). f (i + j) ((x # xs) ! j) = []"
    proof (intro allI impI)
      fix j
      assume "j < length (x # xs)"
      then show "f (i + j) ((x # xs) ! j) = []"
        using * Cons.IH [of "Suc i"] by (cases j) auto
    qed
  next
    assume *: "\<forall>j<length (x # xs). f (i + j) ((x # xs) ! j) = []"
    have "f i x = []" using *[rule_format, of 0] by simp
    moreover have "\<forall>j<length xs. f (Suc i + j) (xs ! j) = []"
    proof (intro allI impI)
      fix j
      assume "j < length xs"
      then show "f (Suc i + j) (xs ! j) = []" using *[rule_format, of "Suc j"] by simp
    qed
    ultimately show "each_from i f (x # xs) = []" using Cons.IH [of "Suc i"] by simp
  qed
qed

lemma each_from_Nil_set:
  assumes "\<And>i x. f i x = [] \<longleftrightarrow> P x"
  shows "each_from i f xs = [] \<longleftrightarrow> (\<forall>x\<in>set xs. P x)"
  by (induction xs arbitrary: i) (auto simp: assms)

lemma operation_errors_Nil:
  "operation_errors L path idx domain s i = [] \<longleftrightarrow> operation_known (Some idx) domain s i"
  by (simp add: operation_errors_def operation_known_def Let_def)

lemma validateTable_Nil: "validateTable L pre t domain index = [] \<longleftrightarrow> wf_table index domain t"
  by (cases index)
     (auto simp: validateTable_def wf_table_def operation_errors_Nil operation_known_def)

lemma contains_char: "contains s [c] \<longleftrightarrow> c \<in> set s"
  by (induction s) auto

lemma capability_format_Nil:
  "capability_format_errors L path domain caps = [] \<longleftrightarrow>
     (\<forall>cap\<in>set caps. cap = ''*'' \<or> CHR '':'' \<in> set cap)"
  by (induction caps) (auto simp: contains_char)

lemma validatePage_Nil:
  "validatePage L pre p domain index = [] \<and>
     capability_format_errors L path domain (pd_capabilities p) = [] \<longleftrightarrow> wf_page index domain p"
  by (cases "pd_table p")
     (auto simp: validatePage_def wf_page_def validateTable_Nil capability_format_Nil validPageLayouts_def)

lemma validateForm_Nil:
  "validateForm L pre f (id_set cm_id cs) = [] \<longleftrightarrow> wf_form (cm_id ` set cs) f"
  by (auto simp: validateForm_def wf_form_def has_id_id_set)

lemma validateCommand_Nil: "validateCommand L pre c domain index = [] \<longleftrightarrow> wf_command index domain c"
  by (cases index)
     (auto simp: validateCommand_def wf_command_def operation_errors_Nil operation_known_def Let_def)

lemma validateActionRef_Nil:
  "validateActionRef L pre a (id_set fm_id fs) (id_set cm_id cs) = [] \<longleftrightarrow>
     wf_action (fm_id ` set fs) (cm_id ` set cs) a"
  by (auto simp: validateActionRef_def wf_action_def has_id_id_set)

lemma validateDomain_Nil: "validateDomain L pre def index = [] \<longleftrightarrow> wf_domain index def"
proof -
  have pages: "each_from 0 (\<lambda>i p. validatePage L (g i) p d index) ps = [] \<and>
      each_from 0 (\<lambda>i p. capability_format_errors L (h i) d (pd_capabilities p)) ps = [] \<longleftrightarrow>
      (\<forall>p\<in>set ps. wf_page index d p)" for g h d ps
    using validatePage_Nil
    by (auto simp: each_from_Nil all_set_conv_all_nth) blast+
  have actions: "each_from 0 (\<lambda>i p. each_from 0 (\<lambda>j a. validateActionRef L (g i j) a
        (id_set fm_id fs) (id_set cm_id cs)) (pd_actions p)) ps = [] \<longleftrightarrow>
      (\<forall>p\<in>set ps. \<forall>a\<in>set (pd_actions p). wf_action (fm_id ` set fs) (cm_id ` set cs) a)" for g fs cs ps
    by (intro each_from_Nil_set validateActionRef_Nil)
  have forms: "each_from 0 (\<lambda>i f. validateForm L (g i) f (id_set cm_id cs)) fs = [] \<longleftrightarrow>
      (\<forall>f\<in>set fs. wf_form (cm_id ` set cs) f)" for g fs cs
    by (intro each_from_Nil_set validateForm_Nil)
  have commands: "each_from 0 (\<lambda>i c. validateCommand L (g i) c d index) cs = [] \<longleftrightarrow>
      (\<forall>c\<in>set cs. wf_command index d c)" for g d cs
    by (intro each_from_Nil_set validateCommand_Nil)
  show ?thesis
    unfolding validateDomain_def wf_domain_def Let_def
    using pages [of "\<lambda>i. at_index (pre @ ''.pages'') i" "dd_domain def" "dd_pages def"
        "\<lambda>i. at_index (pre @ ''.pages'') i @ ''.capabilities''"]
    by (auto simp: actions forms commands)
qed

subsection \<open>Properties\<close>

lemma ValidateDefs_Nil: "ValidateDefs L defs index = [] \<longleftrightarrow> list_all (wf_domain index) defs"
  unfolding ValidateDefs_def list_all_iff by (intro each_from_Nil_set validateDomain_Nil)

lemma form_submits_found:
  assumes "ValidateDefs L defs index = []" and "GetFormDef (Replace sha defs) formID = Some f"
  shows "GetCommand (Replace sha defs) (fm_submit_command f) \<noteq> None"
proof -
  have "f \<in> set (concat (List.map dd_forms defs))" using assms(2) by (rule forms.lookup_member)
  then obtain def where def: "def \<in> set defs" "f \<in> set (dd_forms def)" by auto
  have "\<forall>d\<in>set defs. wf_domain index d"
    using assms(1) by (simp add: ValidateDefs_Nil list_all_iff)
  with def have "fm_submit_command f \<in> cm_id ` set (dd_commands def)"
    by (auto simp: wf_domain_def wf_form_def)
  with def(1) have "fm_submit_command f \<in> cm_id ` set (concat (List.map dd_commands defs))" by auto
  then show ?thesis using commands.lookup_None_iff by blast
qed

text \<open>
  C15. Validation reports nothing exactly when the definitions satisfy the written-out conditions:
  required names are present, tables have columns and a page size of 0 to 200, list and table
  pages have a table, every submit command, action form and action command exists in the domain,
  every operation is in the index when there is one, and page capabilities have a colon.
\<close>

theorem validate_exact:
  "ValidateDefs L defs index = [] \<longleftrightarrow> list_all (wf_domain index) defs"
  by (rule ValidateDefs_Nil)

text \<open>
  A registry built from definitions that validate never holds a form whose submit command
  cannot be found.
\<close>

theorem validated_submit_found:
  assumes "ValidateDefs L defs index = []" and "GetFormDef (Replace sha defs) formID = Some f"
  shows "GetCommand (Replace sha defs) (fm_submit_command f) \<noteq> None"
  using assms by (rule form_submits_found)

definition demo_section :: section_definition where
  "demo_section = \<lparr>sd_id = ''main'', sd_title = ''Main'', sd_layout = [], sd_columns = 1,
     sd_capabilities = [], sd_collapsible = False, sd_collapsed = False, sd_fields = []\<rparr>"

definition demo_form :: "string \<Rightarrow> string \<Rightarrow> form_definition" where
  "demo_form i submit = \<lparr>fm_id = i, fm_title = i, fm_capabilities = [], fm_submit_command = submit,
     fm_load_source = None, fm_success_route = [], fm_success_message = [],
     fm_sections = [demo_section]\<rparr>"

definition demo_command :: "string \<Rightarrow> operation_binding \<Rightarrow> string list \<Rightarrow> command_definition" where
  "demo_command i b caps = \<lparr>cm_id = i, cm_capabilities = caps, cm_operation = b,
     cm_input = \<lparr>im_path_params = [], im_query_params = [], im_header_params = [],
       im_body_mapping = [], im_body_template = [], im_field_projection = []\<rparr>,
     cm_output = \<lparr>om_type = [], om_fields = [], om_error_map = [], om_success_message = ''done''\<rparr>,
     cm_idempotency = None\<rparr>"

definition sdk_binding :: "string \<Rightarrow> operation_binding" where
  "sdk_binding h = \<lparr>ob_type = ''sdk'', ob_operation_id = [], ob_service_id = [], ob_handler = h\<rparr>"

definition valid_domain :: "string \<Rightarrow> form_definition list \<Rightarrow> command_definition list \<Rightarrow> domain_definition"
  where
  "valid_domain name fs cs = (empty_domain name)\<lparr>
     dd_navigation := \<lparr>nd_label = name, nd_icon = [], nd_order = 0, nd_capabilities = [],
       nd_children = [\<lparr>nc_label = name, nc_icon = [], nc_route = [], nc_page_id = name,
         nc_capabilities = [], nc_order = 0, nc_badge = None\<rparr>]\<rparr>,
     dd_forms := fs, dd_commands := cs\<rparr>"

lemmas demo_defs =
  valid_domain_def empty_domain_def demo_form_def demo_section_def demo_command_def sdk_binding_def

theorem validated_submit_found_witness:
  "GetCommand (Replace (\<lambda>d. d) [valid_domain ''a'' [demo_form ''f'' ''c''] [demo_command ''c'' (sdk_binding ''h'') []]])
     (fm_submit_command (demo_form ''f'' ''c'')) \<noteq> None"
  by (rule validated_submit_found [where L = demo_lib and index = None and formID = "''f''"])
     (simp_all add: demo_defs ValidateDefs_def validateDomain_def validateForm_def validateCommand_def
        Let_def has_id_id_set GetFormDef_def Replace_fields)

text \<open>
  Validation looks at one domain at a time, the registry is global: two domains that use the
  same command id both validate, and after the load the first domain's form submits the command
  of the second.
\<close>

theorem shadowed_command_validates:
  "let a = valid_domain ''a'' [demo_form ''f'' ''save''] [demo_command ''save'' (sdk_binding ''saveA'') []];
       b = valid_domain ''b'' [] [demo_command ''save'' (sdk_binding ''saveB'') []]
   in ValidateDefs demo_lib [a, b] None = [] \<and>
      map_option cm_operation (GetCommand (Replace (\<lambda>d. d) [a, b]) ''save'') = Some (sdk_binding ''saveB'')"
  by (simp add: Let_def demo_defs ValidateDefs_def validateDomain_def validateForm_def
        validateCommand_def has_id_id_set GetCommand_def Replace_fields)

end
