(* ===== verification/Pages.thy ===== *)
theory Pages imports Actions Invoker Validator begin

section \<open>Pages and forms (pkg/metadata/page.go, form.go)\<close>

text \<open>
  The descriptors of pages and forms, filtered by capabilities, and the data behind them. The
  providers share a registry and the invokers.
\<close>

record 'w provider =
  pv_lib :: golib
  pv_registry :: snapshot
  pv_invokers :: "'w invoke_fn"

subsection \<open>Sections and fields\<close>

definition validation_of :: "validation_definition \<Rightarrow> validation_descriptor" where
  "validation_of v = \<lparr>vx_min_length = vd_min_length v, vx_max_length = vd_max_length v,
     vx_min = vd_min v, vx_max = vd_max v, vx_pattern = vd_pattern v, vx_message = vd_message v\<rparr>"

definition option_of :: "static_option \<Rightarrow> option_descriptor" where
  "option_of o1 = \<lparr>op_label = so_label o1, op_value = so_value o1, op_icon = []\<rparr>"

definition dependency_of :: "field_dependency \<Rightarrow> dependency_descriptor" where
  "dependency_of d = \<lparr>yx_field = fd_field d, yx_condition = fd_condition d, yx_value = fd_value d\<rparr>"

definition field_of :: "field_definition \<Rightarrow> field_descriptor" where
  "field_of f =
     \<lparr>ux_field = fi_field f, ux_label = fi_label f, ux_type = fi_type f,
      ux_read_only = (fi_read_only f = ''true'' \<or> fi_read_only f = ''always''),
      ux_required = fi_required f, ux_validation = map_option validation_of (fi_validation f),
      ux_options = (case fi_lookup f of None \<Rightarrow> []
        | Some lk \<Rightarrow> if length (lr_static lk) > 0 then List.map option_of (lr_static lk) else []),
      ux_format = fi_format f, ux_placeholder = fi_placeholder f, ux_help_text = fi_help_text f,
      ux_span = fi_span f, ux_value = GNil, ux_depends_on = List.map dependency_of (fi_depends_on f)\<rparr>"

fun visible_fields :: "field_definition list \<Rightarrow> field_descriptor list" where
  "visible_fields [] = []"
| "visible_fields (field # rest) =
     (if fi_visibility field = ''hidden'' then visible_fields rest
      else field_of field # visible_fields rest)"

definition section_of :: "section_definition \<Rightarrow> section_descriptor" where
  "section_of sec =
     \<lparr>sx_id = sd_id sec, sx_title = sd_title sec, sx_layout = sd_layout sec,
      sx_columns = sd_columns sec, sx_collapsible = sd_collapsible sec,
      sx_collapsed = sd_collapsed sec, sx_fields = visible_fields (sd_fields sec)\<rparr>"

fun resolveSections :: "capability_set \<Rightarrow> section_definition list \<Rightarrow> section_descriptor list" where
  "resolveSections caps [] = []"
| "resolveSections caps (sec # secs) =
     (if denied caps (sd_capabilities sec) then resolveSections caps secs
      else section_of sec # resolveSections caps secs)"

subsection \<open>Pages\<close>

definition column_of :: "column_definition \<Rightarrow> column_descriptor" where
  "column_of col =
     \<lparr>ox_field = cd_field col, ox_label = cd_label col, ox_type = cd_type col,
      ox_sortable = cd_sortable col, ox_format = cd_format col, ox_width = cd_width col,
      ox_link = map_option (\<lambda>lk. \<lparr>lx_route = lk_route lk, lx_params = lk_params lk\<rparr>) (cd_link col),
      ox_status_map = cd_status_map col\<rparr>"

definition filter_of :: "filter_definition \<Rightarrow> filter_descriptor" where
  "filter_of f =
     \<lparr>fx_field = fl_field f, fx_label = fl_label f, fx_type = fl_type f, fx_operator = fl_operator f,
      fx_options = (case fl_options f of None \<Rightarrow> []
        | Some os \<Rightarrow> if length (fo_static os) > 0 then List.map option_of (fo_static os) else []),
      fx_default = GStr (fl_default f)\<rparr>"

definition resolveTable ::
  "golib \<Rightarrow> capability_set \<Rightarrow> table_definition \<Rightarrow> string \<Rightarrow> table_descriptor" where
  "resolveTable L caps table pageID =
     \<lparr>tx_columns = List.map column_of (td_columns table),
      tx_filters = List.map filter_of (td_filters table),
      tx_row_actions = ResolveActions L caps (td_row_actions table) None,
      tx_bulk_actions = ResolveActions L caps (td_bulk_actions table) None,
      tx_data_endpoint = ''/api/pages/'' @ pageID @ ''/data'',
      tx_default_sort = td_default_sort table, tx_sort_dir = td_sort_dir table,
      tx_page_size = (if td_page_size table \<le> 0 then 25 else td_page_size table),
      tx_selectable = td_selectable table\<rparr>"

definition not_found_error :: "golib \<Rightarrow> string \<Rightarrow> string \<Rightarrow> go_error" where
  "not_found_error L kind ident = Envelope (NewNotFoundError (kind @ '' '' @ quote L ident @ '' not found''))"

definition forbidden_error :: "golib \<Rightarrow> string \<Rightarrow> string \<Rightarrow> go_error" where
  "forbidden_error L kind ident =
     Envelope (NewForbiddenError (''insufficient capabilities for '' @ kind @ '' '' @ quote L ident))"

definition GetPage ::
  "'w provider \<Rightarrow> capability_set \<Rightarrow> string \<Rightarrow> go_error + page_descriptor" where
  "GetPage p caps pageID =
     (case GetPageDef (pv_registry p) pageID of
        None \<Rightarrow> Inl (not_found_error (pv_lib p) ''page'' pageID)
      | Some pageDef \<Rightarrow>
          if denied caps (pd_capabilities pageDef)
          then Inl (forbidden_error (pv_lib p) ''page'' pageID)
          else Inr
            \<lparr>px_id = pd_id pageDef, px_title = pd_title pageDef, px_route = pd_route pageDef,
             px_layout = pd_layout pageDef, px_refresh_interval = pd_refresh_interval pageDef,
             px_breadcrumb = List.map (\<lambda>b. \<lparr>bb_label = bc_label b, bb_route = bc_route b\<rparr>)
                               (pd_breadcrumb pageDef),
             px_table = map_option (\<lambda>t. resolveTable (pv_lib p) caps t (pd_id pageDef)) (pd_table pageDef),
             px_sections = resolveSections caps (pd_sections pageDef),
             px_actions = ResolveActions (pv_lib p) caps (pd_actions pageDef) None\<rparr>)"

definition source_binding :: "data_source_definition \<Rightarrow> operation_binding" where
  "source_binding ds =
     \<lparr>ob_type = (if ds_handler ds \<noteq> [] then ''sdk'' else ''openapi''),
      ob_operation_id = ds_operation_id ds, ob_service_id = ds_service_id ds,
      ob_handler = ds_handler ds\<rparr>"

definition put_nonempty :: "string \<Rightarrow> string \<Rightarrow> string gomap \<Rightarrow> string gomap" where
  "put_nonempty k v q = (if v \<noteq> [] then gput k v q else q)"

definition buildDataInput :: "data_params \<Rightarrow> invocation_input" where
  "buildDataInput params =
     (let q1 = (if dp_page params > 0 then gput ''page'' (dec_int (dp_page params)) [] else []);
          q2 = (if dp_page_size params > 0
                then gput ''page_size'' (dec_int (dp_page_size params)) q1 else q1);
          q3 = put_nonempty ''q'' (dp_query params)
                 (put_nonempty ''sort_dir'' (dp_sort_dir params)
                   (put_nonempty ''sort'' (dp_sort params) q2))
      in empty_input\<lparr>in_query := fold (\<lambda>(k, v) q. gput k v q) (dp_filters params) q3\<rparr>)"

definition extractPath :: "gany gomap \<Rightarrow> string \<Rightarrow> gany" where
  "extractPath data path = (if path = [] then GNil else nav (GMap data) (split_on CHR ''.'' path))"

fun maps_of :: "gany list \<Rightarrow> gany gomap list" where
  "maps_of [] = []"
| "maps_of (item # items) =
     (case as_map item of None \<Rightarrow> maps_of items | Some m \<Rightarrow> m # maps_of items)"

definition toMapSlice :: "gany \<Rightarrow> gany gomap list" where
  "toMapSlice v = (case as_slice v of None \<Rightarrow> [] | Some items \<Rightarrow> maps_of items)"

text \<open>The renaming loop of \<open>applyFieldMap\<close> and \<open>renameFields\<close>, in range order.\<close>

fun rename_loop :: "string gomap \<Rightarrow> gany gomap \<Rightarrow> gany gomap \<Rightarrow> gany gomap" where
  "rename_loop fieldMap [] mapped = mapped"
| "rename_loop fieldMap ((k, v) # kvs) mapped =
     rename_loop fieldMap kvs
       (case gget fieldMap k of Some newName \<Rightarrow> gput newName v mapped | None \<Rightarrow> gput k v mapped)"

definition renameFields :: "gany gomap \<Rightarrow> string gomap \<Rightarrow> gany gomap" where
  "renameFields data fieldMap = rename_loop fieldMap data []"

definition applyFieldMap :: "gany gomap list \<Rightarrow> string gomap \<Rightarrow> gany gomap list" where
  "applyFieldMap items fieldMap = List.map (\<lambda>item. rename_loop fieldMap item []) items"

definition payload :: "gany gomap list \<Rightarrow> int \<Rightarrow> data_params \<Rightarrow> data_response" where
  "payload items totalCount params =
     \<lparr>dr_data = \<lparr>pl_items = items, pl_total_count = totalCount, pl_page = dp_page params,
        pl_page_size = dp_page_size params\<rparr>, dr_meta = None\<rparr>"

definition applyResponseMapping ::
  "golib \<Rightarrow> invocation_result \<Rightarrow> response_mapping_definition \<Rightarrow> data_params \<Rightarrow> data_response" where
  "applyResponseMapping L result mapping params =
     (case as_map (res_body result) of
        None \<Rightarrow> payload [] 0 params
      | Some body \<Rightarrow>
          (let items0 = toMapSlice (extractPath body (rm_items_path mapping));
               items = (if length (rm_field_map mapping) > 0
                        then applyFieldMap items0 (rm_field_map mapping) else items0);
               n0 = (if rm_total_path mapping \<noteq> []
                         then (case extractPath body (rm_total_path mapping) of
                                 GFloat v \<Rightarrow> int_of_float L v | _ \<Rightarrow> 0)
                         else 0);
               totalCount = (if n0 = 0 then int (length items) else n0)
           in payload items totalCount params))"

definition GetPageData ::
  "'w provider \<Rightarrow> request_context option \<Rightarrow> capability_set \<Rightarrow> string \<Rightarrow> data_params \<Rightarrow> 'w \<Rightarrow>
   (go_error + data_response) \<times> 'w" where
  "GetPageData p rctx caps pageID params w =
     (case GetPageDef (pv_registry p) pageID of
        None \<Rightarrow> (Inl (not_found_error (pv_lib p) ''page'' pageID), w)
      | Some pageDef \<Rightarrow>
          if denied caps (pd_capabilities pageDef)
          then (Inl (forbidden_error (pv_lib p) ''page'' pageID), w)
          else
            (case pd_table pageDef of
               None \<Rightarrow>
                 (Inl (Envelope (NewBadRequestError
                    (''page '' @ quote (pv_lib p) pageID @ '' has no data source''))), w)
             | Some table \<Rightarrow>
                 (let ds = td_data_source table;
                      (r, w') = pv_invokers p rctx (source_binding ds) (buildDataInput params) w
                  in case r of
                       Inl err \<Rightarrow> (Inl err, w')
                     | Inr result \<Rightarrow>
                         (Inr (applyResponseMapping (pv_lib p) result (ds_mapping ds) params), w'))))"

subsection \<open>Forms\<close>

text \<open>form.go has the loop over sections and fields a second time; it builds the same descriptors.\<close>

definition form_sections :: "capability_set \<Rightarrow> section_definition list \<Rightarrow> section_descriptor list" where
  "form_sections caps sections =
     List.map (\<lambda>sec. \<lparr>sx_id = sd_id sec, sx_title = sd_title sec, sx_layout = sd_layout sec,
         sx_columns = sd_columns sec, sx_collapsible = sd_collapsible sec, sx_collapsed = sd_collapsed sec,
         sx_fields = List.map field_of (filter (\<lambda>f. fi_visibility f \<noteq> ''hidden'') (sd_fields sec))\<rparr>)
       (filter (\<lambda>sec. \<not> (length (sd_capabilities sec) > 0 \<and> \<not> HasAll caps (sd_capabilities sec))) sections)"

lemma visible_fields_filter:
  "visible_fields fs = List.map field_of (filter (\<lambda>f. fi_visibility f \<noteq> ''hidden'') fs)"
  by (induction fs) auto

text \<open>Both loops agree.\<close>

lemma form_sections_eq: "form_sections caps secs = resolveSections caps secs"
  by (induction secs) (auto simp: form_sections_def section_of_def visible_fields_filter denied_def)

definition GetForm ::
  "'w provider \<Rightarrow> capability_set \<Rightarrow> string \<Rightarrow> go_error + form_descriptor" where
  "GetForm p caps formID =
     (case GetFormDef (pv_registry p) formID of
        None \<Rightarrow> Inl (not_found_error (pv_lib p) ''form'' formID)
      | Some formDef \<Rightarrow>
          if denied caps (fm_capabilities formDef)
          then Inl (forbidden_error (pv_lib p) ''form'' formID)
          else Inr
            \<lparr>mx_id = fm_id formDef, mx_title = fm_title formDef,
             mx_sections = form_sections caps (fm_sections formDef), mx_actions = [],
             mx_submit_endpoint = ''/api/commands/'' @ fm_submit_command formDef,
             mx_success_route = fm_success_route formDef,
             mx_success_message = fm_success_message formDef\<rparr>)"

definition collectFormFields :: "section_definition list \<Rightarrow> bool gomap" where
  "collectFormFields sections =
     fold (\<lambda>sec m. fold (\<lambda>f m. gput (fi_field f) True m) (sd_fields sec) m) sections []"

definition filterToFields :: "gany gomap \<Rightarrow> bool gomap \<Rightarrow> gany gomap" where
  "filterToFields data known =
     filter (\<lambda>(k, _). (case gget known k of None \<Rightarrow> False | Some b \<Rightarrow> b)) data"

definition GetFormData ::
  "'w provider \<Rightarrow> request_context option \<Rightarrow> capability_set \<Rightarrow> string \<Rightarrow> string gomap \<Rightarrow> 'w \<Rightarrow>
   (go_error + gany gomap option) \<times> 'w" where
  "GetFormData p rctx caps formID params w =
     (case GetFormDef (pv_registry p) formID of
        None \<Rightarrow> (Inl (not_found_error (pv_lib p) ''form'' formID), w)
      | Some formDef \<Rightarrow>
          if denied caps (fm_capabilities formDef)
          then (Inl (forbidden_error (pv_lib p) ''form'' formID), w)
          else
            (case fm_load_source formDef of
               None \<Rightarrow> (Inr None, w)
             | Some ds \<Rightarrow>
                 (let (r, w') = pv_invokers p rctx (source_binding ds) (empty_input\<lparr>in_path := params\<rparr>) w
                  in case r of
                       Inl err \<Rightarrow> (Inl err, w')
                     | Inr result \<Rightarrow>
                         (case as_map (res_body result) of
                            None \<Rightarrow> (Inr (Some []), w')
                          | Some body0 \<Rightarrow>
                              (let body = (if length (rm_field_map (ds_mapping ds)) > 0
                                           then renameFields body0 (rm_field_map (ds_mapping ds))
                                           else body0)
                               in (Inr (Some (filterToFields body (collectFormFields (fm_sections formDef)))),
                                   w'))))))"


subsection \<open>Lemmas\<close>

lemma resolveSections_filter [gate_simps]:
  "resolveSections caps secs =
     List.map section_of (filter (\<lambda>s. \<not> denied caps (sd_capabilities s)) secs)"
  by (induction secs) auto

lemma sections_mono: "caps_le c c' \<Longrightarrow> subseq (resolveSections c secs) (resolveSections c' secs)"
  unfolding resolveSections_filter by (intro subseq_map gate.shown_mono)

lemma actions_mono:
  "caps_le c c' \<Longrightarrow> subseq (ResolveActions L c acts data) (ResolveActions L c' acts data)"
  unfolding ResolveActions_filter by (intro subseq_map gate.shown_mono)

lemma denied_antimono: "caps_le c c' \<Longrightarrow> denied c' req \<Longrightarrow> denied c req"
  using gate.allows_mono by blast

lemma collectFormFields_get:
  "gget (collectFormFields secs) k =
     (if k \<in> fi_field ` (\<Union>s\<in>set secs. set (sd_fields s)) then Some True else None)"
proof -
  have inner: "gget (fold (\<lambda>f m. gput (fi_field f) True m) fs m0) k =
      (if k \<in> fi_field ` set fs then Some True else gget m0 k)" for fs m0
    by (induction fs arbitrary: m0) (auto simp: gget_gput)
  have "gget (fold (\<lambda>sec m. fold (\<lambda>f m. gput (fi_field f) True m) (sd_fields sec) m) secs m0) k =
      (if k \<in> fi_field ` (\<Union>s\<in>set secs. set (sd_fields s)) then Some True else gget m0 k)" for m0
    by (induction secs arbitrary: m0) (auto simp: inner)
  then show ?thesis by (simp add: collectFormFields_def)
qed

lemma GetPage_Inr:
  assumes "GetPage p caps pageID = Inr d"
  obtains pageDef where "GetPageDef (pv_registry p) pageID = Some pageDef"
    and "\<not> denied caps (pd_capabilities pageDef)"
    and "px_sections d = resolveSections caps (pd_sections pageDef)"
    and "px_actions d = ResolveActions (pv_lib p) caps (pd_actions pageDef) None"
    and "px_table d = map_option (\<lambda>t. resolveTable (pv_lib p) caps t (pd_id pageDef)) (pd_table pageDef)"
  using assms by (auto simp: GetPage_def split: option.splits if_splits)

subsection \<open>Properties\<close>

definition shows_allowed :: "golib \<Rightarrow> capability_set \<Rightarrow> page_definition \<Rightarrow> page_descriptor \<Rightarrow> bool" where
  "shows_allowed L caps pg d \<longleftrightarrow>
     HasAll caps (pd_capabilities pg) \<and>
     px_sections d = List.map section_of (filter (\<lambda>s. HasAll caps (sd_capabilities s)) (pd_sections pg)) \<and>
     px_actions d = List.map (resolve_action L None) (filter (\<lambda>a. HasAll caps (ad_capabilities a)) (pd_actions pg)) \<and>
     (\<forall>t\<in>set_option (px_table d). \<exists>t0. pd_table pg = Some t0 \<and>
        tx_row_actions t = List.map (resolve_action L None)
          (filter (\<lambda>a. HasAll caps (ad_capabilities a)) (td_row_actions t0)) \<and>
        tx_bulk_actions t = List.map (resolve_action L None)
          (filter (\<lambda>a. HasAll caps (ad_capabilities a)) (td_bulk_actions t0)))"

text \<open>
  C34. A page descriptor shows only what the caller may see: the page itself is allowed, and its
  sections and its page, row and bulk actions are, in order, those of the definition whose
  capabilities the caller has.
\<close>

theorem page_shows_allowed:
  assumes "GetPage p caps pageID = Inr d"
  shows "\<exists>pg. GetPageDef (pv_registry p) pageID = Some pg \<and> shows_allowed (pv_lib p) caps pg d"
  using assms
  by (rule GetPage_Inr)
     (auto simp: shows_allowed_def resolveSections_filter ResolveActions_filter denied_iff resolveTable_def)

definition demo_page :: page_definition where
  "demo_page = \<lparr>pd_id = ''orders.list'', pd_title = ''Orders'', pd_route = ''/orders'', pd_layout = ''detail'',
     pd_capabilities = [''orders:view''], pd_refresh_interval = 0, pd_breadcrumb = [], pd_table = None,
     pd_sections = [demo_section, demo_section\<lparr>sd_id := ''audit'', sd_capabilities := [''orders:audit'']\<rparr>],
     pd_actions = []\<rparr>"

definition demo_provider :: "domain_definition \<Rightarrow> invocation_result \<Rightarrow> unit provider" where
  "demo_provider def answer = \<lparr>pv_lib = demo_lib, pv_registry = Replace (\<lambda>d. d) [def],
     pv_invokers = (\<lambda>_ _ _ w. (Inr answer, w))\<rparr>"

definition ok_result :: "gany \<Rightarrow> invocation_result" where
  "ok_result body = \<lparr>res_status = 200, res_body = body, res_headers = []\<rparr>"

abbreviation orders_provider :: "unit provider" where
  "orders_provider \<equiv> demo_provider ((empty_domain ''orders'')\<lparr>dd_pages := [demo_page]\<rparr>) (ok_result GNil)"

lemmas provider_defs =
  demo_provider_def demo_page_def demo_section_def empty_domain_def GetPageDef_def GetFormDef_def
  Replace_fields denied_def ok_result_def

lemma demo_page_ok: "is_ok (GetPage orders_provider [(''orders:*'', True)] ''orders.list'')"
  by (simp add: GetPage_def provider_defs Has_def match_wildcard_def has_suffix_def)

theorem page_shows_allowed_witness:
  "\<exists>pg. GetPageDef (pv_registry orders_provider) ''orders.list'' = Some pg \<and>
     shows_allowed (pv_lib orders_provider) [(''orders:*'', True)] pg
       (projr (GetPage orders_provider [(''orders:*'', True)] ''orders.list''))"
  by (rule page_shows_allowed)
     (use demo_page_ok in \<open>cases "GetPage orders_provider [(''orders:*'', True)] ''orders.list''"; simp\<close>)

text \<open>
  More capabilities never hide anything: a caller whose set includes another's is shown every
  page the other is shown, with at least its sections and actions, in the same order.
\<close>

theorem page_monotone:
  assumes "caps_le c c'" and "GetPage p c pageID = Inr d"
  shows "\<exists>d'. GetPage p c' pageID = Inr d' \<and> subseq (px_sections d) (px_sections d') \<and>
    subseq (px_actions d) (px_actions d')"
proof (rule GetPage_Inr [OF assms(2)])
  fix pg
  assume pg: "GetPageDef (pv_registry p) pageID = Some pg" "\<not> denied c (pd_capabilities pg)"
    "px_sections d = resolveSections c (pd_sections pg)"
    "px_actions d = ResolveActions (pv_lib p) c (pd_actions pg) None"
  have "\<not> denied c' (pd_capabilities pg)" using denied_antimono [OF assms(1)] pg(2) by blast
  with pg(1) obtain d' where d': "GetPage p c' pageID = Inr d'"
    "px_sections d' = resolveSections c' (pd_sections pg)"
    "px_actions d' = ResolveActions (pv_lib p) c' (pd_actions pg) None"
    by (simp add: GetPage_def)
  with pg(3,4) sections_mono [OF assms(1)] actions_mono [OF assms(1)] show ?thesis by auto
qed

theorem page_monotone_witness:
  "\<exists>d'. GetPage orders_provider [(''orders:audit'', True), (''orders:*'', True)] ''orders.list'' = Inr d' \<and>
     subseq (px_sections (projr (GetPage orders_provider [(''orders:*'', True)] ''orders.list'')))
       (px_sections d') \<and>
     subseq (px_actions (projr (GetPage orders_provider [(''orders:*'', True)] ''orders.list'')))
       (px_actions d')"
  by (rule page_monotone [where c = "[(''orders:*'', True)]"])
     (use demo_page_ok in \<open>cases "GetPage orders_provider [(''orders:*'', True)] ''orders.list''";
        simp add: caps_le_def\<close>)+

text \<open>
  The data of a page is fetched only for a caller with the capabilities of the page: whenever
  the world changes, the page exists, is allowed and has a table, and the change is one call of
  that table's operation with the request's parameters.
\<close>

theorem page_data_guarded:
  assumes "snd (GetPageData p rctx caps pageID params w) \<noteq> w"
  shows "\<exists>pg t. GetPageDef (pv_registry p) pageID = Some pg \<and> HasAll caps (pd_capabilities pg) \<and>
    pd_table pg = Some t \<and>
    snd (GetPageData p rctx caps pageID params w) =
      snd (pv_invokers p rctx (source_binding (td_data_source t)) (buildDataInput params) w)"
  using assms
  by (auto simp: GetPageData_def denied_iff Let_def split: option.splits if_splits sum.splits prod.splits)

definition table_page :: page_definition where
  "table_page = demo_page\<lparr>pd_table := Some \<lparr>td_data_source = \<lparr>ds_operation_id = ''listOrders'',
      ds_service_id = [], ds_handler = [],
      ds_mapping = \<lparr>rm_items_path = ''items'', rm_total_path = [], rm_field_map = []\<rparr>\<rparr>,
     td_columns = [], td_filters = [], td_row_actions = [], td_bulk_actions = [], td_default_sort = [],
     td_sort_dir = [], td_page_size = 0, td_selectable = False\<rparr>\<rparr>"

definition no_params :: data_params where
  "no_params = \<lparr>dp_page = 0, dp_page_size = 0, dp_sort = [], dp_sort_dir = [], dp_filters = [], dp_query = []\<rparr>"

definition counting_provider :: "nat provider" where
  "counting_provider = \<lparr>pv_lib = demo_lib,
     pv_registry = Replace (\<lambda>d. d) [(empty_domain ''orders'')\<lparr>dd_pages := [table_page]\<rparr>],
     pv_invokers = (\<lambda>_ _ _ n. (Inr (ok_result GNil), Suc n))\<rparr>"

theorem page_data_guarded_witness:
  "\<exists>pg t. GetPageDef (pv_registry counting_provider) ''orders.list'' = Some pg \<and>
     HasAll [(''orders:view'', True)] (pd_capabilities pg) \<and> pd_table pg = Some t \<and>
     snd (GetPageData counting_provider None [(''orders:view'', True)] ''orders.list'' no_params 0) =
       snd (pv_invokers counting_provider None (source_binding (td_data_source t)) (buildDataInput no_params) 0)"
  by (rule page_data_guarded)
     (simp add: counting_provider_def table_page_def GetPageData_def provider_defs Has_def)

text \<open>
  The data of a form holds only fields the form's sections name, whatever the backend returns.
\<close>

theorem form_data_fields:
  assumes "GetFormData p rctx caps formID params w = (Inr (Some data), w')"
    and "k \<in> set (gkeys data)"
  shows "\<exists>fm. GetFormDef (pv_registry p) formID = Some fm \<and>
    k \<in> fi_field ` (\<Union>s\<in>set (fm_sections fm). set (sd_fields s))"
  using assms
  by (auto simp: GetFormData_def filterToFields_def collectFormFields_get Let_def
      split: option.splits if_splits sum.splits prod.splits)

definition plain_field :: "string \<Rightarrow> field_definition" where
  "plain_field n = \<lparr>fi_field = n, fi_label = n, fi_type = ''text'', fi_read_only = [], fi_required = False,
     fi_validation = None, fi_lookup = None, fi_visibility = [], fi_format = [], fi_placeholder = [],
     fi_help_text = [], fi_span = 0, fi_depends_on = []\<rparr>"

definition salary_form :: form_definition where
  "salary_form = (demo_form ''staff.edit'' ''save'')\<lparr>
     fm_load_source := Some \<lparr>ds_operation_id = ''getStaff'', ds_service_id = ''staff-svc'', ds_handler = [],
       ds_mapping = \<lparr>rm_items_path = [], rm_total_path = [], rm_field_map = []\<rparr>\<rparr>,
     fm_sections :=
       [demo_section\<lparr>sd_fields := [plain_field ''name'']\<rparr>,
        demo_section\<lparr>sd_id := ''pay'', sd_capabilities := [''staff:pay''],
          sd_fields := [plain_field ''salary'']\<rparr>]\<rparr>"

abbreviation staff_provider :: "unit provider" where
  "staff_provider \<equiv> demo_provider ((empty_domain ''staff'')\<lparr>dd_forms := [salary_form]\<rparr>)
     (ok_result (GMap [(''name'', GStr ''Ann''), (''salary'', GInt 900), (''pin'', GInt 1)]))"

lemmas form_demo_defs =
  GetFormData_def GetForm_def salary_form_def demo_form_def plain_field_def collectFormFields_def
  filterToFields_def source_binding_def empty_input_def

lemma staff_data:
  "GetFormData staff_provider None [] ''staff.edit'' [] () =
     (Inr (Some [(''name'', GStr ''Ann''), (''salary'', GInt 900)]), ())"
  by (simp add: form_demo_defs provider_defs)

theorem form_data_fields_witness:
  "\<exists>fm. GetFormDef (pv_registry staff_provider) ''staff.edit'' = Some fm \<and>
     ''name'' \<in> fi_field ` (\<Union>s\<in>set (fm_sections fm). set (sd_fields s))"
  by (rule form_data_fields [OF staff_data]) simp

text \<open>
  The data of a form is not filtered by the capabilities of its sections: a caller without the
  capability of the pay section gets a form descriptor without that section, and yet the value of
  the section's field.
\<close>

theorem form_data_leaks_section:
  "map_sum id (\<lambda>d. concat (List.map (\<lambda>s. List.map ux_field (sx_fields s)) (mx_sections d)))
     (GetForm staff_provider [] ''staff.edit'') = Inr [''name''] \<and>
   fst (GetFormData staff_provider None [] ''staff.edit'' [] ()) =
     Inr (Some [(''name'', GStr ''Ann''), (''salary'', GInt 900)])"
  unfolding staff_data
  by (simp add: form_demo_defs provider_defs form_sections_eq section_of_def field_of_def Has_def)

text \<open>
  Renaming a field to a name the item already has makes the result depend on the order in
  which the map is visited: two orders of one map give different values.
\<close>

theorem rename_depends_on_order:
  "gget (renameFields [(''state'', GStr ''open''), (''status'', GInt 3)] [(''state'', ''status'')]) ''status''
     = Some (GInt 3) \<and>
   gget (renameFields [(''status'', GInt 3), (''state'', GStr ''open'')] [(''state'', ''status'')]) ''status''
     = Some (GStr ''open'')"
  by (simp add: renameFields_def)

end
