(* ===== verification/Search.thy ===== *)
theory Search imports Descriptors Capability Registry Pages begin

section \<open>Global search (pkg/search/provider.go)\<close>

text \<open>
  The eligible providers run concurrently: each one's outcome is given by \<open>sv_invoke\<close> (the result,
  and whether its deadline had passed), and their results are collected in the order in which they
  finish, an argument that permutes the list (\<open>arrive\<close>). \<open>sort.Slice\<close> is an argument too. Page
  arithmetic is on int64 and wraps; \<open>None\<close> is the panic of a slice out of range.
\<close>

record search_provider =
  sv_lib :: golib
  sv_registry :: snapshot
  sv_invoke :: "request_context option \<Rightarrow> operation_binding \<Rightarrow> invocation_input \<Rightarrow>
    (go_error + invocation_result) \<times> bool"
  sv_timeout :: int
  sv_max_results :: int

definition NewSearchProvider ::
  "golib \<Rightarrow> snapshot \<Rightarrow> (request_context option \<Rightarrow> operation_binding \<Rightarrow> invocation_input \<Rightarrow>
     (go_error + invocation_result) \<times> bool) \<Rightarrow> int \<Rightarrow> int \<Rightarrow> search_provider" where
  "NewSearchProvider L reg invoke timeout maxResults =
     \<lparr>sv_lib = L, sv_registry = reg, sv_invoke = invoke,
      sv_timeout = (if timeout \<le> 0 then 3000000000 else timeout),
      sv_max_results = (if maxResults \<le> 0 then 50 else maxResults)\<rparr>"

record provider_result =
  pr_provider_id :: string
  pr_results :: "search_result list"
  pr_status :: string

subsection \<open>Results of one provider\<close>

definition extractItems :: "gany \<Rightarrow> string \<Rightarrow> gany gomap list" where
  "extractItems body itemsPath =
     (if itemsPath = [] then (case as_slice body of Some arr \<Rightarrow> maps_of arr | None \<Rightarrow> [])
      else (case as_slice (nav body (split_on CHR ''.'' itemsPath)) of
              Some arr \<Rightarrow> maps_of arr | None \<Rightarrow> []))"

definition getString :: "golib \<Rightarrow> gany gomap \<Rightarrow> string \<Rightarrow> string" where
  "getString L m key =
     (if key = [] then []
      else case gget m key of
        None \<Rightarrow> []
      | Some v \<Rightarrow> if v = GNil then [] else sprint L v)"

definition resolveResultRoute :: "string \<Rightarrow> string \<Rightarrow> string" where
  "resolveResultRoute template i = replace_all ''{id}'' i template"

text \<open>float64 arithmetic rounds after every operation.\<close>

definition position_score :: "nat \<Rightarrow> nat \<Rightarrow> rat" where
  "position_score total_n i =
     (if total_n > 1
      then f64 (1 - f64 (f64 (f64 (of_nat i) / f64 (of_nat total_n)) * (1 / 2)))
      else 1)"

definition search_weight :: "search_definition \<Rightarrow> int" where
  "search_weight def = (if se_weight def \<le> 0 then 1 else se_weight def)"

definition result_of ::
  "golib \<Rightarrow> search_definition \<Rightarrow> nat \<Rightarrow> nat \<Rightarrow> gany gomap \<Rightarrow> search_result" where
  "result_of L def total_n i item =
     (let rm = se_result_mapping def; ident = getString L item (sm_id_field rm) in
      \<lparr>rx_id = ident, rx_title = getString L item (sm_title_field rm),
       rx_subtitle = getString L item (sm_subtitle_field rm), rx_category = se_domain def,
       rx_icon = getString L item (sm_icon_field rm), rx_route = resolveResultRoute (sm_route rm) ident,
       rx_score = f64 (f64 (of_int (search_weight def)) * position_score total_n i)\<rparr>)"

definition mapResults ::
  "golib \<Rightarrow> gany gomap list \<Rightarrow> search_definition \<Rightarrow> int \<Rightarrow> search_result list" where
  "mapResults L items0 def maxResults =
     (let items = (if int (length items0) > maxResults then take (nat maxResults) items0 else items0)
      in each_from 0 (\<lambda>i item. [result_of L def (length items) i item]) items)"

definition query_input :: "string \<Rightarrow> invocation_input" where
  "query_input query = empty_input\<lparr>in_query := [(''q'', query)]\<rparr>"

definition executeProvider ::
  "search_provider \<Rightarrow> request_context option \<Rightarrow> string \<Rightarrow> search_definition \<Rightarrow> provider_result" where
  "executeProvider sp rctx query def =
     (case sv_invoke sp rctx (se_operation def) (query_input query) of
        (Inl err, deadline) \<Rightarrow>
          \<lparr>pr_provider_id = se_id def, pr_results = [],
           pr_status = (if deadline then ''timeout'' else ''error'')\<rparr>
      | (Inr result, deadline) \<Rightarrow>
          if res_status result < 200 \<or> res_status result \<ge> 300 then
            \<lparr>pr_provider_id = se_id def, pr_results = [], pr_status = ''error''\<rparr>
          else
            \<lparr>pr_provider_id = se_id def,
             pr_results = mapResults (sv_lib sp)
               (extractItems (res_body result) (sm_items_path (se_result_mapping def))) def
               (if se_max_results def \<le> 0 then sv_max_results sp else se_max_results def),
             pr_status = ''ok''\<rparr>)"

subsection \<open>Merging\<close>

definition dedup_key :: "search_result \<Rightarrow> string" where
  "dedup_key r = rx_route r @ ''|'' @ rx_id r"

fun dedup_loop ::
  "search_result list \<Rightarrow> nat gomap \<Rightarrow> search_result list \<Rightarrow> search_result list" where
  "dedup_loop [] seen out = out"
| "dedup_loop (r # rs) seen out =
     (case gget seen (dedup_key r) of
        Some idx \<Rightarrow>
          if rx_score r > rx_score (out ! idx) then dedup_loop rs seen (out[idx := r])
          else dedup_loop rs seen out
      | None \<Rightarrow> dedup_loop rs (gput (dedup_key r) (length out) seen) (out @ [r]))"

definition deduplicate :: "search_result list \<Rightarrow> search_result list" where
  "deduplicate results = (if length results = 0 then results else dedup_loop results [] [])"

definition eligible_search :: "capability_set \<Rightarrow> pagination \<Rightarrow> search_definition \<Rightarrow> bool" where
  "eligible_search caps pag def =
     (if pag_domain pag \<noteq> [] \<and> se_domain def \<noteq> pag_domain pag then False
      else if denied caps (se_capabilities def) then False else True)"

definition normalize_pagination :: "pagination \<Rightarrow> pagination" where
  "normalize_pagination pag =
     (let s1 = (if pag_page_size pag \<le> 0 then 20 else pag_page_size pag);
          s2 = (if s1 > 50 then 50 else s1)
      in pag\<lparr>pag_page_size := s2, pag_page := (if pag_page pag \<le> 0 then 1 else pag_page pag)\<rparr>)"

text \<open>\<open>merged[offset:end]\<close> on the page asked for: \<open>None\<close> when a bound is out of range.\<close>

definition page_slice :: "pagination \<Rightarrow> 'a list \<Rightarrow> 'a list option" where
  "page_slice pag merged =
     (let offset = wrap64 (wrap64 (pag_page pag - 1) * pag_page_size pag) in
      if offset \<ge> int (length merged) then Some []
      else
        (let e0 = wrap64 (offset + pag_page_size pag);
             e = (if e0 > int (length merged) then int (length merged) else e0)
         in if 0 \<le> offset \<and> offset \<le> e
            then Some (drop (nat offset) (take (nat e) merged)) else None))"

definition status_map :: "provider_result list \<Rightarrow> gany" where
  "status_map results =
     GMap (fold (\<lambda>r m. gput (pr_provider_id r) (GStr (pr_status r)) m) results [])"

definition merged_results ::
  "search_provider \<Rightarrow> (provider_result list \<Rightarrow> provider_result list) \<Rightarrow>
   (search_result list \<Rightarrow> search_result list) \<Rightarrow> request_context option \<Rightarrow> capability_set \<Rightarrow>
   string \<Rightarrow> pagination \<Rightarrow> search_result list" where
  "merged_results sp arrive sort_results rctx caps query pag =
     sort_results (deduplicate (concat (List.map pr_results
       (arrive (List.map (executeProvider sp rctx query)
         (filter (eligible_search caps pag) (AllSearches (sv_registry sp))))))))"

definition SearchAll ::
  "search_provider \<Rightarrow> (provider_result list \<Rightarrow> provider_result list) \<Rightarrow>
   (search_result list \<Rightarrow> search_result list) \<Rightarrow> int \<Rightarrow> request_context option \<Rightarrow> capability_set \<Rightarrow>
   string \<Rightarrow> pagination \<Rightarrow> (go_error + search_response) option" where
  "SearchAll sp arrive sort_results elapsed rctx caps query pag0 =
     (if length query < 2 then
        Some (Inl (Envelope (NewBadRequestError ''Search query must be at least 2 characters'')))
      else
        (let pag = normalize_pagination pag0;
             results = arrive (List.map (executeProvider sp rctx query)
               (filter (eligible_search caps pag) (AllSearches (sv_registry sp))));
             merged = sort_results (deduplicate (concat (List.map pr_results results)))
         in case page_slice pag merged of
              None \<Rightarrow> None
            | Some page \<Rightarrow>
                Some (Inr \<lparr>sq_data = \<lparr>sy_results = page, sy_total_count = int (length merged),
                             sy_query = query\<rparr>,
                           sq_meta = Some [(''providers'', status_map results),
                             (''query_time_ms'', GInt64 elapsed)]\<rparr>)))"

subsection \<open>Deduplication keeps one best result per key\<close>

definition best_of :: "search_result list \<Rightarrow> search_result \<Rightarrow> bool" where
  "best_of rs r \<longleftrightarrow> r \<in> set rs \<and> (\<forall>q\<in>set rs. dedup_key q = dedup_key r \<longrightarrow> rx_score q \<le> rx_score r)"

definition dedup_inv :: "search_result list \<Rightarrow> nat gomap \<Rightarrow> search_result list \<Rightarrow> bool" where
  "dedup_inv past seen out \<longleftrightarrow>
     distinct (List.map dedup_key out) \<and>
     (\<forall>k i. gget seen k = Some i \<longleftrightarrow> i < length out \<and> dedup_key (out ! i) = k) \<and>
     dedup_key ` set out = dedup_key ` set past \<and> (\<forall>r\<in>set out. best_of past r)"

lemma dedup_inv_new:
  assumes inv: "dedup_inv past seen out" and new: "gget seen (dedup_key r) = None"
  shows "dedup_inv (past @ [r]) (gput (dedup_key r) (length out) seen) (out @ [r])"
proof -
  have fresh: "dedup_key r \<notin> dedup_key ` set out"
  proof
    assume "dedup_key r \<in> dedup_key ` set out"
    then obtain i where "i < length out" "dedup_key (out ! i) = dedup_key r"
      by (metis image_iff in_set_conv_nth)
    with inv new show False unfolding dedup_inv_def by (metis option.distinct(1))
  qed
  have keys: "\<forall>k i. gget (gput (dedup_key r) (length out) seen) k = Some i \<longleftrightarrow>
      i < length (out @ [r]) \<and> dedup_key ((out @ [r]) ! i) = k"
  proof (intro allI)
    fix k i
    have old: "gget seen k = Some i \<longleftrightarrow> i < length out \<and> dedup_key (out ! i) = k"
      using inv by (simp add: dedup_inv_def)
    show "gget (gput (dedup_key r) (length out) seen) k = Some i \<longleftrightarrow>
        i < length (out @ [r]) \<and> dedup_key ((out @ [r]) ! i) = k"
      using old fresh new nth_mem [of i out]
      by (auto simp: gget_gput nth_append less_Suc_eq)
  qed
  have best: "best_of (past @ [r]) q" if "q \<in> set (out @ [r])" for q
  proof (cases "q = r")
    case True
    have "dedup_key r \<notin> dedup_key ` set past" using fresh inv by (simp add: dedup_inv_def)
    then show ?thesis by (auto simp: best_of_def True) (metis imageI)
  next
    case False
    with that have q: "q \<in> set out" by simp
    then have "best_of past q" using inv by (simp add: dedup_inv_def)
    moreover have "dedup_key r \<noteq> dedup_key q" using fresh q by auto
    ultimately show ?thesis by (auto simp: best_of_def)
  qed
  have "distinct (List.map dedup_key (out @ [r]))"
    using inv fresh by (simp add: dedup_inv_def)
  moreover have "dedup_key ` set (out @ [r]) = dedup_key ` set (past @ [r])"
    using inv by (simp add: dedup_inv_def)
  ultimately show ?thesis using keys best unfolding dedup_inv_def by blast
qed

lemma dedup_inv_old:
  assumes inv: "dedup_inv past seen out" and old: "gget seen (dedup_key r) = Some i"
  shows "dedup_inv (past @ [r]) seen (if rx_score r > rx_score (out ! i) then out[i := r] else out)"
proof -
  have i: "i < length out" "dedup_key (out ! i) = dedup_key r"
    using inv old by (auto simp: dedup_inv_def)
  let ?out = "if rx_score r > rx_score (out ! i) then out[i := r] else out"
  have keys: "List.map dedup_key ?out = List.map dedup_key out"
    using i by (simp add: map_update list_update_same_conv)
  then have len: "length ?out = length out" and nth: "\<And>j. j < length out \<Longrightarrow> dedup_key (?out ! j) = dedup_key (out ! j)"
    using nth_map [of _ ?out dedup_key] nth_map [of _ out dedup_key] by (metis length_map)+
  have ki: "dedup_key ` set ?out = dedup_key ` set out"
    using keys by (metis set_map)
  have seen: "\<forall>k j. gget seen k = Some j \<longleftrightarrow> j < length ?out \<and> dedup_key (?out ! j) = k"
    using inv nth unfolding len by (auto simp: dedup_inv_def)
  have di: "distinct (List.map dedup_key out)" using inv by (simp add: dedup_inv_def)
  have best: "best_of (past @ [r]) q" if q: "q \<in> set ?out" for q
  proof -
    obtain j where j: "j < length out" "q = ?out ! j" using q by (metis in_set_conv_nth len)
    show ?thesis
    proof (cases "j = i")
      case True
      have bi: "best_of past (out ! i)" using inv i by (simp add: dedup_inv_def)
      show ?thesis
      proof (cases "rx_score r > rx_score (out ! i)")
        case gt: True
        then have "q = r" using True j i by simp
        moreover have "rx_score x \<le> rx_score r" if "x \<in> set past" "dedup_key x = dedup_key r" for x
        proof -
          have "dedup_key x = dedup_key (out ! i)" using that(2) i(2) by (rule trans [OF _ sym])
          with that(1) bi have "rx_score x \<le> rx_score (out ! i)" unfolding best_of_def by blast
          with gt show ?thesis by simp
        qed
        ultimately show ?thesis by (auto simp: best_of_def)
      next
        case le: False
        then have "q = out ! i" using True j by simp
        with bi le show ?thesis by (auto simp: best_of_def)
      qed
    next
      case False
      then have qo: "q = out ! j" using j by (auto split: if_splits)
      then have "best_of past q" using inv j by (simp add: dedup_inv_def)
      moreover have "List.map dedup_key out ! j \<noteq> List.map dedup_key out ! i"
        using nth_eq_iff_index_eq [OF di, of j i] i(1) j(1) False by simp
      then have "dedup_key r \<noteq> dedup_key q"
        unfolding qo i(2) [symmetric] using i(1) j(1) by (simp only: nth_map not_False_eq_True)
      ultimately show ?thesis by (auto simp: best_of_def)
    qed
  qed
  have "dedup_key ` set ?out = dedup_key ` set (past @ [r])"
  proof -
    have "dedup_key r \<in> dedup_key ` set out" using i by (metis image_eqI nth_mem)
    with ki inv show ?thesis by (auto simp: dedup_inv_def)
  qed
  with di keys seen best show ?thesis unfolding dedup_inv_def by metis
qed

lemma dedup_loop_inv:
  "dedup_inv past seen out \<Longrightarrow> \<exists>seen'. dedup_inv (past @ rs) seen' (dedup_loop rs seen out)"
proof (induction rs arbitrary: past seen out)
  case Nil
  then show ?case by auto
next
  case (Cons r rs)
  show ?case
  proof (cases "gget seen (dedup_key r)")
    case None
    with Cons.IH [OF dedup_inv_new [OF Cons.prems None]] show ?thesis by simp
  next
    case (Some i)
    with Cons.IH [OF dedup_inv_old [OF Cons.prems Some]] show ?thesis by (auto split: if_splits)
  qed
qed

lemma deduplicate_spec:
  "distinct (List.map dedup_key (deduplicate rs))"
  "dedup_key ` set (deduplicate rs) = dedup_key ` set rs"
  "r \<in> set (deduplicate rs) \<Longrightarrow> best_of rs r"
proof -
  have "dedup_inv [] [] []" by (simp add: dedup_inv_def)
  then obtain seen where "dedup_inv ([] @ rs) seen (dedup_loop rs [] [])"
    using dedup_loop_inv by blast
  then have inv: "\<exists>seen. dedup_inv rs seen (deduplicate rs)"
    by (cases rs) (auto simp: deduplicate_def)
  then show "distinct (List.map dedup_key (deduplicate rs))"
    "dedup_key ` set (deduplicate rs) = dedup_key ` set rs"
    "r \<in> set (deduplicate rs) \<Longrightarrow> best_of rs r"
    by (auto simp: dedup_inv_def)
qed


subsection \<open>Pages\<close>


lemma wrap64_small: "0 \<le> i \<Longrightarrow> i < 2 ^ 63 \<Longrightarrow> wrap64 i = i"
  by (rule wrap64_id) (simp add: in_int64_def int64_min_def int64_max_def)

lemma page_slice_exact:
  assumes "0 < pag_page pag" "pag_page pag \<le> 2 ^ 57" "0 < pag_page_size pag" "pag_page_size pag \<le> 50"
    and "length xs < 2 ^ 62"
  shows "page_slice pag xs =
    Some (take (nat (pag_page_size pag)) (drop (nat ((pag_page pag - 1) * pag_page_size pag)) xs))"
proof -
  let ?o = "(pag_page pag - 1) * pag_page_size pag"
  have nn: "0 \<le> ?o" using assms by simp
  have "?o \<le> 2 ^ 57 * 50" using assms by (intro mult_mono) auto
  then have o: "?o < 2 ^ 63 - 50" by simp
  have w: "wrap64 (wrap64 (pag_page pag - 1) * pag_page_size pag) = ?o"
    "wrap64 (?o + pag_page_size pag) = ?o + pag_page_size pag"
    using assms nn o by (simp_all add: wrap64_small)
  show ?thesis
  proof (cases "?o \<ge> int (length xs)")
    case True
    then show ?thesis using w nn by (simp add: page_slice_def Let_def nat_le_iff le_nat_iff)
  next
    case False
    let ?e = "if ?o + pag_page_size pag > int (length xs) then int (length xs) else ?o + pag_page_size pag"
    have "page_slice pag xs = Some (drop (nat ?o) (take (nat ?e) xs))"
      using False w nn assms(3) by (simp add: page_slice_def Let_def)
    also have "drop (nat ?o) (take (nat ?e) xs) =
        take (nat (pag_page_size pag)) (drop (nat ?o) xs)"
    proof (cases "?o + pag_page_size pag > int (length xs)")
      case True
      then have "length (drop (nat ?o) xs) \<le> nat (pag_page_size pag)" using nn by simp
      with True show ?thesis by simp
    next
      case False
      then show ?thesis using nn assms(3) by (simp add: drop_take nat_add_distrib)
    qed
    finally show ?thesis .
  qed
qed

lemma SearchAll_Inr:
  assumes "SearchAll sp arrive sort_results elapsed rctx caps query pag = Some (Inr resp)"
  shows "page_slice (normalize_pagination pag)
      (merged_results sp arrive sort_results rctx caps query (normalize_pagination pag)) =
      Some (sy_results (sq_data resp))"
  using assms
  by (auto simp: SearchAll_def merged_results_def Let_def split: if_splits option.splits)

lemma page_slice_sub:
  assumes "page_slice pag xs = Some ys"
  shows "\<exists>us vs. xs = us @ ys @ vs"
proof -
  have sub: "\<exists>us vs. xs = us @ drop i (take j xs) @ vs" for i j
    by (rule exI [of _ "take i (take j xs)"], rule exI [of _ "drop j xs"])
       (metis append.assoc append_take_drop_id)
  have dr: "\<exists>us vs. xs = us @ drop i xs @ vs" for i
    using sub [of i "length xs"] by simp
  have nl: "\<exists>us vs. xs = us @ [] @ vs" by auto
  show ?thesis
    using assms sub dr nl by (auto simp: page_slice_def Let_def split: if_splits)
qed

lemma result_category: "rx_category (result_of L def n i item) = se_domain def"
  by (simp add: result_of_def Let_def)

lemma mapResults_category: "r \<in> set (mapResults L items def n) \<Longrightarrow> rx_category r = se_domain def"
proof -
  have "r \<in> set (each_from i (\<lambda>i item. [result_of L def k i item]) xs) \<Longrightarrow> rx_category r = se_domain def"
    for i k xs
    by (induction xs arbitrary: i) (auto simp: result_category)
  then show "r \<in> set (mapResults L items def n) \<Longrightarrow> rx_category r = se_domain def"
    by (auto simp: mapResults_def Let_def)
qed

lemma executeProvider_category:
  "r \<in> set (pr_results (executeProvider sp rctx query def)) \<Longrightarrow> rx_category r = se_domain def"
  by (auto simp: executeProvider_def split: prod.splits sum.splits if_splits dest: mapResults_category)

text \<open>What the two orders promise: nothing is lost, and results come best first.\<close>

definition permutes :: "('a list \<Rightarrow> 'a list) \<Rightarrow> bool" where
  "permutes f \<longleftrightarrow> (\<forall>xs. mset (f xs) = mset xs)"


lemma permutes_set: "permutes f \<Longrightarrow> set (f xs) = set xs"
  unfolding permutes_def by (metis mset_eq_setD)

subsection \<open>Properties\<close>

text \<open>
  C36. A search shows only what the caller may search: every result is one that the provider of some
  search definition gave for this query, and that definition is one whose capabilities the caller
  has and that matches the domain filter, in whatever order the providers answer.
\<close>

theorem search_only_allowed:
  assumes "SearchAll sp arrive sort_results elapsed rctx caps query pag = Some (Inr resp)"
    and "permutes arrive" and "permutes sort_results" and "r \<in> set (sy_results (sq_data resp))"
  shows "\<exists>def\<in>set (AllSearches (sv_registry sp)). HasAll caps (se_capabilities def) \<and>
    (pag_domain pag = [] \<or> se_domain def = pag_domain pag) \<and>
    r \<in> set (pr_results (executeProvider sp rctx query def)) \<and> rx_category r = se_domain def"
proof -
  let ?pag = "normalize_pagination pag"
  let ?rs = "concat (List.map pr_results (arrive (List.map (executeProvider sp rctx query)
      (filter (eligible_search caps ?pag) (AllSearches (sv_registry sp))))))"
  have "r \<in> set (merged_results sp arrive sort_results rctx caps query ?pag)"
    using page_slice_sub [OF SearchAll_Inr [OF assms(1)]] assms(4) by auto
  then have "r \<in> set (deduplicate ?rs)"
    unfolding merged_results_def permutes_set [OF assms(3)] .
  then have "r \<in> set ?rs" using deduplicate_spec(3) [of r ?rs] by (simp add: best_of_def)
  then obtain def where def: "def \<in> set (AllSearches (sv_registry sp))" "eligible_search caps ?pag def"
    and given: "r \<in> set (pr_results (executeProvider sp rctx query def))"
    by (auto simp: permutes_set [OF assms(2)])
  from given have "rx_category r = se_domain def" by (rule executeProvider_category)
  moreover have "HasAll caps (se_capabilities def)"
    "pag_domain pag = [] \<or> se_domain def = pag_domain pag"
    using def(2) by (auto simp: eligible_search_def denied_iff normalize_pagination_def Let_def split: if_splits)
  ultimately show ?thesis using def(1) given by blast
qed

definition demo_search :: search_definition where
  "demo_search = \<lparr>se_id = ''orders'', se_domain = ''orders'', se_capabilities = [''orders:search''],
     se_operation = sdk_binding ''searchOrders'',
     se_result_mapping = \<lparr>sm_items_path = ''items'', sm_title_field = ''name'', sm_subtitle_field = [],
       sm_category_field = [], sm_icon_field = [], sm_route = ''/orders/{id}'', sm_id_field = ''id''\<rparr>,
     se_weight = 0, se_max_results = 0\<rparr>"

definition demo_searcher :: search_provider where
  "demo_searcher = NewSearchProvider demo_lib
     (Replace (\<lambda>d. d) [(empty_domain ''orders'')\<lparr>dd_searches := [demo_search]\<rparr>])
     (\<lambda>_ _ _. (Inr (ok_result (GMap [(''items'', GSlice
        [GMap [(''id'', GStr ''7''), (''name'', GStr ''Lamp'')]])])), False)) 0 0"

definition page_one :: pagination where
  "page_one = \<lparr>pag_page = 1, pag_page_size = 20, pag_domain = []\<rparr>"

definition lamp :: search_result where
  "lamp = \<lparr>rx_id = ''7'', rx_title = ''Lamp'', rx_subtitle = [], rx_category = ''orders'', rx_icon = [],
     rx_route = ''/orders/7'', rx_score = f64 (f64 1 * 1)\<rparr>"

definition lamp_response :: search_response where
  "lamp_response = \<lparr>sq_data = \<lparr>sy_results = [lamp], sy_total_count = 1, sy_query = ''lamp''\<rparr>,
     sq_meta = Some [(''providers'', GMap [(''orders'', GStr ''ok'')]), (''query_time_ms'', GInt64 0)]\<rparr>"

lemma demo_merged:
  "deduplicate (pr_results (executeProvider demo_searcher rctx ''lamp'' demo_search)) = [lamp]"
  by (simp add: demo_searcher_def NewSearchProvider_def demo_search_def executeProvider_def ok_result_def
      extractItems_def index_any_def mapResults_def result_of_def getString_def resolveResultRoute_def
      position_score_def search_weight_def lamp_def deduplicate_def Let_def)

lemma demo_search_all:
  "SearchAll demo_searcher (\<lambda>xs. xs) (\<lambda>xs. xs) 0 None [(''orders:search'', True)] ''lamp'' page_one =
     Some (Inr lamp_response)"
proof -
  have regs: "AllSearches (sv_registry demo_searcher) = [demo_search]"
    by (simp add: demo_searcher_def NewSearchProvider_def AllSearches_def Replace_fields demo_search_def)
  have el: "eligible_search [(''orders:search'', True)] (normalize_pagination page_one) demo_search"
    by (simp add: eligible_search_def page_one_def normalize_pagination_def demo_search_def denied_def Has_def)
  have st: "pr_status (executeProvider demo_searcher None ''lamp'' demo_search) = ''ok''"
    "pr_provider_id (executeProvider demo_searcher None ''lamp'' demo_search) = ''orders''"
    by (simp_all add: demo_searcher_def NewSearchProvider_def demo_search_def executeProvider_def ok_result_def)
  have sl: "page_slice (normalize_pagination page_one) [lamp] = Some [lamp]"
    by (subst page_slice_exact) (simp_all add: page_one_def normalize_pagination_def)
  show ?thesis
    by (simp add: SearchAll_def regs el demo_merged sl status_map_def st lamp_response_def Let_def)
qed

theorem search_only_allowed_witness:
  "\<exists>def\<in>set (AllSearches (sv_registry demo_searcher)).
     HasAll [(''orders:search'', True)] (se_capabilities def) \<and>
     (pag_domain page_one = [] \<or> se_domain def = pag_domain page_one) \<and>
     lamp \<in> set (pr_results (executeProvider demo_searcher None ''lamp'' def)) \<and> rx_category lamp = se_domain def"
  by (rule search_only_allowed [OF demo_search_all])
     (simp_all add: permutes_def lamp_response_def)







lemma lamp_merged:
  "merged_results demo_searcher (\<lambda>xs. xs) (sort_key (\<lambda>r. - rx_score r)) None
     [(''orders:search'', True)] ''lamp'' (normalize_pagination page_one) = [lamp]"
proof -
  have "AllSearches (sv_registry demo_searcher) = [demo_search]"
    by (simp add: demo_searcher_def NewSearchProvider_def AllSearches_def Replace_fields demo_search_def)
  moreover have "eligible_search [(''orders:search'', True)] (normalize_pagination page_one) demo_search"
    by (simp add: eligible_search_def page_one_def normalize_pagination_def demo_search_def denied_def Has_def)
  ultimately show ?thesis by (simp add: merged_results_def demo_merged)
qed





text \<open>
  A huge page number makes the search panic: the offset of page 461168601842738792 with twenty
  results per page wraps to a negative int64, and slicing with it is out of range.
\<close>

theorem search_page_overflow:
  assumes "2 \<le> length query"
  shows "SearchAll sp arrive sort_results elapsed rctx caps query
    \<lparr>pag_page = 461168601842738792, pag_page_size = 20, pag_domain = d\<rparr> = None"
proof -
  have "wrap64 (wrap64 (461168601842738792 - 1) * 20) = - 9223372036854775796"
    "wrap64 (- 9223372036854775796 + 20) = - 9223372036854775776"
    by (simp_all add: wrap64_def)
  then have "page_slice (normalize_pagination
      \<lparr>pag_page = 461168601842738792, pag_page_size = 20, pag_domain = d\<rparr>) xs = None" for xs :: "search_result list"
    by (simp add: page_slice_def normalize_pagination_def Let_def)
  then show ?thesis using assms by (simp add: SearchAll_def Let_def)
qed

theorem search_page_overflow_witness:
  "SearchAll demo_searcher (\<lambda>xs. xs) (\<lambda>xs. xs) 0 None [] ''lamp''
    \<lparr>pag_page = 461168601842738792, pag_page_size = 20, pag_domain = []\<rparr> = None"
  by (rule search_page_overflow) simp

end
