(* ===== verification/Lookup.thy ===== *)
theory Lookup imports Search TTLCache begin

section \<open>Lookups and their cache (pkg/search/lookup.go)\<close>

text \<open>
  \<open>GetLookup\<close> serves an option list from the cache or fetches it from the backend. Each reading of
  the clock is an argument. The context is dereferenced by the tenant and partition scopes only.
\<close>

record lk_entry =
  le_options :: "option_descriptor list"
  le_expires :: int

record 'w lookup_provider =
  lp_lib :: golib
  lp_registry :: snapshot
  lp_invokers :: "'w invoke_fn"
  lp_default_ttl :: int
  lp_max_entries :: int
  lp_cache :: "lk_entry gomap"

definition NewLookupProvider ::
  "golib \<Rightarrow> snapshot \<Rightarrow> 'w invoke_fn \<Rightarrow> int \<Rightarrow> int \<Rightarrow> 'w lookup_provider" where
  "NewLookupProvider L reg invoke defaultTTL maxEntries =
     \<lparr>lp_lib = L, lp_registry = reg, lp_invokers = invoke,
      lp_default_ttl = (if defaultTTL \<le> 0 then 300000000000 else defaultTTL),
      lp_max_entries = (if maxEntries \<le> 0 then 1000 else maxEntries), lp_cache = []\<rparr>"

subsection \<open>The cache\<close>

definition lookup_scope :: "lookup_definition \<Rightarrow> string" where
  "lookup_scope def =
     (case lu_cache def of
        None \<Rightarrow> ''global''
      | Some c \<Rightarrow> if cc_scope c \<noteq> [] then cc_scope c else ''global'')"

definition buildCacheKey :: "lookup_definition \<Rightarrow> request_context \<Rightarrow> string" where
  "buildCacheKey def rctx =
     (if lookup_scope def = ''tenant'' then ''lookup:'' @ lu_id def @ '':'' @ TenantID rctx
      else if lookup_scope def = ''partition''
      then ''lookup:'' @ lu_id def @ '':'' @ TenantID rctx @ '':'' @ PartitionID rctx
      else ''lookup:'' @ lu_id def)"

definition getFromCache :: "int \<Rightarrow> string \<Rightarrow> lk_entry gomap \<Rightarrow> option_descriptor list option" where
  "getFromCache now key cache =
     (case gget cache key of
        None \<Rightarrow> None
      | Some entry \<Rightarrow> if now > le_expires entry then None else Some (le_options entry))"

definition evictExpired :: "int \<Rightarrow> lk_entry gomap \<Rightarrow> lk_entry gomap" where
  "evictExpired now cache = filter (\<lambda>(k, v). \<not> now > le_expires v) cache"

text \<open>\<open>t1\<close> is the clock of the eviction, \<open>t2\<close> that of the entry.\<close>

definition putInCache ::
  "int \<Rightarrow> int \<Rightarrow> int \<Rightarrow> int \<Rightarrow> string \<Rightarrow> option_descriptor list \<Rightarrow> lk_entry gomap \<Rightarrow> lk_entry gomap" where
  "putInCache maxEntries ttl t1 t2 key options cache =
     gput key \<lparr>le_options = options, le_expires = t2 + ttl\<rparr>
       (if int (length cache) \<ge> maxEntries then evictExpired t1 cache else cache)"

definition InvalidateLookup :: "string \<Rightarrow> string \<Rightarrow> 'w lookup_provider \<Rightarrow> 'w lookup_provider" where
  "InvalidateLookup lookupID tenantID lp =
     lp\<lparr>lp_cache := filter (\<lambda>(k, _).
        \<not> (has_prefix k (''lookup:'' @ lookupID) \<and> (tenantID = [] \<or> contains k tenantID))) (lp_cache lp)\<rparr>"

definition CacheLen :: "'w lookup_provider \<Rightarrow> int" where
  "CacheLen lp = int (length (lp_cache lp))"

subsection \<open>Options\<close>

definition slice_under :: "gany gomap \<Rightarrow> string \<Rightarrow> gany list option" where
  "slice_under m k = (case gget m k of None \<Rightarrow> None | Some v \<Rightarrow> as_slice v)"

definition extractLookupItems :: "gany \<Rightarrow> gany gomap list option" where
  "extractLookupItems body =
     (case as_slice body of
        Some arr \<Rightarrow> Some (maps_of arr)
      | None \<Rightarrow>
          (case as_map body of
             None \<Rightarrow> None
           | Some m \<Rightarrow>
               (case slice_under m ''data'' of
                  Some arr \<Rightarrow> Some (maps_of arr)
                | None \<Rightarrow>
                    (case slice_under m ''items'' of Some arr \<Rightarrow> Some (maps_of arr) | None \<Rightarrow> None))))"

fun options_of :: "golib \<Rightarrow> lookup_definition \<Rightarrow> gany gomap list \<Rightarrow> option_descriptor list" where
  "options_of L def [] = []"
| "options_of L def (item # items) =
     (let label = getString L item (lu_label_field def);
          val = getString L item (lu_value_field def)
      in if label = [] \<and> val = [] then options_of L def items
         else \<lparr>op_label = label, op_value = val, op_icon = []\<rparr> # options_of L def items)"

definition mapLookupResults :: "golib \<Rightarrow> gany \<Rightarrow> lookup_definition \<Rightarrow> option_descriptor list" where
  "mapLookupResults L body def =
     (case extractLookupItems body of None \<Rightarrow> [] | Some items \<Rightarrow> options_of L def items)"

definition filterOptions :: "golib \<Rightarrow> option_descriptor list \<Rightarrow> string \<Rightarrow> option_descriptor list" where
  "filterOptions L options query =
     (if query = [] then options
      else filter (\<lambda>opt. contains (to_lower L (op_label opt)) (to_lower L query)) options)"

definition fetchFromBackend ::
  "'w lookup_provider \<Rightarrow> request_context \<Rightarrow> lookup_definition \<Rightarrow> 'w \<Rightarrow>
   (go_error + option_descriptor list) \<times> 'w" where
  "fetchFromBackend lp rctx def w =
     (let (r, w') = lp_invokers lp (Some rctx) (lu_operation def) empty_input w in
      case r of
        Inl err \<Rightarrow>
          (Inl (Wrap (''lookup '' @ quote (lp_lib lp) (lu_id def) @ '': '' @ error_message err) err), w')
      | Inr result \<Rightarrow>
          if res_status result < 200 \<or> res_status result \<ge> 300
          then (Inl (Plain (''lookup '' @ quote (lp_lib lp) (lu_id def) @ '': backend returned status '' @
                  dec_int (res_status result))), w')
          else (Inr (mapLookupResults (lp_lib lp) (res_body result) def), w'))"

definition lookup_ttl :: "golib \<Rightarrow> int \<Rightarrow> lookup_definition \<Rightarrow> int" where
  "lookup_ttl L default_ttl def =
     (case lu_cache def of
        None \<Rightarrow> default_ttl
      | Some c \<Rightarrow>
          if cc_ttl c \<noteq> [] then (case parse_duration L (cc_ttl c) of Some d \<Rightarrow> d | None \<Rightarrow> default_ttl)
          else default_ttl)"

definition lookup_answer :: "golib \<Rightarrow> option_descriptor list \<Rightarrow> string \<Rightarrow> bool \<Rightarrow> lookup_response" where
  "lookup_answer L options query cached =
     \<lparr>ly_options = filterOptions L options query, ly_meta = Some [(''cached'', GBool cached)]\<rparr>"

text \<open>\<open>t0\<close> is the clock of the cache read, \<open>t1\<close> and \<open>t2\<close> those of the store.\<close>

definition GetLookup ::
  "int \<Rightarrow> int \<Rightarrow> int \<Rightarrow> request_context \<Rightarrow> string \<Rightarrow> string \<Rightarrow> 'w lookup_provider \<Rightarrow> 'w \<Rightarrow>
   (go_error + lookup_response) \<times> 'w lookup_provider \<times> 'w" where
  "GetLookup t0 t1 t2 rctx lookupID query lp w =
     (case GetLookupDef (lp_registry lp) lookupID of
        None \<Rightarrow> (Inl (not_found_error (lp_lib lp) ''lookup'' lookupID), lp, w)
      | Some def \<Rightarrow>
          (let key = buildCacheKey def rctx in
           case getFromCache t0 key (lp_cache lp) of
             Some options \<Rightarrow> (Inr (lookup_answer (lp_lib lp) options query True), lp, w)
           | None \<Rightarrow>
               (let (r, w') = fetchFromBackend lp rctx def w in
                case r of
                  Inl err \<Rightarrow> (Inl err, lp, w')
                | Inr options \<Rightarrow>
                    (Inr (lookup_answer (lp_lib lp) options query False),
                     lp\<lparr>lp_cache := putInCache (lp_max_entries lp)
                          (lookup_ttl (lp_lib lp) (lp_default_ttl lp) def) t1 t2 key options (lp_cache lp)\<rparr>,
                     w'))))"

subsection \<open>The cache keeps the contract\<close>

lemma getFromCache_evict:
  assumes ok: "gmap_ok c" and hit: "getFromCache t k (evictExpired now c) = Some v"
  shows "getFromCache t k c = Some v"
proof -
  have "gget (evictExpired now c) k = (case gget c k of None \<Rightarrow> None
      | Some e \<Rightarrow> if \<not> now > le_expires e then Some e else None)"
    by (simp add: evictExpired_def gget_filter [OF ok] split: option.splits)
  then show ?thesis
    using hit unfolding getFromCache_def by (cases "gget c k") (simp_all split: if_splits)
qed

lemma getFromCache_put:
  "getFromCache t k' (putInCache m ttl t1 t2 k v c) =
     (if k' = k then (if t > t2 + ttl then None else Some v)
      else getFromCache t k' (if int (length c) \<ge> m then evictExpired t1 c else c))"
  by (simp add: getFromCache_def putInCache_def gget_gput)

interpretation lkc: storing_ttl_cache getFromCache "\<lambda>now. putInCache m ttl (evict now) now" "[]" gmap_ok ttl
  for m ttl :: int and evict :: "int \<Rightarrow> int"
proof
  show "gmap_ok []" by simp
  show "gmap_ok c \<Longrightarrow> gmap_ok (putInCache m ttl (evict now) now k v c)" for c now k v
    by (auto simp: putInCache_def evictExpired_def distinct_update intro: gmap_ok_filter)
  show "getFromCache t k [] = None" for t k by (simp add: getFromCache_def)
  show "gmap_ok c \<Longrightarrow> getFromCache t k' (putInCache m ttl (evict now) now k v c) = Some v' \<Longrightarrow>
        k' = k \<and> v' = v \<or> getFromCache t k' c = Some v'" for c t k' now k v v'
    by (auto simp: getFromCache_put split: if_splits dest: getFromCache_evict)
  show "t \<le> t' \<Longrightarrow> getFromCache t' k c = Some v \<Longrightarrow> getFromCache t k c = Some v" for t t' k c v
    by (auto simp: getFromCache_def split: option.splits if_splits)
  show "gmap_ok c \<Longrightarrow> t < now + ttl \<Longrightarrow> getFromCache t k (putInCache m ttl (evict now) now k v c) = Some v"
    for c t now k v by (simp add: getFromCache_put)
  show "gmap_ok c \<Longrightarrow> now + ttl < t \<Longrightarrow> getFromCache t k (putInCache m ttl (evict now) now k v c) = None"
    for c t now k v by (simp add: getFromCache_put)
qed

subsection \<open>Runs of lookups\<close>

text \<open>What was fetched for a key: the options the backend gave to some context with that key.\<close>

definition fetched_for :: "'w lookup_provider \<Rightarrow> string \<Rightarrow> option_descriptor list \<Rightarrow> bool" where
  "fetched_for lp key options \<longleftrightarrow>
     (\<exists>i def rctx w. GetLookupDef (lp_registry lp) i = Some def \<and> buildCacheKey def rctx = key \<and>
        fst (fetchFromBackend lp rctx def w) = Inr options)"

definition lookup_inv :: "'w lookup_provider \<Rightarrow> bool" where
  "lookup_inv lp \<longleftrightarrow> gmap_ok (lp_cache lp) \<and> lkc.justified (fetched_for lp) (lp_cache lp)"

record lookup_call =
  lc_t0 :: int
  lc_t1 :: int
  lc_t2 :: int
  lc_rctx :: request_context
  lc_id :: string
  lc_query :: string

fun run_lookups :: "lookup_call list \<Rightarrow> 'w lookup_provider \<Rightarrow> 'w \<Rightarrow> 'w lookup_provider \<times> 'w" where
  "run_lookups [] lp w = (lp, w)"
| "run_lookups (c # cs) lp w =
     (let (r, lp', w') = GetLookup (lc_t0 c) (lc_t1 c) (lc_t2 c) (lc_rctx c) (lc_id c) (lc_query c) lp w
      in run_lookups cs lp' w')"

text \<open>Everything but the cache stays as it is.\<close>

definition same_setup :: "'w lookup_provider \<Rightarrow> 'w lookup_provider \<Rightarrow> bool" where
  "same_setup lp lp' \<longleftrightarrow> lp_lib lp' = lp_lib lp \<and> lp_registry lp' = lp_registry lp \<and>
     lp_invokers lp' = lp_invokers lp \<and> lp_default_ttl lp' = lp_default_ttl lp \<and>
     lp_max_entries lp' = lp_max_entries lp"

lemma fetch_same [simp]: "fetchFromBackend (lp\<lparr>lp_cache := c\<rparr>) = fetchFromBackend lp"
  by (intro ext) (simp add: fetchFromBackend_def Let_def split: prod.splits sum.splits)

lemma fetched_for_same [simp]: "fetched_for (lp\<lparr>lp_cache := c\<rparr>) = fetched_for lp"
  by (simp add: fetched_for_def fun_eq_iff)

lemma GetLookup_setup: "GetLookup t0 t1 t2 rctx i q lp w = (r, lp', w') \<Longrightarrow> same_setup lp lp'"
  by (auto simp: GetLookup_def same_setup_def Let_def split: option.splits prod.splits sum.splits)

lemma GetLookup_inv:
  assumes "lookup_inv lp" and "GetLookup t0 t1 t2 rctx i q lp w = (r, lp', w')"
  shows "lookup_inv lp'"
proof (cases "GetLookupDef (lp_registry lp) i")
  case None
  with assms show ?thesis by (simp add: GetLookup_def)
next
  case (Some def)
  let ?key = "buildCacheKey def rctx"
  show ?thesis
  proof (cases "getFromCache t0 ?key (lp_cache lp)")
    case hit: (Some options)
    with assms Some show ?thesis by (simp add: GetLookup_def Let_def)
  next
    case miss: None
    obtain r1 w1 where fetch: "fetchFromBackend lp rctx def w = (r1, w1)" by (metis prod.exhaust)
    show ?thesis
    proof (cases r1)
      case (Inl err)
      with assms Some miss fetch show ?thesis by (simp add: GetLookup_def Let_def)
    next
      case (Inr options)
      let ?put = "putInCache (lp_max_entries lp) (lookup_ttl (lp_lib lp) (lp_default_ttl lp) def) t1 t2
          ?key options (lp_cache lp)"
      have lp': "lp' = lp\<lparr>lp_cache := ?put\<rparr>"
        using assms(2) Some miss fetch Inr by (simp add: GetLookup_def Let_def)
      have ok: "gmap_ok (lp_cache lp)" and just: "lkc.justified (fetched_for lp) (lp_cache lp)"
        using assms(1) by (auto simp: lookup_inv_def)
      have "fetched_for lp ?key options"
        using Some fetch Inr unfolding fetched_for_def by (metis fst_conv)
      with lkc.justified_put [OF ok just, where evict = "\<lambda>_. t1"] lkc.cinv_put [OF ok, where evict = "\<lambda>_. t1"]
      show ?thesis by (simp add: lookup_inv_def lp')
    qed
  qed
qed

lemma run_lookups_inv:
  "lookup_inv lp \<Longrightarrow> run_lookups cs lp w = (lp', w') \<Longrightarrow> lookup_inv lp' \<and> same_setup lp lp'"
proof (induction cs arbitrary: lp w)
  case Nil
  then show ?case by (simp add: same_setup_def)
next
  case (Cons c cs)
  obtain r lp1 w1 where g: "GetLookup (lc_t0 c) (lc_t1 c) (lc_t2 c) (lc_rctx c) (lc_id c) (lc_query c) lp w = (r, lp1, w1)"
    by (metis prod_cases3)
  have "lookup_inv lp1" by (rule GetLookup_inv [OF Cons.prems(1) g])
  moreover have "same_setup lp lp1" by (rule GetLookup_setup [OF g])
  moreover have "run_lookups cs lp1 w1 = (lp', w')" using Cons.prems(2) g by simp
  ultimately have "lookup_inv lp'" "same_setup lp1 lp'" using Cons.IH by blast+
  then show ?case using \<open>same_setup lp lp1\<close> by (auto simp: same_setup_def)
qed

lemma lookup_inv_New: "lookup_inv (NewLookupProvider L reg invoke ttl m)"
proof -
  have c: "lp_cache (NewLookupProvider L reg invoke ttl m) = []" by (simp add: NewLookupProvider_def)
  show ?thesis unfolding lookup_inv_def c by (simp add: lkc.justified_empty)
qed

lemma GetLookup_answer:
  assumes "lookup_inv lp" and "GetLookup t0 t1 t2 rctx i q lp w = (Inr resp, lp', w')"
  shows "\<exists>def options. GetLookupDef (lp_registry lp) i = Some def \<and>
    fetched_for lp (buildCacheKey def rctx) options \<and> ly_options resp = filterOptions (lp_lib lp) options q"
proof (cases "GetLookupDef (lp_registry lp) i")
  case None
  with assms show ?thesis by (simp add: GetLookup_def)
next
  case (Some def)
  let ?key = "buildCacheKey def rctx"
  show ?thesis
  proof (cases "getFromCache t0 ?key (lp_cache lp)")
    case hit: (Some options)
    then have "fetched_for lp ?key options"
      using assms(1) lkc.justified_hit unfolding lookup_inv_def by blast
    with assms Some hit show ?thesis by (auto simp: GetLookup_def Let_def lookup_answer_def)
  next
    case miss: None
    obtain r1 w1 where fetch: "fetchFromBackend lp rctx def w = (r1, w1)" by (metis prod.exhaust)
    with assms Some miss obtain options where o1: "r1 = Inr options"
      "resp = lookup_answer (lp_lib lp) options q False"
      by (cases r1) (auto simp: GetLookup_def Let_def)
    have "fetched_for lp ?key options"
      using Some fetch o1(1) unfolding fetched_for_def by (metis fst_conv)
    with Some o1(2) show ?thesis by (auto simp: lookup_answer_def)
  qed
qed

lemma colon_free_split:
  fixes c :: char
  assumes "c \<notin> set a" and "c \<notin> set a'" and "a @ c # b = a' @ c # b'"
  shows "a = a' \<and> b = b'"
proof -
  have "split_on c (a @ c # b) = split_on c (a' @ c # b')" using assms(3) by simp
  then have "a = a'" using assms(1,2) by (simp add: split_on_append)
  with assms(3) show ?thesis by simp
qed

lemma key_tenant:
  assumes "lookup_scope def = ''tenant''" and "CHR '':'' \<notin> set (lu_id def)" and "CHR '':'' \<notin> set (lu_id def')"
    and "lu_id def' = lu_id def \<Longrightarrow> def' = def"
    and "buildCacheKey def' rctx' = buildCacheKey def rctx"
  shows "def' = def \<and> TenantID rctx' = TenantID rctx"
proof -
  have d: "drop 7 (buildCacheKey def rctx) = lu_id def @ CHR '':'' # TenantID rctx"
    using assms(1) by (simp add: buildCacheKey_def)
  have "lookup_scope def' = ''tenant'' \<or> lookup_scope def' = ''partition''"
  proof (rule ccontr)
    assume "\<not> ?thesis"
    then have "drop 7 (buildCacheKey def' rctx') = lu_id def'" by (simp add: buildCacheKey_def)
    then have "lu_id def' = lu_id def @ CHR '':'' # TenantID rctx" using d assms(5) by simp
    then have "CHR '':'' \<in> set (lu_id def')" by simp
    with assms(3) show False by blast
  qed
  then obtain rest where "drop 7 (buildCacheKey def' rctx') = lu_id def' @ CHR '':'' # rest"
    by (auto simp: buildCacheKey_def)
  with d assms(5) have "lu_id def' @ CHR '':'' # rest = lu_id def @ CHR '':'' # TenantID rctx" by simp
  from colon_free_split [OF assms(3,2) this] assms(4) have "def' = def" by blast
  with assms(1,5) show ?thesis by (simp add: buildCacheKey_def)
qed

text \<open>What is kept under the key of a tenant-scoped definition was fetched for the same tenant.\<close>

lemma fetched_for_tenant:
  assumes "fetched_for lp (buildCacheKey def rctx) options" and "lp_registry lp = Replace sha defs"
    and "GetLookupDef (Replace sha defs) i = Some def" and "lookup_scope def = ''tenant''"
    and free: "\<And>k l. GetLookupDef (Replace sha defs) k = Some l \<Longrightarrow> CHR '':'' \<notin> set k"
  shows "\<exists>rctx' w. TenantID rctx' = TenantID rctx \<and> fst (fetchFromBackend lp rctx' def w) = Inr options"
proof -
  obtain i' def' rctx' w where f: "GetLookupDef (Replace sha defs) i' = Some def'"
    "buildCacheKey def' rctx' = buildCacheKey def rctx" "fst (fetchFromBackend lp rctx' def' w) = Inr options"
    using assms(1,2) unfolding fetched_for_def by auto
  have ids: "lu_id def = i" "lu_id def' = i'"
    using lookups.lookup_ident assms(3) f(1) by blast+
  have "def' = def \<and> TenantID rctx' = TenantID rctx"
    by (rule key_tenant [OF assms(4) _ _ _ f(2)]) (use ids free [OF assms(3)] free [OF f(1)] assms(3) f(1) in auto)
  with f(3) show ?thesis by blast
qed

text \<open>What a caller is answered for a tenant-scoped definition was fetched for the same tenant.\<close>

lemma tenant_scoped_answer:
  assumes "lookup_inv lp" and "lp_registry lp = Replace sha defs"
    and "GetLookup t0 t1 t2 rctx i q lp w = (Inr resp, lp', w')"
    and "GetLookupDef (Replace sha defs) i = Some def" and "lookup_scope def = ''tenant''"
    and "\<And>k l. GetLookupDef (Replace sha defs) k = Some l \<Longrightarrow> CHR '':'' \<notin> set k"
  shows "\<exists>rctx' w1 options. TenantID rctx' = TenantID rctx \<and>
    fst (fetchFromBackend lp rctx' def w1) = Inr options \<and> ly_options resp = filterOptions (lp_lib lp) options q"
proof -
  obtain options where opt: "fetched_for lp (buildCacheKey def rctx) options"
    "ly_options resp = filterOptions (lp_lib lp) options q"
    using GetLookup_answer [OF assms(1,3)] assms(2,4) by auto
  have "\<exists>rctx' w. TenantID rctx' = TenantID rctx \<and> fst (fetchFromBackend lp rctx' def w) = Inr options"
    by (rule fetched_for_tenant [OF opt(1) assms(2,4,5)]) (erule assms(6))
  with opt(2) show ?thesis by blast
qed

subsection \<open>Properties\<close>

text \<open>
  A tenant-scoped lookup never shows one tenant another's options: after any run of lookups, by
  any callers at any times, what a caller is answered for a tenant-scoped definition is what the
  backend gave for that definition to a caller of the same tenant (lookup ids without a colon).
\<close>

theorem lookup_tenant_isolation:
  assumes "run_lookups calls (NewLookupProvider L (Replace sha defs) invoke ttl m) w0 = (lp, w)"
    and "GetLookup t0 t1 t2 rctx i q lp w = (Inr resp, lp', w')"
    and "GetLookupDef (Replace sha defs) i = Some def" and "lookup_scope def = ''tenant''"
    and "\<forall>d\<in>set defs. \<forall>l\<in>set (dd_lookups d). CHR '':'' \<notin> set (lu_id l)"
  shows "\<exists>rctx' w1 options. TenantID rctx' = TenantID rctx \<and>
    fst (fetchFromBackend lp rctx' def w1) = Inr options \<and> ly_options resp = filterOptions L options q"
proof -
  have inv: "lookup_inv lp" and same: "same_setup (NewLookupProvider L (Replace sha defs) invoke ttl m) lp"
    using run_lookups_inv [OF lookup_inv_New assms(1)] by auto
  then have reg: "lp_registry lp = Replace sha defs" "lp_lib lp = L"
    by (auto simp: same_setup_def NewLookupProvider_def)
  have "CHR '':'' \<notin> set k" if "GetLookupDef (Replace sha defs) k = Some l" for k l
    using lookups.lookup_member [OF that] lookups.lookup_ident [OF that] assms(5) by auto
  from tenant_scoped_answer [OF inv reg(1) assms(2,3,4) this] reg(2) show ?thesis by simp
qed

definition demo_lookup :: "string \<Rightarrow> lookup_definition" where
  "demo_lookup scope = \<lparr>lu_id = ''branches'', lu_operation = sdk_binding ''branches'',
     lu_label_field = ''name'', lu_value_field = ''id'', lu_search_field = [],
     lu_cache = (if scope = [] then None else Some \<lparr>cc_ttl = [], cc_scope = scope\<rparr>)\<rparr>"

text \<open>A backend that answers with the tenant of the caller.\<close>

definition tenant_echo :: "unit invoke_fn" where
  "tenant_echo = (\<lambda>rc b io w. (Inr (ok_result (GSlice [GMap [(''id'', GStr ''1''),
     (''name'', GStr (case rc of None \<Rightarrow> [] | Some c \<Rightarrow> TenantID c))]])), w))"

abbreviation lookups_of :: "string \<Rightarrow> unit lookup_provider" where
  "lookups_of scope \<equiv> NewLookupProvider demo_lib
     (Replace (\<lambda>d. d) [(empty_domain ''x'')\<lparr>dd_lookups := [demo_lookup scope]\<rparr>]) tenant_echo 0 0"

definition tenant_ctx :: "string \<Rightarrow> request_context" where
  "tenant_ctx t = \<lparr>SubjectID = ''u'', Email = [], TenantID = t, PartitionID = [], Roles = [],
      Claims = None, SessionID = [], DeviceID = [], CorrelationID = [], TraceID = [],
      SpanID = [], Locale = [], Timezone = [], Token = []\<rparr>"

lemmas lookup_demo_defs =
  NewLookupProvider_def GetLookup_def GetLookupDef_def Replace_fields demo_lookup_def tenant_echo_def
  tenant_ctx_def buildCacheKey_def lookup_scope_def getFromCache_def fetchFromBackend_def ok_result_def
  mapLookupResults_def extractLookupItems_def getString_def lookup_answer_def filterOptions_def
  lookup_ttl_def putInCache_def Let_def

theorem lookup_tenant_isolation_witness:
  "\<exists>rctx' w1 options. TenantID rctx' = TenantID (tenant_ctx ''acme'') \<and>
    fst (fetchFromBackend (lookups_of ''tenant'') rctx' (demo_lookup ''tenant'') w1) = Inr options \<and>
    ly_options (lookup_answer demo_lib [\<lparr>op_label = ''acme'', op_value = ''1'', op_icon = []\<rparr>] [] False) =
      filterOptions demo_lib options []"
proof (rule lookup_tenant_isolation)
  show "run_lookups [] (NewLookupProvider demo_lib
      (Replace (\<lambda>d. d) [(empty_domain ''x'')\<lparr>dd_lookups := [demo_lookup ''tenant'']\<rparr>]) tenant_echo 0 0) () =
    (lookups_of ''tenant'', ())" by simp
  show "GetLookupDef (Replace (\<lambda>d. d) [(empty_domain ''x'')\<lparr>dd_lookups := [demo_lookup ''tenant'']\<rparr>]) ''branches'' =
    Some (demo_lookup ''tenant'')" by (simp add: GetLookupDef_def Replace_fields demo_lookup_def)
  show "GetLookup 0 0 0 (tenant_ctx ''acme'') ''branches'' [] (lookups_of ''tenant'') () =
    (Inr (lookup_answer demo_lib [\<lparr>op_label = ''acme'', op_value = ''1'', op_icon = []\<rparr>] [] False),
     fst (snd (GetLookup 0 0 0 (tenant_ctx ''acme'') ''branches'' [] (lookups_of ''tenant'') ())),
     snd (snd (GetLookup 0 0 0 (tenant_ctx ''acme'') ''branches'' [] (lookups_of ''tenant'') ())))"
    by (simp add: lookup_demo_defs)
qed (simp_all add: demo_lookup_def lookup_scope_def)

text \<open>
  Without a cache scope the entry is global although the backend is called as the caller: the
  second tenant is answered with the options fetched for the first, without a call of its own.
\<close>

theorem unscoped_lookup_crosses_tenants:
  "let (r1, lp1, w1) = GetLookup 0 0 0 (tenant_ctx ''acme'') ''branches'' [] (lookups_of []) ();
       (r2, lp2, w2) = GetLookup 1 1 1 (tenant_ctx ''globex'') ''branches'' [] lp1 w1
   in map_sum id (\<lambda>r. List.map op_label (ly_options r)) r2 = Inr [''acme'']"
  by (simp add: lookup_demo_defs)

text \<open>
  The configured maximum does not bound the cache: when nothing has expired, storing into a full
  cache makes it larger still.
\<close>

theorem lookup_cache_unbounded:
  assumes "getFromCache now k c = None" and "gget c k = None" and "\<forall>(k, e)\<in>set c. now \<le> le_expires e"
    and "m \<le> int (length c)"
  shows "int (length (putInCache m ttl now now k v c)) > m"
proof -
  have "evictExpired now c = c"
    using assms(3) by (auto simp: evictExpired_def filter_id_conv)
  with assms show ?thesis by (simp add: putInCache_def length_gput_new)
qed

theorem lookup_cache_unbounded_witness:
  "int (length (putInCache 1 5 0 0 ''lookup:b'' [] [(''lookup:a'', \<lparr>le_options = [], le_expires = 9\<rparr>)])) > 1"
  by (rule lookup_cache_unbounded) (simp_all add: getFromCache_def)

text \<open>
  Invalidation matches by prefix: invalidating the lookup \<open>cat\<close> also drops the entries of the
  lookup \<open>category\<close>; with a tenant, the global entry of \<open>cat\<close> itself stays.
\<close>

theorem invalidate_prefix:
  "gkeys (lp_cache (InvalidateLookup ''cat'' []
     ((lookups_of [])\<lparr>lp_cache := [(''lookup:category'', e), (''lookup:cat'', e)]\<rparr>))) = [] \<and>
   gkeys (lp_cache (InvalidateLookup ''cat'' ''acme''
     ((lookups_of [])\<lparr>lp_cache := [(''lookup:cat:acme'', e), (''lookup:cat'', e)]\<rparr>))) = [''lookup:cat'']"
  by (simp add: InvalidateLookup_def)

end
