(* ===== verification/CacheSteps.thy ===== *)
theory CacheSteps imports TTLCache begin

section \<open>Concurrent requests on one shared cache\<close>

text \<open>
  The caches of the program are used alike: a request looks its key up under the lock, computes the
  value without the lock on a miss, and stores it under the lock again. Any number of requests, numbered
  by \<open>nat\<close>, therefore interleave at these points: \<open>Looking\<close> before the lookup, \<open>Missed\<close> before the
  value is computed, \<open>Holding\<close> between the value and the store, \<open>Answered\<close> at the end. \<open>needs\<close> gives the
  key a request looks up, or the error it ends with before; \<open>computes\<close> is a relation, because the answer
  of a backend may change over time; \<open>removes\<close> is what an invalidation may do to the cache.
\<close>

datatype ('e, 'v) cpc =
    Looking
  | Missed
  | Holding 'v
  | Answered "'e + 'v"

record ('c, 'e, 'v) csys =
  cs_cache :: 'c
  cs_clock :: int
  cs_pc :: "nat \<Rightarrow> ('e, 'v) cpc"

definition csys_init :: "'c \<Rightarrow> int \<Rightarrow> ('c, 'e, 'v) csys" where
  "csys_init c t = \<lparr>cs_cache = c, cs_clock = t, cs_pc = (\<lambda>_. Looking)\<rparr>"

definition goes :: "nat \<Rightarrow> ('e, 'v) cpc \<Rightarrow> ('c, 'e, 'v) csys \<Rightarrow> ('c, 'e, 'v) csys" where
  "goes i p s = s\<lparr>cs_pc := (cs_pc s)(i := p)\<rparr>"

lemma goes_simps [simp]:
  "cs_cache (goes i p s) = cs_cache s" "cs_clock (goes i p s) = cs_clock s"
  "cs_pc (goes i p s) j = (if j = i then p else cs_pc s j)"
  by (simp_all add: goes_def)

text \<open>While a request stores, the clock is read for the eviction and again for the entry.\<close>

inductive cache_step ::
  "(int \<Rightarrow> 'k \<Rightarrow> 'c \<Rightarrow> 'v option) \<Rightarrow> (nat \<Rightarrow> int \<Rightarrow> int \<Rightarrow> 'k \<Rightarrow> 'v \<Rightarrow> 'c \<Rightarrow> 'c) \<Rightarrow> (nat \<Rightarrow> 'e + 'k) \<Rightarrow>
   (nat \<Rightarrow> 'e + 'v \<Rightarrow> bool) \<Rightarrow> ('c \<Rightarrow> 'c \<Rightarrow> bool) \<Rightarrow> ('c, 'e, 'v) csys \<Rightarrow> ('c, 'e, 'v) csys \<Rightarrow> bool"
  for look store needs computes removes
where
  tick: "0 \<le> d \<Longrightarrow> cache_step look store needs computes removes s (s\<lparr>cs_clock := cs_clock s + d\<rparr>)"
| refuse: "cs_pc s i = Looking \<Longrightarrow> needs i = Inl e \<Longrightarrow>
    cache_step look store needs computes removes s (goes i (Answered (Inl e)) s)"
| hit: "cs_pc s i = Looking \<Longrightarrow> needs i = Inr k \<Longrightarrow> look (cs_clock s) k (cs_cache s) = Some v \<Longrightarrow>
    cache_step look store needs computes removes s (goes i (Answered (Inr v)) s)"
| miss: "cs_pc s i = Looking \<Longrightarrow> needs i = Inr k \<Longrightarrow> look (cs_clock s) k (cs_cache s) = None \<Longrightarrow>
    cache_step look store needs computes removes s (goes i Missed s)"
| fail: "cs_pc s i = Missed \<Longrightarrow> computes i (Inl e) \<Longrightarrow>
    cache_step look store needs computes removes s (goes i (Answered (Inl e)) s)"
| compute: "cs_pc s i = Missed \<Longrightarrow> computes i (Inr v) \<Longrightarrow>
    cache_step look store needs computes removes s (goes i (Holding v) s)"
| keep: "cs_pc s i = Holding v \<Longrightarrow> needs i = Inr k \<Longrightarrow> cs_clock s \<le> t1 \<Longrightarrow> t1 \<le> t2 \<Longrightarrow>
    cache_step look store needs computes removes s
      (goes i (Answered (Inr v)) (s\<lparr>cs_cache := store i t1 t2 k v (cs_cache s), cs_clock := t2\<rparr>))"
| remove: "removes (cs_cache s) c \<Longrightarrow> cache_step look store needs computes removes s (s\<lparr>cs_cache := c\<rparr>)"

inductive cache_reach ::
  "(int \<Rightarrow> 'k \<Rightarrow> 'c \<Rightarrow> 'v option) \<Rightarrow> (nat \<Rightarrow> int \<Rightarrow> int \<Rightarrow> 'k \<Rightarrow> 'v \<Rightarrow> 'c \<Rightarrow> 'c) \<Rightarrow> (nat \<Rightarrow> 'e + 'k) \<Rightarrow>
   (nat \<Rightarrow> 'e + 'v \<Rightarrow> bool) \<Rightarrow> ('c \<Rightarrow> 'c \<Rightarrow> bool) \<Rightarrow> 'c \<Rightarrow> ('c, 'e, 'v) csys \<Rightarrow> bool"
  for look store needs computes removes empty
where
  start: "cache_reach look store needs computes removes empty (csys_init empty t)"
| run: "cache_reach look store needs computes removes empty s \<Longrightarrow>
    cache_step look store needs computes removes s s' \<Longrightarrow>
    cache_reach look store needs computes removes empty s'"

inductive_cases cache_stepE: "cache_step look store needs computes removes s s'"

subsection \<open>What a request is answered\<close>

text \<open>
  The interface: each store keeps the contract of a cache with expiry, and an invalidation invents
  nothing. Then an answer was computed for a request that looked up the same key, whatever the
  interleaving, and an error is the request's own.
\<close>

locale shared_cache =
  fixes look :: "int \<Rightarrow> 'k \<Rightarrow> 'c \<Rightarrow> 'v option"
    and store :: "nat \<Rightarrow> int \<Rightarrow> int \<Rightarrow> 'k \<Rightarrow> 'v \<Rightarrow> 'c \<Rightarrow> 'c"
    and empty :: 'c
    and ok :: "'c \<Rightarrow> bool"
    and removes :: "'c \<Rightarrow> 'c \<Rightarrow> bool"
  assumes each_store: "ttl_cache look (\<lambda>now. store i (evict now) now) empty ok"
    and remove_ok: "ok c \<Longrightarrow> removes c c' \<Longrightarrow> ok c'"
    and remove_look: "ok c \<Longrightarrow> removes c c' \<Longrightarrow> look t k c' = Some v \<Longrightarrow> look t k c = Some v"
begin

lemma ok_empty: "ok empty"
  using ttl_cache.cinv_empty [OF each_store] .

lemma look_empty: "look t k empty = None"
  using ttl_cache.cget_empty [OF each_store] .

lemma ok_store: "ok c \<Longrightarrow> ok (store i t1 t2 k v c)"
  using ttl_cache.cinv_put [OF each_store [where evict = "\<lambda>_. t1"]] .

lemma look_store:
  "ok c \<Longrightarrow> look t k' (store i t1 t2 k v c) = Some v' \<Longrightarrow> (k' = k \<and> v' = v) \<or> look t k' c = Some v'"
  using ttl_cache.cget_put [OF each_store [where evict = "\<lambda>_. t1"]] .

definition computed :: "(nat \<Rightarrow> 'e + 'k) \<Rightarrow> (nat \<Rightarrow> 'e + 'v \<Rightarrow> bool) \<Rightarrow> 'k \<Rightarrow> 'v \<Rightarrow> bool" where
  "computed needs computes k v \<longleftrightarrow> (\<exists>j. needs j = Inr k \<and> computes j (Inr v))"

definition fair :: "(nat \<Rightarrow> 'e + 'k) \<Rightarrow> (nat \<Rightarrow> 'e + 'v \<Rightarrow> bool) \<Rightarrow> nat \<Rightarrow> ('e, 'v) cpc \<Rightarrow> bool" where
  "fair needs computes i p \<longleftrightarrow>
     (case p of
        Looking \<Rightarrow> True
      | Missed \<Rightarrow> \<exists>k. needs i = Inr k
      | Holding v \<Rightarrow> \<exists>k. needs i = Inr k \<and> computed needs computes k v
      | Answered (Inr v) \<Rightarrow> \<exists>k. needs i = Inr k \<and> computed needs computes k v
      | Answered (Inl e) \<Rightarrow> needs i = Inl e \<or> computes i (Inl e))"

definition all_fair ::
  "(nat \<Rightarrow> 'e + 'k) \<Rightarrow> (nat \<Rightarrow> 'e + 'v \<Rightarrow> bool) \<Rightarrow> ('c, 'e, 'v) csys \<Rightarrow> bool" where
  "all_fair needs computes s \<longleftrightarrow> ok (cs_cache s) \<and>
     (\<forall>t k v. look t k (cs_cache s) = Some v \<longrightarrow> computed needs computes k v) \<and>
     (\<forall>i. fair needs computes i (cs_pc s i))"

lemma all_fair_init: "all_fair needs computes (csys_init empty t)"
  by (simp add: all_fair_def csys_init_def ok_empty look_empty fair_def)

lemma all_fair_goes:
  "all_fair needs computes s \<Longrightarrow> fair needs computes i p \<Longrightarrow> all_fair needs computes (goes i p s)"
  by (simp add: all_fair_def)

lemma all_fair_store:
  assumes "all_fair needs computes s" and "computed needs computes k v"
  shows "all_fair needs computes (s\<lparr>cs_cache := store i t1 t2 k v (cs_cache s), cs_clock := t\<rparr>)"
  using assms look_store by (fastforce simp: all_fair_def intro: ok_store)

lemma all_fair_step:
  assumes "cache_step look store needs computes removes s s'" and "all_fair needs computes s"
  shows "all_fair needs computes s'"
  using assms
proof (induction rule: cache_step.induct)
  case (tick d s)
  then show ?case by (simp add: all_fair_def)
next
  case (refuse s i e)
  then show ?case by (intro all_fair_goes) (simp_all add: fair_def)
next
  case (hit s i k v)
  then show ?case by (intro all_fair_goes) (auto simp: fair_def all_fair_def)
next
  case (miss s i k)
  then show ?case by (intro all_fair_goes) (simp_all add: fair_def)
next
  case (fail s i e)
  then show ?case by (intro all_fair_goes) (simp_all add: fair_def)
next
  case (compute s i v)
  then have "fair needs computes i Missed" by (metis all_fair_def)
  with compute show ?case by (intro all_fair_goes) (auto simp: fair_def computed_def)
next
  case (keep s i v k t1 t2)
  then have "fair needs computes i (Holding v)" by (metis all_fair_def)
  with keep(2) have "computed needs computes k v" by (simp add: fair_def)
  with keep show ?case by (intro all_fair_goes all_fair_store) (simp_all add: fair_def)
next
  case (remove s c)
  then show ?case using remove_ok remove_look by (simp add: all_fair_def) blast
qed

lemma all_fair_reach:
  "cache_reach look store needs computes removes empty s \<Longrightarrow> all_fair needs computes s"
  by (induction rule: cache_reach.induct) (auto intro: all_fair_init all_fair_step)

lemma answer_computed:
  assumes "cache_reach look store needs computes removes empty s" and "cs_pc s i = Answered (Inr v)"
  shows "\<exists>j k. needs i = Inr k \<and> needs j = Inr k \<and> computes j (Inr v)"
proof -
  have "fair needs computes i (Answered (Inr v))"
    using all_fair_reach [OF assms(1)] assms(2) by (metis all_fair_def)
  then show ?thesis by (auto simp: fair_def computed_def)
qed

lemma error_own:
  assumes "cache_reach look store needs computes removes empty s" and "cs_pc s i = Answered (Inl e)"
  shows "needs i = Inl e \<or> computes i (Inl e)"
proof -
  have "fair needs computes i (Answered (Inl e))"
    using all_fair_reach [OF assms(1)] assms(2) by (metis all_fair_def)
  then show ?thesis by (simp add: fair_def)
qed

text \<open>A run in which one request misses, computes its value and stores it.\<close>

lemma answers_first:
  fixes needs :: "nat \<Rightarrow> 'e + 'k"
  assumes "needs i = Inr k" and "computes i (Inr v)"
  shows "\<exists>s. cache_reach look store needs computes removes empty s \<and> cs_pc s i = Answered (Inr v)"
proof -
  let ?step = "cache_step look store needs computes removes"
  define s0 :: "('c, 'e, 'v) csys" where "s0 = csys_init empty 0"
  define s1 where "s1 = goes i Missed s0"
  define s2 where "s2 = goes i (Holding v) s1"
  define s3 where "s3 = goes i (Answered (Inr v)) (s2\<lparr>cs_cache := store i 0 0 k v (cs_cache s2), cs_clock := 0\<rparr>)"
  have "?step s0 s1" unfolding s1_def
    by (rule cache_step.miss [where k = k]) (simp_all add: s0_def csys_init_def look_empty assms)
  moreover have "?step s1 s2" unfolding s2_def
    by (rule cache_step.compute) (simp_all add: s1_def assms)
  moreover have "?step s2 s3" unfolding s3_def
    by (rule cache_step.keep) (simp_all add: s2_def s1_def s0_def csys_init_def assms)
  ultimately have "cache_reach look store needs computes removes empty s3"
    unfolding s0_def by (meson cache_reach.start cache_reach.run)
  then show ?thesis by (intro exI [of _ s3]) (simp add: s3_def)
qed

end

subsection \<open>Every request is answered\<close>

text \<open>A request advances from state to state, and no step sets it back.\<close>

fun cpc_rank :: "('e, 'v) cpc \<Rightarrow> nat" where
  "cpc_rank Looking = 3"
| "cpc_rank Missed = 2"
| "cpc_rank (Holding v) = 1"
| "cpc_rank (Answered r) = 0"

lemma cache_step_rank:
  "cache_step look store needs computes removes s s' \<Longrightarrow>
   cs_pc s' i = cs_pc s i \<or> cpc_rank (cs_pc s' i) < cpc_rank (cs_pc s i)"
  by (erule cache_stepE) auto

text \<open>Each request that has not been answered can move, if its value can be computed.\<close>

lemma cache_step_progress:
  assumes "needs i = Inr k" and "computes i r" and "cpc_rank (cs_pc s i) = Suc n"
  shows "\<exists>s'. cache_step look store needs computes removes s s' \<and> cpc_rank (cs_pc s' i) \<le> n"
proof (cases "cs_pc s i")
  case Looking
  with assms show ?thesis
    by (cases "look (cs_clock s) k (cs_cache s)") (auto dest: cache_step.hit cache_step.miss intro!: exI)
next
  case Missed
  with assms show ?thesis by (cases r) (auto dest: cache_step.fail cache_step.compute intro!: exI)
next
  case (Holding v)
  with assms show ?thesis
    using cache_step.keep [where needs = needs and computes = computes and s = s and i = i and look = look and
        store = store and removes = removes, OF Holding assms(1) order_refl order_refl]
    by (auto intro!: exI)
qed (use assms in simp)

lemma cache_returns:
  assumes "needs i = Inr k" and "computes i r"
  shows "\<exists>n\<le>cpc_rank (cs_pc s i). \<exists>s' ans.
    (cache_step look store needs computes removes ^^ n) s s' \<and> cs_pc s' i = Answered ans"
proof (induction "cpc_rank (cs_pc s i)" arbitrary: s rule: less_induct)
  case less
  show ?case
  proof (cases "cpc_rank (cs_pc s i)")
    case 0
    then obtain ans where "cs_pc s i = Answered ans" by (cases "cs_pc s i") auto
    then show ?thesis by (intro exI [of _ "0 :: nat"]) auto
  next
    case (Suc m)
    from cache_step_progress [where needs = needs and computes = computes and s = s, OF assms Suc] obtain s1
      where s1: "cache_step look store needs computes removes s s1" "cpc_rank (cs_pc s1 i) \<le> m" by blast
    with less [of s1] Suc obtain n s' ans where
      n: "n \<le> cpc_rank (cs_pc s1 i)" "(cache_step look store needs computes removes ^^ n) s1 s'"
        "cs_pc s' i = Answered ans" by auto
    then have "(cache_step look store needs computes removes ^^ Suc n) s s'" "Suc n \<le> cpc_rank (cs_pc s i)"
      using s1 Suc by (blast intro: relpowp_Suc_I2, simp)
    with n(3) show ?thesis by blast
  qed
qed

subsection \<open>A call alone is a run\<close>

text \<open>
  What a call does that nothing interrupts: it fails on its own, is answered from the cache at \<open>t0\<close>, or
  computes an answer and, if it is a value, stores it at \<open>t1\<close> and \<open>t2\<close>.
\<close>

definition call_does ::
  "(int \<Rightarrow> 'k \<Rightarrow> 'c \<Rightarrow> 'v option) \<Rightarrow> (nat \<Rightarrow> int \<Rightarrow> int \<Rightarrow> 'k \<Rightarrow> 'v \<Rightarrow> 'c \<Rightarrow> 'c) \<Rightarrow> (nat \<Rightarrow> 'e + 'k) \<Rightarrow>
   (nat \<Rightarrow> 'e + 'v \<Rightarrow> bool) \<Rightarrow> nat \<Rightarrow> int \<Rightarrow> int \<Rightarrow> int \<Rightarrow> 'c \<Rightarrow> 'e + 'v \<Rightarrow> 'c \<Rightarrow> bool" where
  "call_does look store needs computes i t0 t1 t2 c ans c' \<longleftrightarrow>
     (case needs i of
        Inl e \<Rightarrow> ans = Inl e \<and> c' = c
      | Inr k \<Rightarrow>
          (case look t0 k c of
             Some v \<Rightarrow> ans = Inr v \<and> c' = c
           | None \<Rightarrow> computes i ans \<and> c' = (case ans of Inl e \<Rightarrow> c | Inr v \<Rightarrow> store i t1 t2 k v c)))"

definition answered_by :: "('c, 'e, 'v) csys \<Rightarrow> nat \<Rightarrow> int \<Rightarrow> 'e + 'v \<Rightarrow> 'c \<Rightarrow> ('c, 'e, 'v) csys \<Rightarrow> bool" where
  "answered_by s i t ans c s' \<longleftrightarrow>
     cs_pc s' = (cs_pc s)(i := Answered ans) \<and> cs_cache s' = c \<and> cs_clock s' \<le> t"

lemma cache_call_runs:
  assumes looking: "cs_pc s i = Looking" and times: "cs_clock s \<le> t0" "t0 \<le> t1" "t1 \<le> t2"
    and does: "call_does look store needs computes i t0 t1 t2 (cs_cache s) ans c"
  shows "\<exists>s'. (cache_step look store needs computes removes)\<^sup>*\<^sup>* s s' \<and> answered_by s i t2 ans c s'"
proof -
  let ?step = "cache_step look store needs computes removes"
  define s1 where "s1 = s\<lparr>cs_clock := t0\<rparr>"
  have "?step s (s\<lparr>cs_clock := cs_clock s + (t0 - cs_clock s)\<rparr>)" by (rule cache_step.tick) (simp add: times)
  then have s1: "?step\<^sup>*\<^sup>* s s1" by (simp add: s1_def r_into_rtranclp)
  have at: "cs_pc s1 i = Looking" "cs_clock s1 = t0" "cs_cache s1 = cs_cache s" by (simp_all add: s1_def looking)
  have ends: "answered_by s i t2 r (cs_cache s) (goes i (Answered r) s1)" for r
    using times by (simp add: answered_by_def goes_def s1_def)
  show ?thesis
  proof (cases "needs i")
    case (Inl e)
    then have "?step s1 (goes i (Answered (Inl e)) s1)" by (rule cache_step.refuse [where needs = needs, OF at(1)])
    with s1 ends [of "Inl e"] does Inl show ?thesis
      by (auto simp: call_does_def intro: rtranclp.rtrancl_into_rtrancl)
  next
    case (Inr k)
    show ?thesis
    proof (cases "look t0 k (cs_cache s)")
      case (Some v)
      then have "?step s1 (goes i (Answered (Inr v)) s1)" using at Inr by (intro cache_step.hit [where k = k]) simp_all
      with s1 ends [of "Inr v"] does Inr Some show ?thesis
        by (auto simp: call_does_def intro: rtranclp.rtrancl_into_rtrancl)
    next
      case None
      then have "?step s1 (goes i Missed s1)" using at Inr by (intro cache_step.miss [where k = k]) simp_all
      with s1 have missed: "?step\<^sup>*\<^sup>* s (goes i Missed s1)" by (rule rtranclp.rtrancl_into_rtrancl)
      have comp: "computes i ans" "c = (case ans of Inl e \<Rightarrow> cs_cache s | Inr v \<Rightarrow> store i t1 t2 k v (cs_cache s))"
        using does Inr None by (simp_all add: call_does_def)
      have over: "goes i p (goes i q s1) = goes i p s1" for p q by (simp add: goes_def)
      show ?thesis
      proof (cases ans)
        case (Inl e)
        with comp have "?step (goes i Missed s1) (goes i (Answered (Inl e)) (goes i Missed s1))"
          by (intro cache_step.fail) simp_all
        with missed ends [of "Inl e"] comp(2) Inl show ?thesis
          unfolding over by (auto intro: rtranclp.rtrancl_into_rtrancl)
      next
        case (Inr v)
        with comp have "?step (goes i Missed s1) (goes i (Holding v) (goes i Missed s1))"
          by (intro cache_step.compute) simp_all
        with missed have held: "?step\<^sup>*\<^sup>* s (goes i (Holding v) s1)"
          unfolding over by (rule rtranclp.rtrancl_into_rtrancl)
        let ?h = "goes i (Holding v) s1"
        have "?step ?h (goes i (Answered (Inr v)) (?h\<lparr>cs_cache := store i t1 t2 k v (cs_cache ?h), cs_clock := t2\<rparr>))"
          using \<open>needs i = Inr k\<close> times at by (intro cache_step.keep [where k = k]) simp_all
        moreover have "answered_by s i t2 (Inr v) c
            (goes i (Answered (Inr v)) (?h\<lparr>cs_cache := store i t1 t2 k v (cs_cache ?h), cs_clock := t2\<rparr>))"
          using comp(2) Inr by (simp add: answered_by_def goes_def s1_def)
        ultimately show ?thesis using held Inr by (auto intro: rtranclp.rtrancl_into_rtrancl)
      qed
    qed
  qed
qed

end
