(* ===== verification/LookupSteps.thy ===== *)
theory LookupSteps imports Lookup CacheSteps begin

section \<open>Concurrent lookups on one provider\<close>

text \<open>
  \<open>GetLookup\<close> releases the read lock before it calls the backend and takes the write lock to store, so
  concurrent lookups interleave as the steps of CacheSteps. A lookup looks up its cache key or ends with
  the error for an unknown id; it computes what the backend answers in some world; its store reads the
  lifetime from the definition; \<open>Invalidate\<close> may run at any moment, with any arguments.
\<close>

record lookup_request =
  lr_rctx :: request_context
  lr_id :: string
  lr_query :: string

definition lookup_needs :: "'w lookup_provider \<Rightarrow> (nat \<Rightarrow> lookup_request) \<Rightarrow> nat \<Rightarrow> go_error + string" where
  "lookup_needs lp rq i =
     (case GetLookupDef (lp_registry lp) (lr_id (rq i)) of
        None \<Rightarrow> Inl (not_found_error (lp_lib lp) ''lookup'' (lr_id (rq i)))
      | Some def \<Rightarrow> Inr (buildCacheKey def (lr_rctx (rq i))))"

definition lookup_computes ::
  "'w lookup_provider \<Rightarrow> (nat \<Rightarrow> lookup_request) \<Rightarrow> nat \<Rightarrow> go_error + option_descriptor list \<Rightarrow> bool" where
  "lookup_computes lp rq i r \<longleftrightarrow>
     (\<exists>def w. GetLookupDef (lp_registry lp) (lr_id (rq i)) = Some def \<and>
        fst (fetchFromBackend lp (lr_rctx (rq i)) def w) = r)"

definition lookup_store ::
  "'w lookup_provider \<Rightarrow> (nat \<Rightarrow> lookup_request) \<Rightarrow> nat \<Rightarrow> int \<Rightarrow> int \<Rightarrow> string \<Rightarrow> option_descriptor list \<Rightarrow>
   lk_entry gomap \<Rightarrow> lk_entry gomap" where
  "lookup_store lp rq i =
     putInCache (lp_max_entries lp)
       (case GetLookupDef (lp_registry lp) (lr_id (rq i)) of
          None \<Rightarrow> lp_default_ttl lp
        | Some def \<Rightarrow> lookup_ttl (lp_lib lp) (lp_default_ttl lp) def)"

definition lookup_removes :: "'w lookup_provider \<Rightarrow> lk_entry gomap \<Rightarrow> lk_entry gomap \<Rightarrow> bool" where
  "lookup_removes lp c c' \<longleftrightarrow> (\<exists>i t. c' = lp_cache (InvalidateLookup i t (lp\<lparr>lp_cache := c\<rparr>)))"

definition lookups_reach ::
  "'w lookup_provider \<Rightarrow> (nat \<Rightarrow> lookup_request) \<Rightarrow>
   (lk_entry gomap, go_error, option_descriptor list) csys \<Rightarrow> bool" where
  "lookups_reach lp rq =
     cache_reach getFromCache (lookup_store lp rq) (lookup_needs lp rq) (lookup_computes lp rq)
       (lookup_removes lp) []"

subsection \<open>The interface holds\<close>

lemma InvalidateLookup_filter:
  "lp_cache (InvalidateLookup i t (lp\<lparr>lp_cache := c\<rparr>)) = filter (\<lambda>(k, _).
     \<not> (has_prefix k (''lookup:'' @ i) \<and> (t = [] \<or> contains k t))) c"
  by (simp add: InvalidateLookup_def)

lemma getFromCache_filter:
  assumes "gmap_ok c" and "getFromCache t k (filter P c) = Some v"
  shows "getFromCache t k c = Some v"
proof -
  from assms(2) obtain e where e: "gget (filter P c) k = Some e" "getFromCache t k (filter P c) = Some v"
    by (auto simp: getFromCache_def simp del: map_of_eq_Some_iff split: option.splits)
  from gget_in_set [OF e(1)] have "(k, e) \<in> set c" by simp
  then have "gget c k = Some e" by (rule gget_of_mem [OF assms(1)])
  with e show ?thesis by (simp add: getFromCache_def del: map_of_eq_Some_iff)
qed

interpretation lookups_shared: shared_cache getFromCache "lookup_store lp rq" "[]" gmap_ok "lookup_removes lp"
  for lp :: "'w lookup_provider" and rq :: "nat \<Rightarrow> lookup_request"
proof (rule shared_cache.intro)
  show "ttl_cache getFromCache (\<lambda>now. lookup_store lp rq i (evict now) now) [] gmap_ok" for i evict
    unfolding lookup_store_def by (rule lkc.ttl_cache_axioms)
  show "gmap_ok c \<Longrightarrow> lookup_removes lp c c' \<Longrightarrow> gmap_ok c'" for c c'
    by (auto simp: lookup_removes_def InvalidateLookup_filter intro: gmap_ok_filter)
  show "gmap_ok c \<Longrightarrow> lookup_removes lp c c' \<Longrightarrow> getFromCache t k c' = Some v \<Longrightarrow> getFromCache t k c = Some v"
    for c c' t k v
    using getFromCache_filter by (auto simp: lookup_removes_def InvalidateLookup_filter)
qed

text \<open>What a request is answered was fetched for its key.\<close>

lemma answer_fetched_for:
  assumes "lookups_reach lp rq s" and "cs_pc s i = Answered (Inr options)"
  shows "\<exists>def. GetLookupDef (lp_registry lp) (lr_id (rq i)) = Some def \<and>
    fetched_for lp (buildCacheKey def (lr_rctx (rq i))) options"
proof -
  obtain j k where "lookup_needs lp rq i = Inr k" "lookup_needs lp rq j = Inr k"
    "lookup_computes lp rq j (Inr options)"
    using lookups_shared.answer_computed assms unfolding lookups_reach_def by blast
  then show ?thesis
    by (auto simp: lookup_needs_def lookup_computes_def fetched_for_def split: option.splits)
qed

subsection \<open>Properties\<close>

text \<open>
  C21. Concurrent lookups keep tenants apart: in every interleaving of any number of lookups, ticks and
  invalidations, the options that a lookup of a tenant-scoped definition is answered with were fetched
  for that definition and a caller of the same tenant (no lookup id has a colon).
\<close>

theorem concurrent_lookups_isolated:
  assumes "lookups_reach lp rq s" and "cs_pc s i = Answered (Inr options)"
    and "lp_registry lp = Replace sha defs"
    and "GetLookupDef (Replace sha defs) (lr_id (rq i)) = Some def" and "lookup_scope def = ''tenant''"
    and "\<And>k l. GetLookupDef (Replace sha defs) k = Some l \<Longrightarrow> CHR '':'' \<notin> set k"
  shows "\<exists>rctx' w. TenantID rctx' = TenantID (lr_rctx (rq i)) \<and>
    fst (fetchFromBackend lp rctx' def w) = Inr options"
proof -
  have "fetched_for lp (buildCacheKey def (lr_rctx (rq i))) options"
    using answer_fetched_for [OF assms(1,2)] assms(3,4) by auto
  then show ?thesis by (rule fetched_for_tenant [OF _ assms(3-5)]) (erule assms(6))
qed

text \<open>Lookups of one tenant, one of which misses, fetches and stores.\<close>

definition acme_lookups :: "nat \<Rightarrow> lookup_request" where
  "acme_lookups i = \<lparr>lr_rctx = tenant_ctx ''acme'', lr_id = ''branches'', lr_query = []\<rparr>"

definition acme_options :: "option_descriptor list" where
  "acme_options = [\<lparr>op_label = ''acme'', op_value = ''1'', op_icon = []\<rparr>]"

lemma acme_run:
  "\<exists>s. lookups_reach (lookups_of ''tenant'') acme_lookups s \<and> cs_pc s 1 = Answered (Inr acme_options)"
  unfolding lookups_reach_def
  by (rule lookups_shared.answers_first)
    (simp_all add: lookup_needs_def lookup_computes_def acme_lookups_def acme_options_def lookup_demo_defs)

theorem concurrent_lookups_isolated_witness:
  "\<exists>rctx' w. TenantID rctx' = ''acme'' \<and>
    fst (fetchFromBackend (lookups_of ''tenant'') rctx' (demo_lookup ''tenant'') w) = Inr acme_options"
proof -
  obtain s where s: "lookups_reach (lookups_of ''tenant'') acme_lookups s" "cs_pc s 1 = Answered (Inr acme_options)"
    using acme_run by blast
  have "\<exists>rctx' w. TenantID rctx' = TenantID (lr_rctx (acme_lookups 1)) \<and>
    fst (fetchFromBackend (lookups_of ''tenant'') rctx' (demo_lookup ''tenant'') w) = Inr acme_options"
  proof (rule concurrent_lookups_isolated [OF s])
    show "lp_registry (lookups_of ''tenant'') =
        Replace (\<lambda>d. d) [(empty_domain ''x'')\<lparr>dd_lookups := [demo_lookup ''tenant'']\<rparr>]"
      by (simp add: NewLookupProvider_def)
    show "GetLookupDef (Replace (\<lambda>d. d) [(empty_domain ''x'')\<lparr>dd_lookups := [demo_lookup ''tenant'']\<rparr>])
        (lr_id (acme_lookups 1)) = Some (demo_lookup ''tenant'')"
      by (simp add: acme_lookups_def GetLookupDef_def Replace_fields demo_lookup_def)
    show "GetLookupDef (Replace (\<lambda>d. d) [(empty_domain ''x'')\<lparr>dd_lookups := [demo_lookup ''tenant'']\<rparr>]) k = Some l \<Longrightarrow>
        CHR '':'' \<notin> set k" for k l
      by (auto simp: GetLookupDef_def Replace_fields demo_lookup_def split: if_splits)
  qed (simp add: demo_lookup_def lookup_scope_def)
  then show ?thesis by (simp add: acme_lookups_def tenant_ctx_def)
qed

subsection \<open>The handler's call is a run\<close>

abbreviation lookup_step where
  "lookup_step lp rq \<equiv> cache_step getFromCache (lookup_store lp rq) (lookup_needs lp rq) (lookup_computes lp rq)
     (lookup_removes lp)"

lemma fetch_any_cache: "fetchFromBackend (lp\<lparr>lp_cache := c\<rparr>) rctx def w = fetchFromBackend lp rctx def w"
  by (simp add: fetchFromBackend_def)

lemma lookup_call_does:
  assumes "GetLookup t0 t1 t2 (lr_rctx (rq i)) (lr_id (rq i)) (lr_query (rq i)) (lp\<lparr>lp_cache := c\<rparr>) w = (res, lp', w')"
  shows "\<exists>ans cached. res = map_sum id (\<lambda>options. lookup_answer (lp_lib lp) options (lr_query (rq i)) cached) ans \<and>
    call_does getFromCache (lookup_store lp rq) (lookup_needs lp rq) (lookup_computes lp rq) i t0 t1 t2 c ans (lp_cache lp')"
proof (cases "GetLookupDef (lp_registry lp) (lr_id (rq i))")
  case None
  with assms show ?thesis
    by (intro exI [of _ "Inl (not_found_error (lp_lib lp) ''lookup'' (lr_id (rq i)))"])
      (auto simp: GetLookup_def call_does_def lookup_needs_def)
next
  case (Some def)
  note needs = lookup_needs_def [of lp rq i, unfolded Some option.case]
  show ?thesis
  proof (cases "getFromCache t0 (buildCacheKey def (lr_rctx (rq i))) c")
    case hit: (Some options)
    with assms Some show ?thesis
      by (intro exI [of _ "Inr options"] exI [of _ True]) (auto simp: GetLookup_def call_does_def needs Let_def)
  next
    case miss: None
    obtain r w1 where r: "fetchFromBackend lp (lr_rctx (rq i)) def w = (r, w1)" by (meson surj_pair)
    then have comp: "lookup_computes lp rq i r" using Some by (auto simp: lookup_computes_def intro: exI [of _ w])
    show ?thesis
      using assms Some miss r comp
      by (intro exI [of _ r] exI [of _ False], cases r)
        (auto simp: GetLookup_def call_does_def needs Let_def fetch_any_cache lookup_store_def)
  qed
qed

text \<open>
  C22. The steps refine the handler: a call of \<open>GetLookup\<close>, at any point of any interleaving at which the
  request has not started, has the effect of a run of that request's steps, with the same cache and the same
  answer. So the interleavings include every sequence of calls of the server model.
\<close>

theorem lookup_call_is_run:
  assumes "cs_pc s i = Looking" and "cs_clock s \<le> t0" and "t0 \<le> t1" and "t1 \<le> t2"
    and "GetLookup t0 t1 t2 (lr_rctx (rq i)) (lr_id (rq i)) (lr_query (rq i)) (lp\<lparr>lp_cache := cs_cache s\<rparr>) w =
      (res, lp', w')"
  shows "\<exists>s' ans cached. (lookup_step lp rq)\<^sup>*\<^sup>* s s' \<and> answered_by s i t2 ans (lp_cache lp') s' \<and>
    res = map_sum id (\<lambda>options. lookup_answer (lp_lib lp) options (lr_query (rq i)) cached) ans"
proof -
  obtain ans cached where "res = map_sum id (\<lambda>options. lookup_answer (lp_lib lp) options (lr_query (rq i)) cached) ans"
    and "call_does getFromCache (lookup_store lp rq) (lookup_needs lp rq) (lookup_computes lp rq) i t0 t1 t2 (cs_cache s)
      ans (lp_cache lp')"
    using lookup_call_does [where rq = rq and i = i, OF assms(5)] by blast
  with cache_call_runs [where s = s and i = i, OF assms(1-4) this(2)] show ?thesis by blast
qed

theorem lookup_call_is_run_witness:
  "\<exists>s'. (lookup_step (lookups_of ''tenant'') acme_lookups)\<^sup>*\<^sup>* (csys_init [] 0) s' \<and>
     cs_pc s' 7 = Answered (Inr acme_options)"
proof -
  let ?lp = "lookups_of ''tenant''"
  let ?rq = "acme_lookups 7" and ?s = "csys_init [] 0 :: (lk_entry gomap, go_error, option_descriptor list) csys"
  have call: "GetLookup 1 2 3 (lr_rctx ?rq) (lr_id ?rq) (lr_query ?rq) (?lp\<lparr>lp_cache := cs_cache ?s\<rparr>) () =
    (Inr (lookup_answer (lp_lib ?lp) acme_options [] False),
     fst (snd (GetLookup 1 2 3 (lr_rctx ?rq) (lr_id ?rq) (lr_query ?rq) (?lp\<lparr>lp_cache := cs_cache ?s\<rparr>) ())), ())"
    by (simp add: acme_lookups_def acme_options_def lookup_demo_defs csys_init_def)
  have "\<exists>s' ans cached. (lookup_step ?lp acme_lookups)\<^sup>*\<^sup>* ?s s' \<and>
      answered_by ?s 7 3 ans (lp_cache (fst (snd (GetLookup 1 2 3 (lr_rctx ?rq) (lr_id ?rq) (lr_query ?rq)
        (?lp\<lparr>lp_cache := cs_cache ?s\<rparr>) ())))) s' \<and>
      Inr (lookup_answer (lp_lib ?lp) acme_options [] False) =
        map_sum id (\<lambda>options. lookup_answer (lp_lib ?lp) options (lr_query ?rq) cached) ans"
    by (rule lookup_call_is_run [where s = ?s and i = 7 and rq = acme_lookups and lp = ?lp, OF _ _ _ _ call]) (simp_all add: csys_init_def)
  then obtain s' ans cached where run: "(lookup_step ?lp acme_lookups)\<^sup>*\<^sup>* ?s s'" "cs_pc s' 7 = Answered ans"
    and ans: "Inr (lookup_answer (lp_lib ?lp) acme_options [] False) =
      map_sum id (\<lambda>options. lookup_answer (lp_lib ?lp) options (lr_query ?rq) cached) ans"
    by (auto simp: answered_by_def)
  have "ans = Inr acme_options"
    using ans by (cases ans) (auto simp: acme_lookups_def lookup_answer_def filterOptions_def)
  with run show ?thesis by blast
qed

end
