(* ===== verification/Metrics.thy ===== *)
theory Metrics imports Config Model begin

section \<open>Metric queries, the allowlist and PromQL (pkg/analytics)\<close>

text \<open>
  The query type and granularities of query.go, the allowlist of allowlist.go, and the generation
  of PromQL in prometheus.go. Compiling a regular expression is the argument \<open>compile\<close>; the
  fixed expressions of the sanitizers and \<open>regexp.QuoteMeta\<close> are written out, on runes as the
  regexp package reads them (a byte that is not part of a valid encoding is a rune of its own).
\<close>

subsection \<open>Queries (query.go, backend.go)\<close>

datatype metric_query =
  MetricQuery (mq_metric: string) (mq_aggregation: string) (mq_filters: "string gomap")
    (mq_group_by: string) (mq_numerator: "metric_query option") (mq_denominator: "metric_query option")
    (mq_duration_metric: string) (mq_duration_count_metric: string) (mq_multiplier: rat)

record tenant_filter =
  tf_tenant_id :: string
  tf_partition_ids :: "string list"
  tf_scoped :: bool

definition allowedGranularities :: "int gomap" where
  "allowedGranularities =
     [(''minute'', minute), (''hour'', hour), (''day'', 24 * hour), (''week'', 7 * 24 * hour),
      (''month'', 30 * 24 * hour), (''quarter'', 90 * 24 * hour), (''year'', 365 * 24 * hour)]"

definition ValidateGranularity :: "golib \<Rightarrow> string \<Rightarrow> go_error + int" where
  "ValidateGranularity L g =
     (if g = [] then Inr (24 * hour)
      else case gget allowedGranularities g of
        None \<Rightarrow> Inl (Plain (''invalid granularity '' @ quote L g))
      | Some d \<Rightarrow> Inr d)"

definition IsRatio :: "metric_query \<Rightarrow> bool" where
  "IsRatio q \<longleftrightarrow> mq_numerator q \<noteq> None \<and> mq_denominator q \<noteq> None"

definition IsDuration :: "metric_query \<Rightarrow> bool" where
  "IsDuration q \<longleftrightarrow> mq_duration_metric q \<noteq> [] \<and> mq_duration_count_metric q \<noteq> []"

fun ValidateGroupBy :: "golib \<Rightarrow> string list \<Rightarrow> string list \<Rightarrow> string \<Rightarrow> go_error option" where
  "ValidateGroupBy L all [] val =
     Some (Plain (''invalid group_by '' @ quote L val @ ''; allowed: ['' @ join '' '' all @ '']''))"
| "ValidateGroupBy L all (a # as) val = (if a = val then None else ValidateGroupBy L all as val)"

record time_range_request =
  tq_start :: string
  tq_end :: string

record analytics_request =
  ar_metric :: string
  ar_aggregation :: string
  ar_filters :: "string gomap"
  ar_group_by :: string
  ar_partition_ids :: "string list"
  ar_numerator :: "metric_query option"
  ar_denominator :: "metric_query option"
  ar_limit :: int
  ar_time_range :: time_range_request
  ar_step :: string

definition ToMetricQuery :: "analytics_request \<Rightarrow> metric_query" where
  "ToMetricQuery ar =
     (if ar_numerator ar \<noteq> None \<and> ar_denominator ar \<noteq> None
      then MetricQuery [] [] (ar_filters ar) (ar_group_by ar) (ar_numerator ar) (ar_denominator ar) [] [] 0
      else MetricQuery (ar_metric ar) (ar_aggregation ar) (ar_filters ar) (ar_group_by ar) None None [] [] 0)"

subsection \<open>Runes\<close>

definition byte :: "char \<Rightarrow> nat" where "byte c = of_char c"

definition cont_in :: "nat \<Rightarrow> nat \<Rightarrow> char \<Rightarrow> bool" where
  "cont_in lo hi c \<longleftrightarrow> lo \<le> byte c \<and> byte c \<le> hi"

definition is_cont :: "char \<Rightarrow> bool" where "is_cont c = cont_in 128 191 c"

text \<open>How many bytes the first rune takes: one for ASCII and for an invalid byte.\<close>

definition rune_width :: "string \<Rightarrow> nat" where
  "rune_width s =
     (case s of
        b # c1 # rest \<Rightarrow>
          (let n = byte b in
           if 194 \<le> n \<and> n \<le> 223 then (if is_cont c1 then 2 else 1)
           else if 224 \<le> n \<and> n \<le> 239 then
             (case rest of
                c2 # _ \<Rightarrow>
                  if cont_in (if n = 224 then 160 else 128) (if n = 237 then 159 else 191) c1 \<and> is_cont c2
                  then 3 else 1
              | [] \<Rightarrow> 1)
           else if 240 \<le> n \<and> n \<le> 244 then
             (case rest of
                c2 # c3 # _ \<Rightarrow>
                  if cont_in (if n = 240 then 144 else 128) (if n = 244 then 143 else 191) c1 \<and>
                     is_cont c2 \<and> is_cont c3
                  then 4 else 1
              | _ \<Rightarrow> 1)
           else 1)
      | _ \<Rightarrow> 1)"

text \<open>\<open>ReplaceAllString(s, "_")\<close> for the class of the characters that do not satisfy \<open>ok\<close>.\<close>

function sanitize_runes :: "(char \<Rightarrow> bool) \<Rightarrow> string \<Rightarrow> string" where
  "sanitize_runes ok [] = []"
| "sanitize_runes ok (c # cs) =
     (if ok c then c # sanitize_runes ok cs
      else CHR ''_'' # sanitize_runes ok (drop (rune_width (c # cs) - 1) cs))"
  by pat_completeness auto
termination
  by (relation "measure (\<lambda>(ok, s). length s)") auto

definition is_word_char :: "char \<Rightarrow> bool" where
  "is_word_char c \<longleftrightarrow>
     (CHR ''a'' \<le> c \<and> c \<le> CHR ''z'') \<or> (CHR ''A'' \<le> c \<and> c \<le> CHR ''Z'') \<or> is_digit c \<or> c = CHR ''_''"

definition prefix_digit :: "string \<Rightarrow> string" where
  "prefix_digit s = (if s \<noteq> [] \<and> is_digit (hd s) then CHR ''_'' # s else s)"

definition sanitizeLabelName :: "string \<Rightarrow> string" where
  "sanitizeLabelName name = prefix_digit (sanitize_runes is_word_char name)"

definition sanitizeMetricName :: "string \<Rightarrow> string" where
  "sanitizeMetricName name = prefix_digit (sanitize_runes (\<lambda>c. is_word_char c \<or> c = CHR '':'') name)"

definition isReservedScopeLabel :: "string \<Rightarrow> bool" where
  "isReservedScopeLabel name \<longleftrightarrow> name = ''tenant_id'' \<or> name = ''partition_id''"

subsection \<open>The allowlist (allowlist.go)\<close>

definition backslash_dot :: string where "backslash_dot = [CHR 0x5C, CHR ''.'']"

definition DefaultAllowedMetricPatterns :: "string list" where
  "DefaultAllowedMetricPatterns =
     [''^(loans|funding|savings|ops|identity|notifications|payments|fort|file_service|scheduler|workflow)_.+'',
      ''^(engine|connector|events|formstore|queue|pipeline|scheduler)'' @ backslash_dot @ ''.+'',
      ''^(devices|service_geolocation)/.+'',
      ''.+/(latency|completed_calls)$'',
      ''^http'' @ backslash_dot @ ''server'' @ backslash_dot @ ''request'' @ backslash_dot @ ''duration$'',
      ''^db'' @ backslash_dot @ ''client'' @ backslash_dot @ ''operation'' @ backslash_dot @ ''duration$'',
      ''^rpc'' @ backslash_dot @ ''client'' @ backslash_dot @ ''duration$'',
      ''^rpc'' @ backslash_dot @ ''server'' @ backslash_dot @ ''duration$'',
      ''^gocloud'' @ backslash_dot @ ''dev/pubsub/latency$'']"

type_synonym allowlist = "(string \<Rightarrow> bool) list"

fun compile_all ::
  "golib \<Rightarrow> (string \<Rightarrow> go_error + (string \<Rightarrow> bool)) \<Rightarrow> string list \<Rightarrow> go_error + allowlist" where
  "compile_all L compile [] = Inr []"
| "compile_all L compile (p # ps) =
     (case compile p of
        Inl err \<Rightarrow>
          Inl (Wrap (''analytics: invalid allowed_metrics pattern '' @ quote L p @ '': '' @ error_message err) err)
      | Inr re \<Rightarrow> (case compile_all L compile ps of Inl err \<Rightarrow> Inl err | Inr res \<Rightarrow> Inr (re # res)))"

definition newMetricAllowlist ::
  "golib \<Rightarrow> (string \<Rightarrow> go_error + (string \<Rightarrow> bool)) \<Rightarrow> string list \<Rightarrow> go_error + allowlist" where
  "newMetricAllowlist L compile patterns =
     compile_all L compile (if length patterns = 0 then DefaultAllowedMetricPatterns else patterns)"

fun allows_metric :: "allowlist \<Rightarrow> string \<Rightarrow> bool" where
  "allows_metric [] name = False"
| "allows_metric (re # res) name = (if re name then True else allows_metric res name)"

definition ErrMetricNotAllowed :: string where "ErrMetricNotAllowed = ''metric not allowed''"

definition not_allowed :: "golib \<Rightarrow> string \<Rightarrow> go_error" where
  "not_allowed L name = Wrap (ErrMetricNotAllowed @ '': '' @ quote L name) (Sentinel ErrMetricNotAllowed)"

fun validate_query :: "golib \<Rightarrow> allowlist \<Rightarrow> metric_query \<Rightarrow> go_error option" where
  "validate_query L m (MetricQuery name agg fs g (Some num) (Some den) dm dc mu) =
     (case validate_query L m num of Some err \<Rightarrow> Some err | None \<Rightarrow> validate_query L m den)"
| "validate_query L m (MetricQuery name agg fs g num den dm dc mu) =
     (if dm \<noteq> [] \<and> dc \<noteq> [] then
        (if \<not> allows_metric m dm then Some (not_allowed L dm)
         else if \<not> allows_metric m dc then Some (not_allowed L dc) else None)
      else if name = [] then
        Some (Wrap (ErrMetricNotAllowed @ '': metric name is required'') (Sentinel ErrMetricNotAllowed))
      else if \<not> allows_metric m name then Some (not_allowed L name) else None)"

subsection \<open>Sanitizing the filters of a query (engine.go)\<close>

fun clean_filters :: "string gomap \<Rightarrow> string gomap \<Rightarrow> string gomap" where
  "clean_filters [] cleaned = cleaned"
| "clean_filters ((k, v) # kvs) cleaned =
     (if isReservedScopeLabel (sanitizeLabelName k) then clean_filters kvs cleaned
      else clean_filters kvs (gput k v cleaned))"

primrec sanitizeQueryFilters :: "metric_query \<Rightarrow> metric_query" where
  "sanitizeQueryFilters (MetricQuery name agg fs g num den dm dc mu) =
     MetricQuery name agg (if length fs > 0 then clean_filters fs [] else fs) g
       (map_option sanitizeQueryFilters num) (map_option sanitizeQueryFilters den) dm dc mu"

subsection \<open>Label matchers (prometheus.go)\<close>

definition escape_char :: "char \<Rightarrow> string" where
  "escape_char c =
     (if c = CHR 0x5C then [CHR 0x5C, CHR 0x5C]
      else if c = CHR 0x22 then [CHR 0x5C, CHR 0x22]
      else if c = CHR 0x0A then [CHR 0x5C, CHR ''n'']
      else [c])"

definition escapeLabelValue :: "string \<Rightarrow> string" where
  "escapeLabelValue v = concat (List.map escape_char v)"

text \<open>\<open>regexp.QuoteMeta\<close>: a backslash before every metacharacter.\<close>

definition quote_meta :: "string \<Rightarrow> string" where
  "quote_meta s =
     concat (List.map (\<lambda>c. if c \<in> set (CHR 0x5C # ''.+*?()|[]{}^$'') then [CHR 0x5C, c] else [c]) s)"

definition eq_matcher :: "string \<Rightarrow> string \<Rightarrow> string" where
  "eq_matcher name v = name @ ''='' @ [CHR 0x22] @ escapeLabelValue v @ [CHR 0x22]"

definition re_matcher :: "string \<Rightarrow> string \<Rightarrow> string" where
  "re_matcher name v = name @ ''=~'' @ [CHR 0x22] @ escapeLabelValue v @ [CHR 0x22]"

fun filter_parts :: "string gomap \<Rightarrow> string list \<Rightarrow> string list" where
  "filter_parts fs [] = []"
| "filter_parts fs (k # ks) =
     (let name = sanitizeLabelName k in
      if isReservedScopeLabel name then filter_parts fs ks
      else eq_matcher name (case gget fs k of Some v \<Rightarrow> v | None \<Rightarrow> []) # filter_parts fs ks)"

definition scope_parts :: "tenant_filter \<Rightarrow> string list" where
  "scope_parts f =
     (if tf_scoped f then
        eq_matcher ''tenant_id'' (tf_tenant_id f) #
        (if length (tf_partition_ids f) = 1
         then [eq_matcher ''partition_id'' (tf_partition_ids f ! 0)]
         else if length (tf_partition_ids f) > 1
         then [re_matcher ''partition_id'' (join ''|'' (List.map quote_meta (tf_partition_ids f)))]
         else [])
      else [])"

definition buildLabelMatchers :: "metric_query \<Rightarrow> tenant_filter \<Rightarrow> string" where
  "buildLabelMatchers q f =
     join '','' (scope_parts f @ filter_parts (mq_filters q) (sort (gkeys (mq_filters q))))"

subsection \<open>Durations\<close>

definition tquot :: "int \<Rightarrow> int \<Rightarrow> int" where
  "tquot a b = (if 0 \<le> a then a div b else - ((- a) div b))"

definition trem :: "int \<Rightarrow> int \<Rightarrow> int" where
  "trem a b = a - tquot a b * b"

text \<open>\<open>int(d.Hours())\<close> and \<open>int(d.Minutes())\<close>: a float64 sum, truncated.\<close>

definition whole_units :: "int \<Rightarrow> int \<Rightarrow> int" where
  "whole_units unit d =
     rat_trunc (f64 (f64 (of_int (tquot d unit)) + f64 (f64 (of_int (trem d unit)) / of_int unit)))"

definition formatDuration :: "int \<Rightarrow> string" where
  "formatDuration d =
     (let hours = whole_units hour d in
      if hours \<ge> 24 then dec_int (tquot hours 24) @ ''d''
      else if hours > 0 then dec_int hours @ ''h''
      else
        (let minutes = whole_units minute d in
         if minutes > 0 then dec_int minutes @ ''m'' else ''1m''))"

subsection \<open>PromQL\<close>

definition AggSum :: string where "AggSum = ''sum''"
definition AggAvg :: string where "AggAvg = ''avg''"
definition AggCount :: string where "AggCount = ''count''"
definition AggCountDistinct :: string where "AggCountDistinct = ''count_distinct''"
definition AggGauge :: string where "AggGauge = ''gauge''"

definition selector_of :: "string \<Rightarrow> string \<Rightarrow> string" where
  "selector_of name labels = sanitizeMetricName name @ ''{'' @ labels @ ''}''"

definition increase :: "string \<Rightarrow> string \<Rightarrow> string" where
  "increase selector dur = ''increase('' @ selector @ ''['' @ dur @ ''])''"

definition scalar_expr :: "string \<Rightarrow> string \<Rightarrow> string \<Rightarrow> string \<Rightarrow> string" where
  "scalar_expr agg groupBy selector rangeDur =
     (let inc = increase selector rangeDur in
      if agg = AggGauge then
        (if groupBy \<noteq> [] then ''sum by ('' @ groupBy @ '') ('' @ selector @ '')''
         else ''sum('' @ selector @ '')'')
      else if agg = AggCount \<or> agg = AggSum then
        (if groupBy \<noteq> [] then ''sum by ('' @ groupBy @ '') ('' @ inc @ '')'' else ''sum('' @ inc @ '')'')
      else if agg = AggAvg then
        (if groupBy \<noteq> [] then ''avg by ('' @ groupBy @ '') ('' @ inc @ '')'' else ''avg('' @ inc @ '')'')
      else if agg = AggCountDistinct then
        (if groupBy \<noteq> [] then ''count(count by ('' @ groupBy @ '') ('' @ inc @ ''))''
         else ''count('' @ inc @ '')'')
      else ''sum('' @ inc @ '')'')"

fun buildScalarPromQL :: "golib \<Rightarrow> metric_query \<Rightarrow> tenant_filter \<Rightarrow> int \<Rightarrow> string" where
  "buildScalarPromQL L (MetricQuery name agg fs g (Some num) (Some den) dm dc mu) f dur =
     ''('' @ buildScalarPromQL L num f dur @ '') / ('' @ buildScalarPromQL L den f dur @ '') * 100''"
| "buildScalarPromQL L (MetricQuery name agg fs g num den dm dc mu) f dur =
     (let rangeDur = formatDuration dur;
          labels = buildLabelMatchers (MetricQuery name agg fs g num den dm dc mu) f
      in if dm \<noteq> [] \<and> dc \<noteq> [] then
           ''sum(rate('' @ selector_of dm labels @ ''['' @ rangeDur @ ''])) / sum(rate('' @
           selector_of dc labels @ ''['' @ rangeDur @ ''])) * '' @ fmt_float L (if mu = 0 then 1 else mu)
         else scalar_expr agg (sanitizeLabelName g) (selector_of name labels) rangeDur)"

definition buildRatePromQL :: "metric_query \<Rightarrow> tenant_filter \<Rightarrow> int \<Rightarrow> string" where
  "buildRatePromQL q f step =
     (let selector = selector_of (mq_metric q) (buildLabelMatchers q f) in
      if mq_aggregation q = AggGauge then ''sum('' @ selector @ '')''
      else ''sum('' @ increase selector (formatDuration step) @ '')'')"


subsection \<open>Reading label matchers back\<close>

text \<open>What a PromQL parser reads between the braces of a selector.\<close>

record matcher =
  mt_name :: string
  mt_regex :: bool
  mt_value :: string





definition render :: "matcher \<Rightarrow> string" where
  "render m = (if mt_regex m then re_matcher (mt_name m) (mt_value m) else eq_matcher (mt_name m) (mt_value m))"



lemma render_nonempty [simp]: "render m \<noteq> []"
  by (simp add: render_def eq_matcher_def re_matcher_def)




subsection \<open>The matchers of a query\<close>












subsection \<open>The allowlist and the names of a query\<close>

fun metric_names :: "metric_query \<Rightarrow> string list" where
  "metric_names (MetricQuery name agg fs g (Some num) (Some den) dm dc mu) = metric_names num @ metric_names den"
| "metric_names (MetricQuery name agg fs g num den dm dc mu) =
     (if dm \<noteq> [] \<and> dc \<noteq> [] then [dm, dc] else [name])"

lemma allows_metric_iff: "allows_metric m name \<longleftrightarrow> (\<exists>re\<in>set m. re name)"
  by (induction m) auto

lemma validate_query_names:
  "validate_query L m q = None \<longleftrightarrow> (\<forall>n\<in>set (metric_names q). n \<noteq> [] \<and> allows_metric m n)"
proof (induction L m q rule: validate_query.induct)
  case (1 L m name agg fs g num den dm dc mu)
  then show ?case by (cases "validate_query L m num") auto
qed (auto split: if_splits)

lemma metric_names_sanitize: "metric_names (sanitizeQueryFilters q) = metric_names q"
  by (induction q rule: metric_names.induct) auto

subsection \<open>Properties\<close>


text \<open>
  A query passes the allowlist exactly when every metric name its scalar form reads is named
  and allowed, through nested ratios and for both halves of a duration; removing client filters on
  tenancy labels changes none of these names.
\<close>

theorem allowlist_covers_names:
  "validate_query L m (sanitizeQueryFilters q) = None \<longleftrightarrow>
     (\<forall>n\<in>set (metric_names q). n \<noteq> [] \<and> allows_metric m n)"
  by (simp only: validate_query_names metric_names_sanitize)

text \<open>
  A time series of a ratio reads every metric of the tenant: the ratio passes the allowlist by
  its two halves, and the range query is built from its empty metric name, so the selector has
  only label matchers.
\<close>

theorem ratio_series_unrestricted:
  assumes "ar_numerator ar = Some num" and "ar_denominator ar = Some den"
  shows "(validate_query L m (ToMetricQuery ar) = None \<longleftrightarrow>
       validate_query L m num = None \<and> validate_query L m den = None) \<and>
     buildRatePromQL (ToMetricQuery ar) f step =
       ''sum(increase({'' @ buildLabelMatchers (ToMetricQuery ar) f @ ''}['' @ formatDuration step @ '']))''"
  using assms
  by (simp add: ToMetricQuery_def buildRatePromQL_def selector_of_def sanitizeMetricName_def prefix_digit_def
      increase_def AggGauge_def Let_def split: option.split)

definition demo_metric :: "string \<Rightarrow> metric_query" where
  "demo_metric name = MetricQuery name ''sum'' [] [] None None [] [] 0"

definition demo_ratio :: analytics_request where
  "demo_ratio = \<lparr>ar_metric = [], ar_aggregation = [], ar_filters = [], ar_group_by = [], ar_partition_ids = [],
     ar_numerator = Some (demo_metric ''loans_ok''), ar_denominator = Some (demo_metric ''loans_all''),
     ar_limit = 0, ar_time_range = \<lparr>tq_start = [], tq_end = []\<rparr>, ar_step = []\<rparr>"

theorem ratio_series_unrestricted_witness:
  "validate_query L [\<lambda>n. prefix ''loans_'' n] (ToMetricQuery demo_ratio) = None \<and>
   buildRatePromQL (ToMetricQuery demo_ratio) f step =
     ''sum(increase({'' @ buildLabelMatchers (ToMetricQuery demo_ratio) f @ ''}['' @ formatDuration step @ '']))''"
proof -
  have "ar_numerator demo_ratio = Some (demo_metric ''loans_ok'')"
    "ar_denominator demo_ratio = Some (demo_metric ''loans_all'')" by (simp_all add: demo_ratio_def)
  from ratio_series_unrestricted [OF this] show ?thesis by (simp add: demo_metric_def)
qed

text \<open>
  Durations are rounded down to whole days from one day on: a window of 36 hours is queried as
  one of 24.
\<close>

theorem format_duration_truncates: "formatDuration (36 * hour) = ''1d''"
proof -
  have "f64 36 = (36 :: rat)" using f64_int_pos [of 36] by simp
  then have "whole_units hour (36 * hour) = 36"
    by (simp add: whole_units_def tquot_def trem_def duration_defs rat_trunc_def)
  then show ?thesis
    by (simp add: formatDuration_def Let_def tquot_def dec_int_def dec_nat.simps digit_char_def char_of_eq_iff)
qed

end
