(* ===== verification/AnalyticsCache.thy ===== *)
theory AnalyticsCache imports Metrics CapabilityResolver begin

section \<open>The response cache and the partition resolver (pkg/analytics)\<close>

text \<open>
  cache.go and partition_resolver.go. Both keep a Go map with expiry times, and both interpret the
  contract of TTLCache: the response cache skips a store when it is full of live entries, the
  partition resolver makes room by dropping entries. Each reading of the clock is an argument;
  hashing the JSON of a request is the argument \<open>fp\<close>.
\<close>

subsection \<open>Values\<close>

datatype float64 = Finite rat | PosInf | NegInf | NaN

record time_range =
  tr_start :: int
  tr_end :: int
  tr_granularity :: string

record time_series_point =
  ts_timestamp :: int
  ts_value :: float64
  ts_label :: string

record distribution_segment =
  ds_label :: string
  ds_value :: float64
  ds_color :: string

record top_n_item =
  ti_label :: string
  ti_value :: float64
  ti_metadata :: "string gomap"

text \<open>What an \<open>any\<close> of the cache holds; a nil slice of points is \<open>None\<close>.\<close>

datatype cached_value =
    CScalar float64
  | CPoints "time_series_point list option"
  | CSegments "distribution_segment list"
  | CItems "top_n_item list"

subsection \<open>The response cache (cache.go)\<close>

record query_entry =
  qe_value :: cached_value
  qe_expires :: int

record query_cache =
  qc_ttl :: int
  qc_max :: int
  qc_entries :: "query_entry gomap"

definition newQueryCache :: "int \<Rightarrow> query_cache" where
  "newQueryCache ttl = \<lparr>qc_ttl = ttl, qc_max = 4096, qc_entries = []\<rparr>"

definition qc_get :: "int \<Rightarrow> string \<Rightarrow> query_cache \<Rightarrow> cached_value option" where
  "qc_get now key c =
     (case gget (qc_entries c) key of
        None \<Rightarrow> None
      | Some entry \<Rightarrow> if now > qe_expires entry then None else Some (qe_value entry))"

definition qc_evict :: "int \<Rightarrow> query_entry gomap \<Rightarrow> query_entry gomap" where
  "qc_evict now entries = filter (\<lambda>(k, v). \<not> now > qe_expires v) entries"

text \<open>\<open>t1\<close> is the clock of the eviction, \<open>t2\<close> that of the entry.\<close>

definition qc_put :: "int \<Rightarrow> int \<Rightarrow> string \<Rightarrow> cached_value \<Rightarrow> query_cache \<Rightarrow> query_cache" where
  "qc_put t1 t2 key val c =
     (let full = int (length (qc_entries c)) \<ge> qc_max c;
          entries = (if full then qc_evict t1 (qc_entries c) else qc_entries c)
      in if full \<and> int (length entries) \<ge> qc_max c then c\<lparr>qc_entries := entries\<rparr>
         else c\<lparr>qc_entries := gput key \<lparr>qe_value = val, qe_expires = t2 + qc_ttl c\<rparr> entries\<rparr>)"

text \<open>The fingerprint of a request: JSON writes a map sorted by key.\<close>

record cache_payload =
  cp_kind :: string
  cp_tenant :: string
  cp_partitions :: "string list"
  cp_scoped :: bool
  cp_query :: metric_query
  cp_start :: int
  cp_end :: int
  cp_extra :: "string gomap"

primrec json_query :: "metric_query \<Rightarrow> metric_query" where
  "json_query (MetricQuery name agg fs g num den dm dc mu) =
     MetricQuery name agg (sort_key fst fs) g
       (map_option json_query num) (map_option json_query den) dm dc mu"

definition bucket_seconds :: "int \<Rightarrow> int" where
  "bucket_seconds t = ((t div minute) * minute) div second"

definition payload_of ::
  "string \<Rightarrow> metric_query \<Rightarrow> tenant_filter \<Rightarrow> time_range \<Rightarrow> string gomap \<Rightarrow> cache_payload" where
  "payload_of kind q f tr extra =
     \<lparr>cp_kind = kind, cp_tenant = tf_tenant_id f, cp_partitions = sort (tf_partition_ids f),
      cp_scoped = tf_scoped f, cp_query = json_query q, cp_start = bucket_seconds (tr_start tr),
      cp_end = bucket_seconds (tr_end tr), cp_extra = sort_key fst extra\<rparr>"

definition query_cache_key ::
  "(cache_payload \<Rightarrow> string) \<Rightarrow> string \<Rightarrow> metric_query \<Rightarrow> tenant_filter \<Rightarrow> time_range \<Rightarrow> string gomap \<Rightarrow> string"
  where "query_cache_key fp kind q f tr extra = fp (payload_of kind q f tr extra)"

subsection \<open>The response cache keeps the contract\<close>

definition qc_ok :: "query_cache \<Rightarrow> bool" where
  "qc_ok c \<longleftrightarrow> gmap_ok (qc_entries c) \<and> int (length (qc_entries c)) \<le> qc_max c"

lemma qc_ok_new: "qc_ok (newQueryCache ttl)"
  by (simp add: qc_ok_def newQueryCache_def)

lemma qc_put_setup [simp]: "qc_max (qc_put t1 t2 k v c) = qc_max c" "qc_ttl (qc_put t1 t2 k v c) = qc_ttl c"
  by (simp_all add: qc_put_def Let_def)

lemma length_evict: "length (qc_evict t es) \<le> length es"
  by (simp add: qc_evict_def)

lemma qc_ok_put: "qc_ok c \<Longrightarrow> qc_ok (qc_put t1 t2 k v c)"
  using length_evict [of t1 "qc_entries c"]
    length_gput_le [of k "\<lparr>qe_value = v, qe_expires = t2 + qc_ttl c\<rparr>" "qc_entries c"]
    length_gput_le [of k "\<lparr>qe_value = v, qe_expires = t2 + qc_ttl c\<rparr>" "qc_evict t1 (qc_entries c)"]
  by (auto simp: qc_ok_def qc_put_def Let_def gmap_ok_gput) (auto simp: qc_evict_def gmap_ok_gput)

lemma gget_evict:
  "gmap_ok es \<Longrightarrow> gget (qc_evict t es) k =
     (case gget es k of None \<Rightarrow> None | Some e \<Rightarrow> if t \<le> qe_expires e then Some e else None)"
  by (auto simp: qc_evict_def gget_filter not_less split: option.splits)

lemma qc_get_put:
  "qc_ok c \<Longrightarrow> qc_get t k' (qc_put t1 t2 k v c) = Some v' \<Longrightarrow> k' = k \<and> v' = v \<or> qc_get t k' c = Some v'"
  by (auto simp: qc_get_def qc_put_def Let_def gget_gput gget_evict qc_ok_def
      simp del: map_of_eq_Some_iff split: option.splits if_splits)

interpretation qcache: ttl_cache qc_get "\<lambda>now. qc_put (evict now) now" "newQueryCache ttl" qc_ok
  for evict :: "int \<Rightarrow> int" and ttl :: int
proof
  show "qc_ok (newQueryCache ttl)" by (rule qc_ok_new)
  show "qc_ok c \<Longrightarrow> qc_ok (qc_put (evict now) now k v c)" for c now k v by (rule qc_ok_put)
  show "qc_get t k (newQueryCache ttl) = None" for t k by (simp add: qc_get_def newQueryCache_def)
  show "qc_ok c \<Longrightarrow> qc_get t k' (qc_put (evict now) now k v c) = Some v' \<Longrightarrow>
      k' = k \<and> v' = v \<or> qc_get t k' c = Some v'" for c t k' now k v v'
    by (rule qc_get_put)
  show "t \<le> t' \<Longrightarrow> qc_get t' k c = Some v \<Longrightarrow> qc_get t k c = Some v" for t t' k c v
    by (auto simp: qc_get_def split: option.splits if_splits)
qed

lemma put_keeps_live:
  "qc_ok c \<Longrightarrow> t1 \<le> t \<Longrightarrow> k' \<noteq> k \<Longrightarrow> qc_get t k' c = Some v' \<Longrightarrow> qc_get t k' (qc_put t1 t2 k v c) = Some v'"
  by (auto simp: qc_get_def qc_put_def Let_def gget_gput gget_evict qc_ok_def
      simp del: map_of_eq_Some_iff split: option.splits if_splits)

subsection \<open>The partition resolver (partition_resolver.go)\<close>

record partition_entry =
  pe_ids :: "string list"
  pe_expires :: int

record 'w partition_setup =
  hp_lib :: golib
  hp_lister :: "string \<Rightarrow> string \<Rightarrow> 'w \<Rightarrow> (go_error + string list) \<times> 'w"
  hp_caps :: "request_context \<Rightarrow> 'w \<Rightarrow> (go_error + capability_set) \<times> 'w"
  hp_ttl :: int
  hp_max :: int

definition NewHierarchicalPartitionResolver ::
  "golib \<Rightarrow> (string \<Rightarrow> string \<Rightarrow> 'w \<Rightarrow> (go_error + string list) \<times> 'w) \<Rightarrow>
   (request_context \<Rightarrow> 'w \<Rightarrow> (go_error + capability_set) \<times> 'w) \<Rightarrow> int \<Rightarrow> int \<Rightarrow>
   'w partition_setup \<times> partition_entry gomap" where
  "NewHierarchicalPartitionResolver L lister capResolver cacheTTL maxEntries =
     (\<lparr>hp_lib = L, hp_lister = lister, hp_caps = capResolver, hp_ttl = cacheTTL,
       hp_max = (if maxEntries \<le> 0 then 10000 else maxEntries)\<rparr>, [])"

definition partition_cache_key :: "golib \<Rightarrow> request_context \<Rightarrow> string" where
  "partition_cache_key L rctx =
     quote L (SubjectID rctx) @ [CHR 0x00] @ quote L (TenantID rctx) @ [CHR 0x00] @
     quote L (PartitionID rctx)"

definition part_get :: "int \<Rightarrow> string \<Rightarrow> partition_entry gomap \<Rightarrow> string list option" where
  "part_get now key cache =
     (case gget cache key of
        Some entry \<Rightarrow> if now < pe_expires entry then Some (pe_ids entry) else None
      | None \<Rightarrow> None)"

text \<open>The loop that drops entries, in the order in which the map is visited.\<close>

fun drop_loop :: "int \<Rightarrow> int \<Rightarrow> partition_entry gomap \<Rightarrow> partition_entry gomap" where
  "drop_loop n m [] = []"
| "drop_loop n m (e # es) = (if n + 1 \<ge> m div 2 then es else drop_loop (n + 1) m es)"

definition make_room :: "int \<Rightarrow> int \<Rightarrow> partition_entry gomap \<Rightarrow> partition_entry gomap" where
  "make_room m now cache =
     (if int (length cache) \<ge> m then
        (let live = filter (\<lambda>(k, v). \<not> now > pe_expires v) cache
         in if int (length live) \<ge> m then drop_loop 0 m live else live)
      else cache)"

definition cacheResult ::
  "int \<Rightarrow> int \<Rightarrow> int \<Rightarrow> int \<Rightarrow> string \<Rightarrow> string list \<Rightarrow> partition_entry gomap \<Rightarrow> partition_entry gomap" where
  "cacheResult m ttl t1 t2 key ids cache =
     gput key \<lparr>pe_ids = ids, pe_expires = t2 + ttl\<rparr> (make_room m t1 cache)"

fun hasAnyAnalyticsView :: "capability_set \<Rightarrow> bool" where
  "hasAnyAnalyticsView [] = False"
| "hasAnyAnalyticsView ((cap, _) # caps) =
     (if has_prefix cap ''analytics:'' then True else hasAnyAnalyticsView caps)"

definition child_context :: "request_context \<Rightarrow> string \<Rightarrow> request_context" where
  "child_context rctx childID =
     \<lparr>SubjectID = SubjectID rctx, Email = [], TenantID = TenantID rctx, PartitionID = childID,
      Roles = Roles rctx, Claims = None, SessionID = [], DeviceID = [], CorrelationID = [],
      TraceID = [], SpanID = [], Locale = [], Timezone = [], Token = Token rctx\<rparr>"

definition may_view :: "capability_set \<Rightarrow> bool" where
  "may_view caps \<longleftrightarrow> Has caps ''analytics:*'' \<or> hasAnyAnalyticsView caps"

fun visible_children ::
  "(request_context \<Rightarrow> 'w \<Rightarrow> (go_error + capability_set) \<times> 'w) \<Rightarrow> request_context \<Rightarrow> string list \<Rightarrow> 'w \<Rightarrow>
   string list \<times> 'w" where
  "visible_children resolve rctx [] w = ([], w)"
| "visible_children resolve rctx (childID # ids) w =
     (let (r, w1) = resolve (child_context rctx childID) w;
          (rest, w2) = visible_children resolve rctx ids w1
      in case r of
           Inl err \<Rightarrow> (rest, w2)
         | Inr caps \<Rightarrow> (if may_view caps then childID # rest else rest, w2))"

text \<open>\<open>t0\<close> is the clock of the cache read, \<open>t1\<close> and \<open>t2\<close> those of the store.\<close>

definition ResolveAccessiblePartitions ::
  "'w partition_setup \<Rightarrow> int \<Rightarrow> int \<Rightarrow> int \<Rightarrow> request_context \<Rightarrow> partition_entry gomap \<Rightarrow> 'w \<Rightarrow>
   (go_error + string list) \<times> partition_entry gomap \<times> 'w" where
  "ResolveAccessiblePartitions s t0 t1 t2 rctx cache w =
     (let key = partition_cache_key (hp_lib s) rctx;
          store = (\<lambda>ids. cacheResult (hp_max s) (hp_ttl s) t1 t2 key ids cache)
      in case part_get t0 key cache of
           Some ids \<Rightarrow> (Inr ids, cache, w)
         | None \<Rightarrow>
             (case hp_lister s (TenantID rctx) (PartitionID rctx) w of
                (Inl err, w1) \<Rightarrow> (Inr [PartitionID rctx], store [PartitionID rctx], w1)
              | (Inr children, w1) \<Rightarrow>
                  (let (ids, w2) = visible_children (hp_caps s) rctx children w1;
                       accessible = PartitionID rctx # ids
                   in (Inr accessible, store accessible, w2))))"

subsection \<open>The partition cache keeps the contract\<close>

lemma drop_loop_drop: "\<exists>n. drop_loop i m es = drop n es"
proof (induction i m es rule: drop_loop.induct)
  case (1 n m)
  then show ?case by simp
next
  case (2 n m e es)
  show ?case
  proof (cases "n + 1 \<ge> m div 2")
    case True
    then show ?thesis by (intro exI [of _ 1]) simp
  next
    case False
    with 2 obtain j where "drop_loop (n + 1) m es = drop j es" by blast
    with False show ?thesis by (intro exI [of _ "Suc j"]) simp
  qed
qed

lemma length_drop_loop: "length (drop_loop i m es) \<le> length es - 1"
  by (induction i m es rule: drop_loop.induct) auto

lemma make_room_cases:
  obtains (room) "make_room m t c = c" and "int (length c) < m"
  | (expired) "make_room m t c = filter (\<lambda>(k, v). \<not> t > pe_expires v) c"
      and "int (length (make_room m t c)) < m"
  | (dropped) "make_room m t c = drop_loop 0 m (filter (\<lambda>(k, v). \<not> t > pe_expires v) c)"
proof -
  let ?live = "filter (\<lambda>(k, v). \<not> t > pe_expires v) c"
  have "make_room m t c = c \<and> int (length c) < m \<or>
        make_room m t c = ?live \<and> int (length ?live) < m \<or> make_room m t c = drop_loop 0 m ?live"
    by (simp add: make_room_def Let_def)
  then show thesis using room expired dropped by metis
qed

lemma make_room_part:
  assumes ok: "gmap_ok c"
  shows "gmap_ok (make_room m t c) \<and> set (make_room m t c) \<subseteq> set c"
proof (cases rule: make_room_cases [of m t c])
  case dropped
  let ?live = "filter (\<lambda>(k, v). \<not> t > pe_expires v) c"
  obtain n where n: "drop_loop 0 m ?live = drop n ?live" using drop_loop_drop by blast
  have "gmap_ok (drop n ?live)" using distinct_drop [OF gmap_ok_filter [OF ok]] by (simp only: drop_map)
  moreover have "set (drop n ?live) \<subseteq> set c" using set_drop_subset [of n ?live] by auto
  ultimately show ?thesis by (simp only: dropped n)
qed (use ok in \<open>auto simp: gmap_ok_filter\<close>)

lemma part_get_room: "gmap_ok c \<Longrightarrow> part_get t k (make_room m t1 c) = Some v \<Longrightarrow> part_get t k c = Some v"
proof -
  assume ok: "gmap_ok c" and hit: "part_get t k (make_room m t1 c) = Some v"
  from hit obtain e where e: "gget (make_room m t1 c) k = Some e" "t < pe_expires e" "v = pe_ids e"
    by (auto simp: part_get_def simp del: map_of_eq_Some_iff split: option.splits if_splits)
  have "(k, e) \<in> set c" using gget_in_set [OF e(1)] make_room_part [OF ok, of m t1] by blast
  then have "gget c k = Some e" by (rule gget_of_mem [OF ok])
  with e show ?thesis by (simp add: part_get_def)
qed

lemma part_get_store:
  "gmap_ok c \<Longrightarrow> part_get t k' (cacheResult m ttl t1 t2 k v c) =
    (if k' = k then (if t < t2 + ttl then Some v else None) else part_get t k' (make_room m t1 c))"
  by (simp add: part_get_def cacheResult_def gget_gput)

lemma gmap_ok_cacheResult: "gmap_ok c \<Longrightarrow> gmap_ok (cacheResult m ttl t1 t2 k v c)"
  using make_room_part [of c m t1] by (simp add: cacheResult_def gmap_ok_gput)

interpretation pcache: storing_ttl_cache part_get "\<lambda>now. cacheResult m ttl (evict now) now" "[]" gmap_ok ttl
  for m ttl :: int and evict :: "int \<Rightarrow> int"
proof
  show "gmap_ok []" by simp
  show "gmap_ok c \<Longrightarrow> gmap_ok (cacheResult m ttl (evict now) now k v c)" for c now k v
    by (rule gmap_ok_cacheResult)
  show "part_get t k [] = None" for t k by (simp add: part_get_def)
  show "gmap_ok c \<Longrightarrow> part_get t k' (cacheResult m ttl (evict now) now k v c) = Some v' \<Longrightarrow>
      k' = k \<and> v' = v \<or> part_get t k' c = Some v'" for c t k' now k v v'
    using part_get_room by (auto simp: part_get_store split: if_splits)
  show "t \<le> t' \<Longrightarrow> part_get t' k c = Some v \<Longrightarrow> part_get t k c = Some v" for t t' k c v
    by (auto simp: part_get_def split: option.splits if_splits)
  show "gmap_ok c \<Longrightarrow> t < now + ttl \<Longrightarrow> part_get t k (cacheResult m ttl (evict now) now k v c) = Some v"
    for c t now k v by (simp add: part_get_store)
  show "gmap_ok c \<Longrightarrow> now + ttl < t \<Longrightarrow> part_get t k (cacheResult m ttl (evict now) now k v c) = None"
    for c t now k v by (simp add: part_get_store)
qed

lemma make_room_bounded:
  assumes "0 < m" and "int (length c) \<le> m"
  shows "int (length (make_room m t c)) < m"
proof (cases rule: make_room_cases [of m t c])
  case dropped
  let ?live = "filter (\<lambda>(k, v). \<not> t > pe_expires v) c"
  have "length (make_room m t c) \<le> length ?live - 1" by (simp only: dropped length_drop_loop)
  moreover have "length ?live \<le> length c" by (rule length_filter_le)
  ultimately show ?thesis using assms by linarith
qed auto

end
