(* ===== verification/AnalyticsEngine.thy ===== *)
theory AnalyticsEngine imports AnalyticsCache begin

section \<open>The analytics engine and its endpoints (engine.go, handler.go)\<close>

text \<open>
  Every query runs through \<open>prepare\<close>: allowlist, removal of client filters on tenancy labels,
  resolution of the scope. The backend and the partition resolver are interfaces; the resolver's
  contract is the locale \<open>partition_source\<close>, interpreted for both resolvers of the package. The
  clock readings of one request are a record. Logging is left out, the audit line included.
\<close>

definition GlobalViewCapability :: string where "GlobalViewCapability = ''analytics:global:view''"
definition ErrTenantScopeRequired :: string where
  "ErrTenantScopeRequired = ''analytics queries require tenant scope''"

subsection \<open>Interfaces\<close>

record readings =
  at_lookup :: int
  at_make_room :: int
  at_store :: int
  at_get :: int
  at_evict :: int
  at_put :: int

text \<open>
  A partition resolver hands out a slice that the caller may share with the resolver's state:
  \<open>pa_alias\<close> is the state after the caller has overwritten the elements of that slice.
\<close>

record ('p, 'w) partition_api =
  pa_resolve :: "readings \<Rightarrow> request_context \<Rightarrow> 'p \<Rightarrow> 'w \<Rightarrow> (go_error + string list) \<times> 'p \<times> 'w"
  pa_alias :: "request_context \<Rightarrow> string list \<Rightarrow> 'p \<Rightarrow> 'p"

record label_value =
  lv_label :: string
  lv_value :: float64

record 'w metrics_backend =
  be_scalar :: "metric_query \<Rightarrow> tenant_filter \<Rightarrow> time_range \<Rightarrow> 'w \<Rightarrow> (go_error + float64) \<times> 'w"
  be_series :: "metric_query \<Rightarrow> tenant_filter \<Rightarrow> time_range \<Rightarrow> int \<Rightarrow> 'w \<Rightarrow>
     (go_error + time_series_point list option) \<times> 'w"
  be_grouped :: "metric_query \<Rightarrow> tenant_filter \<Rightarrow> time_range \<Rightarrow> string \<Rightarrow> 'w \<Rightarrow>
     (go_error + label_value list) \<times> 'w"
  be_topn :: "metric_query \<Rightarrow> tenant_filter \<Rightarrow> time_range \<Rightarrow> string \<Rightarrow> int \<Rightarrow> 'w \<Rightarrow>
     (go_error + label_value list) \<times> 'w"
  be_healthy :: "'w \<Rightarrow> go_error option \<times> 'w"

definition DefaultPartitionResolver :: "('p, 'w) partition_api" where
  "DefaultPartitionResolver =
     \<lparr>pa_resolve = (\<lambda>t rctx p w. (Inr [PartitionID rctx], p, w)), pa_alias = (\<lambda>rctx ids p. p)\<rparr>"

text \<open>The slice returned is the one that is cached.\<close>

definition overwrite_cached ::
  "golib \<Rightarrow> request_context \<Rightarrow> string list \<Rightarrow> partition_entry gomap \<Rightarrow> partition_entry gomap" where
  "overwrite_cached L rctx ids cache =
     (let key = partition_cache_key L rctx in
      case gget cache key of None \<Rightarrow> cache | Some e \<Rightarrow> gput key (e\<lparr>pe_ids := ids\<rparr>) cache)"

definition hierarchical_api :: "'w partition_setup \<Rightarrow> (partition_entry gomap, 'w) partition_api" where
  "hierarchical_api s =
     \<lparr>pa_resolve = (\<lambda>t rctx cache w.
        ResolveAccessiblePartitions s (at_lookup t) (at_make_room t) (at_store t) rctx cache w),
      pa_alias = overwrite_cached (hp_lib s)\<rparr>"

subsection \<open>The engine\<close>

record ('p, 'w) engine_setup =
  en_lib :: golib
  en_backend :: "'w metrics_backend"
  en_resolver :: "('p, 'w) partition_api"
  en_allowlist :: allowlist
  en_fingerprint :: "cache_payload \<Rightarrow> string"
  en_duration :: "int \<Rightarrow> string"

record 'p engine =
  eg_partitions :: 'p
  eg_cache :: "query_cache option"

record engine_options =
  eo_ttl :: int
  eo_patterns :: "string list"

definition WithCacheTTL :: "int \<Rightarrow> engine_options \<Rightarrow> engine_options" where
  "WithCacheTTL ttl eo = eo\<lparr>eo_ttl := ttl\<rparr>"

definition WithAllowedMetrics :: "string list \<Rightarrow> engine_options \<Rightarrow> engine_options" where
  "WithAllowedMetrics patterns eo = eo\<lparr>eo_patterns := patterns\<rparr>"

definition NewEngine ::
  "golib \<Rightarrow> (string \<Rightarrow> go_error + (string \<Rightarrow> bool)) \<Rightarrow> (cache_payload \<Rightarrow> string) \<Rightarrow> (int \<Rightarrow> string) \<Rightarrow>
   'w metrics_backend \<Rightarrow> ('p, 'w) partition_api option \<Rightarrow> 'p \<Rightarrow>
   (engine_options \<Rightarrow> engine_options) list \<Rightarrow> go_error + ('p, 'w) engine_setup \<times> 'p engine" where
  "NewEngine L compile fp dur backend resolver p opts =
     (let eo = fold (\<lambda>opt. opt) opts \<lparr>eo_ttl = 120 * second, eo_patterns = []\<rparr> in
      case newMetricAllowlist L compile (eo_patterns eo) of
        Inl err \<Rightarrow> Inl err
      | Inr allowed \<Rightarrow>
          Inr (\<lparr>en_lib = L, en_backend = backend,
                en_resolver = (case resolver of None \<Rightarrow> DefaultPartitionResolver | Some r \<Rightarrow> r),
                en_allowlist = allowed, en_fingerprint = fp, en_duration = dur\<rparr>,
               \<lparr>eg_partitions = p,
                eg_cache = (if eo_ttl eo > 0 then Some (newQueryCache (eo_ttl eo)) else None)\<rparr>))"

fun first_inaccessible :: "string list \<Rightarrow> string list \<Rightarrow> string option" where
  "first_inaccessible accessible [] = None"
| "first_inaccessible accessible (i # ids) =
     (if i \<notin> set accessible then Some i else first_inaccessible accessible ids)"

definition drop_empty :: "string list \<Rightarrow> string list" where
  "drop_empty ids = filter (\<lambda>i. i \<noteq> []) ids"

text \<open>
  \<open>resolved[:0]\<close> shares the array of \<open>resolved\<close>: after the loop the array starts with the kept
  elements, and what lies behind them is as before.
\<close>

definition compacted :: "string list \<Rightarrow> string list" where
  "compacted ids = drop_empty ids @ drop (length (drop_empty ids)) ids"

definition resolveFilter ::
  "('p, 'w) engine_setup \<Rightarrow> readings \<Rightarrow> request_context option \<Rightarrow> capability_set \<Rightarrow> string list \<Rightarrow>
   'p engine \<Rightarrow> 'w \<Rightarrow> (go_error + tenant_filter) \<times> 'p engine \<times> 'w" where
  "resolveFilter s t octx caps partitionIDs e w =
     (case octx of
        None \<Rightarrow>
          (if \<not> Has caps GlobalViewCapability then (Inl (Sentinel ErrTenantScopeRequired), e, w)
           else (Inr \<lparr>tf_tenant_id = [], tf_partition_ids = [], tf_scoped = False\<rparr>, e, w))
      | Some rctx \<Rightarrow>
          if TenantID rctx = [] then
            (if \<not> Has caps GlobalViewCapability then (Inl (Sentinel ErrTenantScopeRequired), e, w)
             else (Inr \<lparr>tf_tenant_id = [], tf_partition_ids = [], tf_scoped = False\<rparr>, e, w))
          else
            (case pa_resolve (en_resolver s) t rctx (eg_partitions e) w of
               (Inl err, p1, w1) \<Rightarrow>
                 (Inl (Wrap (''resolve partitions: '' @ error_message err) err), e\<lparr>eg_partitions := p1\<rparr>, w1)
             | (Inr accessible, p1, w1) \<Rightarrow>
                 (let e1 = e\<lparr>eg_partitions := p1\<rparr>;
                      scope = (\<lambda>ids. \<lparr>tf_tenant_id = TenantID rctx, tf_partition_ids = drop_empty ids,
                                      tf_scoped = True\<rparr>)
                  in if partitionIDs = [] then (Inr (scope [PartitionID rctx]), e1, w1)
                     else if partitionIDs = [''*''] then
                       (Inr (scope accessible),
                        e\<lparr>eg_partitions := pa_alias (en_resolver s) rctx (compacted accessible) p1\<rparr>, w1)
                     else (case first_inaccessible accessible partitionIDs of
                         Some i \<Rightarrow>
                           (Inl (Plain (''partition '' @ quote (en_lib s) i @ '' is not accessible'')), e1, w1)
                       | None \<Rightarrow> (Inr (scope partitionIDs), e1, w1)))))"

definition prepare ::
  "('p, 'w) engine_setup \<Rightarrow> readings \<Rightarrow> request_context option \<Rightarrow> capability_set \<Rightarrow> metric_query \<Rightarrow>
   string list \<Rightarrow> 'p engine \<Rightarrow> 'w \<Rightarrow> (go_error + metric_query \<times> tenant_filter) \<times> 'p engine \<times> 'w" where
  "prepare s t octx caps q partitionIDs e w =
     (case validate_query (en_lib s) (en_allowlist s) q of
        Some err \<Rightarrow> (Inl err, e, w)
      | None \<Rightarrow>
          (case resolveFilter s t octx caps partitionIDs e w of
             (Inl err, e1, w1) \<Rightarrow> (Inl err, e1, w1)
           | (Inr f, e1, w1) \<Rightarrow> (Inr (sanitizeQueryFilters q, f), e1, w1)))"

definition lookupKey ::
  "('p, 'w) engine_setup \<Rightarrow> 'p engine \<Rightarrow> string \<Rightarrow> metric_query \<Rightarrow> tenant_filter \<Rightarrow> time_range \<Rightarrow>
   string gomap \<Rightarrow> string" where
  "lookupKey s e kind q f tr extra =
     (if eg_cache e = None then [] else query_cache_key (en_fingerprint s) kind q f tr extra)"

definition cacheGet :: "int \<Rightarrow> string \<Rightarrow> 'p engine \<Rightarrow> cached_value option" where
  "cacheGet now key e =
     (case eg_cache e of None \<Rightarrow> None | Some c \<Rightarrow> if key = [] then None else qc_get now key c)"

definition cachePut :: "int \<Rightarrow> int \<Rightarrow> string \<Rightarrow> cached_value \<Rightarrow> 'p engine \<Rightarrow> 'p engine" where
  "cachePut t1 t2 key val e =
     (case eg_cache e of
        None \<Rightarrow> e
      | Some c \<Rightarrow> if key = [] then e else e\<lparr>eg_cache := Some (qc_put t1 t2 key val c)\<rparr>)"

text \<open>
  What the four query methods do: prepare, look in the cache (a value of another kind is a miss),
  ask the backend, store. \<open>kind\<close> and \<open>extra\<close> enter the key, \<open>conv\<close> is the conversion of the
  backend's rows.
\<close>

definition serve ::
  "('p, 'w) engine_setup \<Rightarrow> readings \<Rightarrow> request_context option \<Rightarrow> capability_set \<Rightarrow> metric_query \<Rightarrow>
   string list \<Rightarrow> time_range \<Rightarrow> string \<Rightarrow> string gomap \<Rightarrow> (cached_value \<Rightarrow> 'v option) \<Rightarrow> ('v \<Rightarrow> cached_value) \<Rightarrow>
   (metric_query \<Rightarrow> tenant_filter \<Rightarrow> 'w \<Rightarrow> (go_error + 'r) \<times> 'w) \<Rightarrow> ('r \<Rightarrow> 'v) \<Rightarrow> 'p engine \<Rightarrow> 'w \<Rightarrow>
   (go_error + 'v) \<times> 'p engine \<times> 'w" where
  "serve s t octx caps q partitionIDs tr kind extra unbox box ask conv e w =
     (case prepare s t octx caps q partitionIDs e w of
        (Inl err, e1, w1) \<Rightarrow> (Inl err, e1, w1)
      | (Inr (q1, f), e1, w1) \<Rightarrow>
          (let key = lookupKey s e1 kind q1 f tr extra in
           case Option.bind (cacheGet (at_get t) key e1) unbox of
             Some v \<Rightarrow> (Inr v, e1, w1)
           | None \<Rightarrow>
               (case ask q1 f w1 of
                  (Inl err, w2) \<Rightarrow> (Inl err, e1, w2)
                | (Inr r, w2) \<Rightarrow>
                    (Inr (conv r), cachePut (at_evict t) (at_put t) key (box (conv r)) e1, w2))))"

fun as_scalar :: "cached_value \<Rightarrow> float64 option" where
  "as_scalar (CScalar v) = Some v" | "as_scalar _ = None"
fun as_points :: "cached_value \<Rightarrow> time_series_point list option option" where
  "as_points (CPoints v) = Some v" | "as_points _ = None"
fun as_segments :: "cached_value \<Rightarrow> distribution_segment list option" where
  "as_segments (CSegments v) = Some v" | "as_segments _ = None"
fun as_items :: "cached_value \<Rightarrow> top_n_item list option" where
  "as_items (CItems v) = Some v" | "as_items _ = None"

definition Scalar where
  "Scalar s t octx caps q partitionIDs tr =
     serve s t octx caps q partitionIDs tr ''scalar'' [] as_scalar CScalar
       (\<lambda>q1 f. be_scalar (en_backend s) q1 f tr) (\<lambda>v. v)"

definition TimeSeries where
  "TimeSeries s t octx caps q partitionIDs tr step =
     serve s t octx caps q partitionIDs tr ''timeseries'' [(''step'', en_duration s step)] as_points CPoints
       (\<lambda>q1 f. be_series (en_backend s) q1 f tr step) (\<lambda>v. v)"

definition Grouped where
  "Grouped s t octx caps q partitionIDs tr groupBy =
     serve s t octx caps q partitionIDs tr ''grouped'' [(''group_by'', groupBy)] as_segments CSegments
       (\<lambda>q1 f. be_grouped (en_backend s) q1 f tr groupBy)
       (List.map (\<lambda>item. \<lparr>ds_label = lv_label item, ds_value = lv_value item, ds_color = []\<rparr>))"

definition TopN where
  "TopN s t octx caps q partitionIDs tr groupBy limit =
     serve s t octx caps q partitionIDs tr ''topn'' [(''group_by'', groupBy), (''limit'', dec_int limit)]
       as_items CItems (\<lambda>q1 f. be_topn (en_backend s) q1 f tr groupBy limit)
       (List.map (\<lambda>item. \<lparr>ti_label = lv_label item, ti_value = lv_value item, ti_metadata = []\<rparr>))"

definition EngineHealthy :: "('p, 'w) engine_setup \<Rightarrow> 'w \<Rightarrow> go_error option \<times> 'w" where
  "EngineHealthy s w = be_healthy (en_backend s) w"

subsection \<open>The endpoints\<close>

definition isValidationError :: "go_error \<Rightarrow> bool" where
  "isValidationError err =
     (if error_is err ErrMetricNotAllowed then True
      else has_prefix (error_message err) ''invalid group_by'' \<or>
           has_prefix (error_message err) ''invalid granularity'')"

definition isForbiddenError :: "go_error \<Rightarrow> bool" where
  "isForbiddenError err =
     (if error_is err ErrTenantScopeRequired then True
      else has_suffix (error_message err) ''is not accessible'')"

datatype api_body =
    ApiError string
  | ApiText string
  | ApiScalar float64
  | ApiPoints "time_series_point list option"
  | ApiSegments "distribution_segment list"
  | ApiItems "top_n_item list"

record api_response =
  as_status :: int
  as_body :: api_body

definition api_error :: "string \<Rightarrow> int \<Rightarrow> api_response" where
  "api_error msg code = \<lparr>as_status = code, as_body = ApiError msg\<rparr>"

fun float_error :: "float64 \<Rightarrow> string option" where
  "float_error (Finite x) = None"
| "float_error PosInf = Some ''json: unsupported value: +Inf''"
| "float_error NegInf = Some ''json: unsupported value: -Inf''"
| "float_error NaN = Some ''json: unsupported value: NaN''"

fun first_error :: "string option list \<Rightarrow> string option" where
  "first_error [] = None"
| "first_error (None # es) = first_error es"
| "first_error (Some e # es) = Some e"

text \<open>
  The encoder writes nothing when a value does not encode, so the error still sets the status.
  \<open>tm\<close> is the error of encoding a timestamp.
\<close>

definition body_error :: "(int \<Rightarrow> string option) \<Rightarrow> api_body \<Rightarrow> string option" where
  "body_error tm b =
     (case b of
        ApiScalar v \<Rightarrow> float_error v
      | ApiPoints (Some ps) \<Rightarrow>
          first_error (concat (List.map (\<lambda>pt. [tm (ts_timestamp pt), float_error (ts_value pt)]) ps))
      | ApiSegments ss \<Rightarrow> first_error (List.map (\<lambda>x. float_error (ds_value x)) ss)
      | ApiItems xs \<Rightarrow> first_error (List.map (\<lambda>x. float_error (ti_value x)) xs)
      | _ \<Rightarrow> None)"

definition writeJSON :: "(int \<Rightarrow> string option) \<Rightarrow> api_body \<Rightarrow> api_response" where
  "writeJSON tm b =
     (case body_error tm b of
        None \<Rightarrow> \<lparr>as_status = 200, as_body = b\<rparr>
      | Some msg \<Rightarrow> \<lparr>as_status = 500, as_body = ApiText msg\<rparr>)"

definition engine_error :: "go_error \<Rightarrow> api_response" where
  "engine_error err =
     (if isForbiddenError err then api_error (error_message err) 403
      else if isValidationError err then api_error (error_message err) 400
      else api_error ''internal server error'' 500)"

definition parseTimeRange ::
  "(string \<Rightarrow> int option) \<Rightarrow> int \<Rightarrow> time_range_request \<Rightarrow> go_error + time_range" where
  "parseTimeRange rfc3339 now trr =
     (let parse = (\<lambda>s. if s = [] then Some None else map_option Some (rfc3339 s));
          or_default = (\<lambda>d o'. case o' of None \<Rightarrow> d | Some x \<Rightarrow> x)
      in case parse (tq_start trr) of
           None \<Rightarrow> Inl (Plain ''invalid start: expected RFC3339 format'')
         | Some st \<Rightarrow>
             (case parse (tq_end trr) of
                None \<Rightarrow> Inl (Plain ''invalid end: expected RFC3339 format'')
              | Some en \<Rightarrow>
                  Inr \<lparr>tr_start = or_default (now - 30 * 24 * hour) st, tr_end = or_default now en,
                       tr_granularity = []\<rparr>))"

text \<open>What the handlers use besides the engine: the clock, time.Parse, encoding/json.\<close>

record api_env =
  ae_rfc3339 :: "string \<Rightarrow> int option"
  ae_time_error :: "int \<Rightarrow> string option"

definition respond ::
  "api_env \<Rightarrow> ('v \<Rightarrow> api_body) \<Rightarrow> (go_error + 'v) \<times> 'p engine \<times> 'w \<Rightarrow> api_response \<times> 'p engine \<times> 'w" where
  "respond env body r =
     (case r of (res, e, w) \<Rightarrow>
        ((case res of Inl err \<Rightarrow> engine_error err | Inr v \<Rightarrow> writeJSON (ae_time_error env) (body v)), e, w))"

text \<open>A body that does not decode is \<open>None\<close>.\<close>

definition handleScalar ::
  "api_env \<Rightarrow> ('p, 'w) engine_setup \<Rightarrow> readings \<Rightarrow> int \<Rightarrow> request_context option \<Rightarrow> capability_set \<Rightarrow>
   analytics_request option \<Rightarrow> 'p engine \<Rightarrow> 'w \<Rightarrow> api_response \<times> 'p engine \<times> 'w" where
  "handleScalar env s t now octx caps body e w =
     (case body of
        None \<Rightarrow> (api_error ''invalid request body'' 400, e, w)
      | Some req \<Rightarrow>
          (case parseTimeRange (ae_rfc3339 env) now (ar_time_range req) of
             Inl err \<Rightarrow> (api_error (error_message err) 400, e, w)
           | Inr tr \<Rightarrow>
               respond env ApiScalar (Scalar s t octx caps (ToMetricQuery req) (ar_partition_ids req) tr e w)))"

definition handleTimeSeries ::
  "api_env \<Rightarrow> ('p, 'w) engine_setup \<Rightarrow> readings \<Rightarrow> int \<Rightarrow> request_context option \<Rightarrow> capability_set \<Rightarrow>
   analytics_request option \<Rightarrow> 'p engine \<Rightarrow> 'w \<Rightarrow> api_response \<times> 'p engine \<times> 'w" where
  "handleTimeSeries env s t now octx caps body e w =
     (case body of
        None \<Rightarrow> (api_error ''invalid request body'' 400, e, w)
      | Some req \<Rightarrow>
          (case parseTimeRange (ae_rfc3339 env) now (ar_time_range req) of
             Inl err \<Rightarrow> (api_error (error_message err) 400, e, w)
           | Inr tr \<Rightarrow>
               (case ValidateGranularity (en_lib s) (if ar_step req = [] then ''hour'' else ar_step req) of
                  Inl err \<Rightarrow> (api_error (error_message err) 400, e, w)
                | Inr step \<Rightarrow>
                    respond env ApiPoints
                      (TimeSeries s t octx caps (ToMetricQuery req) (ar_partition_ids req) tr step e w))))"

definition handleGrouped ::
  "api_env \<Rightarrow> ('p, 'w) engine_setup \<Rightarrow> readings \<Rightarrow> int \<Rightarrow> request_context option \<Rightarrow> capability_set \<Rightarrow>
   analytics_request option \<Rightarrow> 'p engine \<Rightarrow> 'w \<Rightarrow> api_response \<times> 'p engine \<times> 'w" where
  "handleGrouped env s t now octx caps body e w =
     (case body of
        None \<Rightarrow> (api_error ''invalid request body'' 400, e, w)
      | Some req \<Rightarrow>
          if ar_group_by req = [] then (api_error ''missing required field: group_by'' 400, e, w)
          else
            (case parseTimeRange (ae_rfc3339 env) now (ar_time_range req) of
               Inl err \<Rightarrow> (api_error (error_message err) 400, e, w)
             | Inr tr \<Rightarrow>
                 respond env ApiSegments
                   (Grouped s t octx caps (ToMetricQuery req) (ar_partition_ids req) tr (ar_group_by req) e w)))"

definition handleTopN ::
  "api_env \<Rightarrow> ('p, 'w) engine_setup \<Rightarrow> readings \<Rightarrow> int \<Rightarrow> request_context option \<Rightarrow> capability_set \<Rightarrow>
   analytics_request option \<Rightarrow> 'p engine \<Rightarrow> 'w \<Rightarrow> api_response \<times> 'p engine \<times> 'w" where
  "handleTopN env s t now octx caps body e w =
     (case body of
        None \<Rightarrow> (api_error ''invalid request body'' 400, e, w)
      | Some req \<Rightarrow>
          if ar_group_by req = [] then (api_error ''missing required field: group_by'' 400, e, w)
          else
            (case parseTimeRange (ae_rfc3339 env) now (ar_time_range req) of
               Inl err \<Rightarrow> (api_error (error_message err) 400, e, w)
             | Inr tr \<Rightarrow>
                 respond env ApiItems
                   (TopN s t octx caps (ToMetricQuery req) (ar_partition_ids req) tr (ar_group_by req)
                      (if ar_limit req \<le> 0 then 10 else ar_limit req) e w)))"

subsection \<open>Routes and runs\<close>

definition analytics_routes ::
  "api_env \<Rightarrow> ('p, 'w) engine_setup \<Rightarrow>
   (readings \<Rightarrow> int \<Rightarrow> request_context option \<Rightarrow> capability_set \<Rightarrow> analytics_request option \<Rightarrow> 'p engine \<Rightarrow>
    'w \<Rightarrow> api_response \<times> 'p engine \<times> 'w) gomap" where
  "analytics_routes env s =
     [(''POST /api/analytics/query/scalar'', handleScalar env s),
      (''POST /api/analytics/query/timeseries'', handleTimeSeries env s),
      (''POST /api/analytics/query/grouped'', handleGrouped env s),
      (''POST /api/analytics/query/topn'', handleTopN env s)]"

record api_call =
  ac_route :: string
  ac_readings :: readings
  ac_now :: int
  ac_context :: "request_context option"
  ac_caps :: capability_set
  ac_body :: "analytics_request option"

definition serve_call ::
  "api_env \<Rightarrow> ('p, 'w) engine_setup \<Rightarrow> api_call \<Rightarrow> 'p engine \<Rightarrow> 'w \<Rightarrow>
   (api_response \<times> 'p engine \<times> 'w) option" where
  "serve_call env s c e w =
     map_option (\<lambda>h. h (ac_readings c) (ac_now c) (ac_context c) (ac_caps c) (ac_body c) e w)
       (gget (analytics_routes env s) (ac_route c))"

fun run_calls ::
  "api_env \<Rightarrow> ('p, 'w) engine_setup \<Rightarrow> api_call list \<Rightarrow> 'p engine \<Rightarrow> 'w \<Rightarrow> 'p engine \<times> 'w" where
  "run_calls env s [] e w = (e, w)"
| "run_calls env s (c # cs) e w =
     (case serve_call env s c e w of
        None \<Rightarrow> run_calls env s cs e w
      | Some (resp, e', w') \<Rightarrow> run_calls env s cs e' w')"

subsection \<open>What the backend may be asked\<close>

text \<open>
  The backend reads an empty list of partitions as no restriction: such a scope is the whole tenant.
  A caller may have it only with the empty id as one of the visible ones, that is without a partition
  claim, or when the empty id is granted.
\<close>

definition partition_visible ::
  "(request_context \<Rightarrow> string \<Rightarrow> bool) \<Rightarrow> request_context \<Rightarrow> string \<Rightarrow> bool" where
  "partition_visible granted rctx i \<longleftrightarrow> i = PartitionID rctx \<or> granted rctx i"

definition scope_allowed ::
  "(request_context \<Rightarrow> string \<Rightarrow> bool) \<Rightarrow> request_context option \<Rightarrow> capability_set \<Rightarrow> tenant_filter \<Rightarrow> bool" where
  "scope_allowed granted octx caps f \<longleftrightarrow>
     (if tf_scoped f then
        (case octx of
           None \<Rightarrow> False
         | Some rctx \<Rightarrow> TenantID rctx \<noteq> [] \<and> tf_tenant_id f = TenantID rctx \<and>
             (if tf_partition_ids f = [] then partition_visible granted rctx []
              else \<forall>i\<in>set (tf_partition_ids f). i \<noteq> [] \<and> partition_visible granted rctx i))
      else (case octx of None \<Rightarrow> True | Some rctx \<Rightarrow> TenantID rctx = []) \<and> Has caps GlobalViewCapability)"

lemma scope_allowed_mono:
  assumes "scope_allowed g octx caps f"
    and "\<And>rctx i. partition_visible g rctx i \<Longrightarrow> partition_visible g' rctx i"
  shows "scope_allowed g' octx caps f"
  using assms by (auto simp: scope_allowed_def split: option.splits if_splits)

primrec no_reserved :: "metric_query \<Rightarrow> bool" where
  "no_reserved (MetricQuery name agg fs g num den dm dc mu) \<longleftrightarrow>
     (\<forall>kv\<in>set fs. \<not> isReservedScopeLabel (sanitizeLabelName (fst kv))) \<and>
     map_option no_reserved num \<noteq> Some False \<and> map_option no_reserved den \<noteq> Some False"

lemma clean_filters_clean:
  "\<forall>kv\<in>set acc. \<not> isReservedScopeLabel (sanitizeLabelName (fst kv)) \<Longrightarrow> kv \<in> set (clean_filters fs acc) \<Longrightarrow>
   \<not> isReservedScopeLabel (sanitizeLabelName (fst kv))"
proof (induction fs acc rule: clean_filters.induct)
  case (1 acc)
  then show ?case by auto
next
  case (2 k v kvs acc)
  have upd: "\<forall>kv\<in>set (gput k v acc). \<not> isReservedScopeLabel (sanitizeLabelName (fst kv))"
    if "\<not> isReservedScopeLabel (sanitizeLabelName k)"
  proof
    fix kv assume "kv \<in> set (gput k v acc)"
    then have "fst kv \<in> insert k (fst ` set acc)"
      using set_gkeys_gput [of k v acc] by (metis image_eqI list.set_map)
    with that 2(3) show "\<not> isReservedScopeLabel (sanitizeLabelName (fst kv))" by auto
  qed
  show ?case
  proof (cases "isReservedScopeLabel (sanitizeLabelName k)")
    case True
    with 2 show ?thesis by simp
  next
    case False
    with 2(2) [OF False upd [OF False]] 2(4) show ?thesis by simp
  qed
qed

lemma sanitize_no_reserved: "no_reserved (sanitizeQueryFilters q)"
proof (induction q)
  case (MetricQuery name agg fs g num den dm dc mu)
  then show ?case using clean_filters_clean [of "[]"] by (cases num; cases den) auto
qed

definition query_allowed :: "allowlist \<Rightarrow> metric_query \<Rightarrow> bool" where
  "query_allowed m q \<longleftrightarrow> (\<forall>n\<in>set (metric_names q). n \<noteq> [] \<and> allows_metric m n) \<and> no_reserved q"

text \<open>Two backends that answer alike every query that satisfies \<open>P\<close>.\<close>

definition agree_on ::
  "(metric_query \<Rightarrow> tenant_filter \<Rightarrow> bool) \<Rightarrow> 'w metrics_backend \<Rightarrow> 'w metrics_backend \<Rightarrow> bool" where
  "agree_on P b b' \<longleftrightarrow> (\<forall>q f. P q f \<longrightarrow>
     be_scalar b q f = be_scalar b' q f \<and> be_series b q f = be_series b' q f \<and>
     be_grouped b q f = be_grouped b' q f \<and> be_topn b q f = be_topn b' q f)"

text \<open>
  A value that the backend gave for a query of a kind, with its scope, time range and the kind's own
  parameters, the latter as they enter the key.
\<close>

definition given_for ::
  "('p, 'w) engine_setup \<Rightarrow> string \<Rightarrow> metric_query \<Rightarrow> tenant_filter \<Rightarrow> time_range \<Rightarrow> string gomap \<Rightarrow>
   cached_value \<Rightarrow> bool" where
  "given_for s kind q f tr x v \<longleftrightarrow> (\<exists>w.
     kind = ''scalar'' \<and> x = [] \<and>
       (\<exists>r. fst (be_scalar (en_backend s) q f tr w) = Inr r \<and> v = CScalar r) \<or>
     kind = ''timeseries'' \<and> (\<exists>step r. x = [(''step'', en_duration s step)] \<and>
       fst (be_series (en_backend s) q f tr step w) = Inr r \<and> v = CPoints r) \<or>
     kind = ''grouped'' \<and> (\<exists>g r. x = [(''group_by'', g)] \<and>
       fst (be_grouped (en_backend s) q f tr g w) = Inr r \<and>
       v = CSegments (List.map (\<lambda>item. \<lparr>ds_label = lv_label item, ds_value = lv_value item, ds_color = []\<rparr>) r)) \<or>
     kind = ''topn'' \<and> (\<exists>g n r. x = [(''group_by'', g), (''limit'', dec_int n)] \<and>
       fst (be_topn (en_backend s) q f tr g n w) = Inr r \<and>
       v = CItems (List.map (\<lambda>item. \<lparr>ti_label = lv_label item, ti_value = lv_value item, ti_metadata = []\<rparr>) r)))"

fun body_of :: "cached_value \<Rightarrow> api_body" where
  "body_of (CScalar v) = ApiScalar v"
| "body_of (CPoints v) = ApiPoints v"
| "body_of (CSegments v) = ApiSegments v"
| "body_of (CItems v) = ApiItems v"

definition same_scope :: "tenant_filter \<Rightarrow> tenant_filter \<Rightarrow> bool" where
  "same_scope f f' \<longleftrightarrow> tf_tenant_id f = tf_tenant_id f' \<and> tf_scoped f = tf_scoped f' \<and>
     set (tf_partition_ids f) = set (tf_partition_ids f')"

lemma same_scope_allowed:
  assumes "same_scope f f'" and "scope_allowed g octx caps f"
  shows "scope_allowed g octx caps f'"
proof -
  have "tf_partition_ids f = [] \<longleftrightarrow> tf_partition_ids f' = []"
    using assms(1) unfolding same_scope_def by (metis set_empty)
  with assms show ?thesis by (auto simp: same_scope_def scope_allowed_def split: option.splits if_splits)
qed

text \<open>
  Two requests ask the same: the same query up to the order of its filters, the same parameters, and
  time ranges that begin and end in the same minute.
\<close>

definition same_question ::
  "metric_query \<Rightarrow> time_range \<Rightarrow> string gomap \<Rightarrow> metric_query \<Rightarrow> time_range \<Rightarrow> string gomap \<Rightarrow> bool" where
  "same_question q tr x q' tr' x' \<longleftrightarrow> json_query q = json_query q' \<and>
     tr_start tr div minute = tr_start tr' div minute \<and> tr_end tr div minute = tr_end tr' div minute \<and>
     sort_key fst x = sort_key fst x'"

lemma same_question_refl [simp]: "same_question q tr x q tr x"
  by (simp add: same_question_def)

lemma bucket_minute: "bucket_seconds t = bucket_seconds t' \<Longrightarrow> t div minute = t' div minute"
  by (simp add: bucket_seconds_def duration_defs)

lemma same_payload_scope:
  assumes "inj fp" and "query_cache_key fp kind q f tr x = query_cache_key fp kind' q' f' tr' x'"
  shows "kind' = kind" and "same_scope f' f" and "same_question q' tr' x' q tr x"
proof -
  have e: "payload_of kind q f tr x = payload_of kind' q' f' tr' x'"
    using assms by (auto simp: query_cache_key_def dest: injD)
  have "sort (tf_partition_ids f) = sort (tf_partition_ids f')"
    using arg_cong [OF e, of cp_partitions] by (simp add: payload_of_def)
  then have "set (tf_partition_ids f) = set (tf_partition_ids f')" by (metis set_sort)
  with e show "kind' = kind" "same_scope f' f" "same_question q' tr' x' q tr x"
    by (auto simp: payload_of_def same_scope_def same_question_def dest!: bucket_minute)
qed

definition stored_for :: "('p, 'w) engine_setup \<Rightarrow> string \<Rightarrow> cached_value \<Rightarrow> bool" where
  "stored_for s k v \<longleftrightarrow> (\<exists>kind q f tr x.
     k = query_cache_key (en_fingerprint s) kind q f tr x \<and> given_for s kind q f tr x v)"

definition cache_inv :: "('p, 'w) engine_setup \<Rightarrow> 'p engine \<Rightarrow> bool" where
  "cache_inv s e \<longleftrightarrow> (\<forall>c. eg_cache e = Some c \<longrightarrow> qc_ok c \<and> qcache.justified (stored_for s) c)"

lemma cache_inv_put:
  assumes "cache_inv s e" and "given_for s kind q f tr x v"
  shows "cache_inv s (cachePut t1 t2 (lookupKey s e kind q f tr x) v e)"
proof (cases "eg_cache e")
  case None
  with assms(1) show ?thesis by (simp add: cachePut_def)
next
  case (Some c)
  have c: "qc_ok c" "qcache.justified (stored_for s) c" using assms(1) Some by (auto simp: cache_inv_def)
  have "stored_for s (lookupKey s e kind q f tr x) v"
  proof -
    have "lookupKey s e kind q f tr x = query_cache_key (en_fingerprint s) kind q f tr x"
      using Some by (simp add: lookupKey_def)
    with assms(2) show ?thesis unfolding stored_for_def by blast
  qed
  from qcache.justified_put [OF c this, of "\<lambda>_. t1" t2] qcache.cinv_put [OF c(1), of "\<lambda>_. t1" t2] assms(1) Some
  show ?thesis by (auto simp: cache_inv_def cachePut_def)
qed

lemma cache_inv_hit:
  assumes "cache_inv s e" and "cacheGet t (lookupKey s e kind q f tr x) e = Some v" and "inj (en_fingerprint s)"
  shows "\<exists>q' f' tr' x'. given_for s kind q' f' tr' x' v \<and> same_scope f' f \<and> same_question q' tr' x' q tr x"
proof (cases "eg_cache e")
  case (Some c)
  with assms(2) have "qc_get t (query_cache_key (en_fingerprint s) kind q f tr x) c = Some v"
    by (auto simp: cacheGet_def lookupKey_def split: if_splits)
  then have "stored_for s (query_cache_key (en_fingerprint s) kind q f tr x) v"
    using assms(1) Some qcache.justified_hit by (auto simp: cache_inv_def)
  then obtain kind' q' f' tr' x' where
    "query_cache_key (en_fingerprint s) kind q f tr x = query_cache_key (en_fingerprint s) kind' q' f' tr' x'"
    and g: "given_for s kind' q' f' tr' x' v"
    unfolding stored_for_def by blast
  from same_payload_scope [OF assms(3) this(1)] g show ?thesis by blast
qed (use assms in \<open>simp add: cacheGet_def\<close>)

subsection \<open>Every call keeps the response cache justified\<close>

lemma resolveFilter_cache: "eg_cache (fst (snd (resolveFilter s t octx caps pids e w))) = eg_cache e"
  by (simp add: resolveFilter_def Let_def split: option.split prod.split sum.split)

lemma prepare_cache: "eg_cache (fst (snd (prepare s t octx caps q pids e w))) = eg_cache e"
  using resolveFilter_cache [of s t octx caps pids e w]
  by (auto simp: prepare_def split: option.split prod.split sum.split)

lemma prepare_query: "fst (prepare s t octx caps q pids e w) = Inr (q1, f) \<Longrightarrow> q1 = sanitizeQueryFilters q"
  by (auto simp: prepare_def split: option.splits sum.splits prod.splits)

lemma serve_cache:
  assumes "cache_inv s e"
    and "\<And>q f w r. fst (ask q f w) = Inr r \<Longrightarrow> given_for s kind q f tr x (box (conv r))"
  shows "cache_inv s (fst (snd (serve s t octx caps q pids tr kind x unbox box ask conv e w)))"
proof -
  obtain a e1 w1 where pr: "prepare s t octx caps q pids e w = (a, e1, w1)"
    by (cases "prepare s t octx caps q pids e w") auto
  have c1: "cache_inv s e1"
    using assms(1) prepare_cache [of s t octx caps q pids e w] pr by (simp add: cache_inv_def)
  show ?thesis
  proof (cases a)
    case (Inl err)
    with pr c1 show ?thesis by (simp add: serve_def)
  next
    case (Inr qf)
    then obtain q1 f where a: "a = Inr (q1, f)" by (cases qf) auto
    obtain b w2 where ask: "ask q1 f w1 = (b, w2)" by (cases "ask q1 f w1")
    have "cache_inv s (cachePut (at_evict t) (at_put t) (lookupKey s e1 kind q1 f tr x) (box (conv r)) e1)"
      if "b = Inr r" for r
      using cache_inv_put [OF c1 assms(2) [of q1 f w1 r]] ask that by simp
    with pr a ask c1 show ?thesis by (simp add: serve_def Let_def split: option.split sum.split)
  qed
qed

subsection \<open>The contract of a partition resolver\<close>

locale partition_source =
  fixes api :: "('p, 'w) partition_api"
    and ok :: "'p \<Rightarrow> bool"
    and granted :: "request_context \<Rightarrow> string \<Rightarrow> bool"
  assumes ok_resolve: "ok p \<Longrightarrow> pa_resolve api t rctx p w = (r, p', w') \<Longrightarrow> ok p'"
    and resolve_granted: "ok p \<Longrightarrow> pa_resolve api t rctx p w = (Inr ids, p', w') \<Longrightarrow> i \<in> set ids \<Longrightarrow>
          i = PartitionID rctx \<or> granted rctx i"
    and resolve_nonempty: "ok p \<Longrightarrow> pa_resolve api t rctx p w = (Inr ids, p', w') \<Longrightarrow> ids \<noteq> []"
    and ok_alias: "ok p \<Longrightarrow> pa_resolve api t rctx p w = (Inr ids, p', w') \<Longrightarrow> set ids' \<subseteq> set ids \<Longrightarrow>
          ids' \<noteq> [] \<Longrightarrow> ok (pa_alias api rctx ids' p')"
begin

lemma first_inaccessible_None: "first_inaccessible acc ids = None \<longleftrightarrow> set ids \<subseteq> set acc"
  by (induction ids) auto

lemma compacted_subset: "set (compacted ids) \<subseteq> set ids"
  using set_drop_subset by (fastforce simp: compacted_def drop_empty_def)

lemma compacted_nonempty: "ids \<noteq> [] \<Longrightarrow> compacted ids \<noteq> []"
  by (auto simp: compacted_def drop_empty_def)

lemma scope_of_visible:
  assumes "TenantID rctx \<noteq> []" and "ids \<noteq> []" and "\<forall>i\<in>set ids. partition_visible granted rctx i"
  shows "scope_allowed granted (Some rctx) caps
    \<lparr>tf_tenant_id = TenantID rctx, tf_partition_ids = drop_empty ids, tf_scoped = True\<rparr>"
proof (cases "drop_empty ids = []")
  case True
  then have "[] \<in> set ids" using assms(2) by (cases ids) (auto simp: drop_empty_def split: if_splits)
  with True assms show ?thesis by (simp add: scope_allowed_def)
next
  case False
  with assms show ?thesis by (auto simp: scope_allowed_def drop_empty_def)
qed

lemma resolveFilter_scope:
  assumes "en_resolver s = api" and "ok (eg_partitions e)"
    and "resolveFilter s t octx caps pids e w = (r, e', w')"
  shows "ok (eg_partitions e') \<and> eg_cache e' = eg_cache e \<and> (\<forall>f. r = Inr f \<longrightarrow> scope_allowed granted octx caps f)"
proof (cases "octx = None \<or> (\<exists>rctx. octx = Some rctx \<and> TenantID rctx = [])")
  case True
  with assms show ?thesis by (auto simp: resolveFilter_def scope_allowed_def split: if_splits)
next
  case False
  then obtain rctx where rctx: "octx = Some rctx" "TenantID rctx \<noteq> []" by auto
  obtain a p1 w1 where res: "pa_resolve api t rctx (eg_partitions e) w = (a, p1, w1)"
    by (cases "pa_resolve api t rctx (eg_partitions e) w") auto
  note ok1 = ok_resolve [OF assms(2) res]
  show ?thesis
  proof (cases a)
    case (Inl err)
    with assms res rctx ok1 show ?thesis by (auto simp: resolveFilter_def)
  next
    case (Inr acc)
    have g: "\<forall>i\<in>set acc. partition_visible granted rctx i"
      using resolve_granted [OF assms(2) res [unfolded Inr]] unfolding partition_visible_def by blast
    have ne: "acc \<noteq> []" by (rule resolve_nonempty [OF assms(2) res [unfolded Inr]])
    note al = ok_alias [OF assms(2) res [unfolded Inr] compacted_subset compacted_nonempty [OF ne]]
    note sc = scope_of_visible [OF rctx(2)]
    have own: "\<forall>i\<in>set [PartitionID rctx]. partition_visible granted rctx i" by (simp add: partition_visible_def)
    have listed: "\<forall>i\<in>set pids. partition_visible granted rctx i" if "first_inaccessible acc pids = None"
      using that g by (auto simp: first_inaccessible_None)
    show ?thesis
      using assms(1,3) res rctx(1,2) ok1 Inr al sc [OF ne g] sc [OF _ own] sc [OF _ listed]
      by (auto simp: resolveFilter_def Let_def simp del: list.set split: if_splits option.splits)
  qed
qed

lemma prepare_scope:
  assumes "en_resolver s = api" and "ok (eg_partitions e)"
    and "prepare s t octx caps q pids e w = (r, e', w')"
  shows "ok (eg_partitions e') \<and> eg_cache e' = eg_cache e \<and>
    (\<forall>q' f. r = Inr (q', f) \<longrightarrow> scope_allowed granted octx caps f \<and> query_allowed (en_allowlist s) q')"
proof (cases "validate_query (en_lib s) (en_allowlist s) q")
  case None
  obtain a e1 w1 where rf: "resolveFilter s t octx caps pids e w = (a, e1, w1)"
    by (cases "resolveFilter s t octx caps pids e w") auto
  have names: "\<forall>n\<in>set (metric_names (sanitizeQueryFilters q)). n \<noteq> [] \<and> allows_metric (en_allowlist s) n"
    using None by (simp add: validate_query_names metric_names_sanitize)
  from resolveFilter_scope [OF assms(1,2) rf] assms(3) None rf names show ?thesis
    by (auto simp: prepare_def query_allowed_def sanitize_no_reserved split: sum.splits)
qed (use assms in \<open>auto simp: prepare_def\<close>)

lemma serve_parts:
  assumes "en_resolver s = api" and "ok (eg_partitions e)"
  shows "ok (eg_partitions (fst (snd (serve s t octx caps q pids tr kind x unbox box ask conv e w))))"
proof -
  obtain a e1 w1 where pr: "prepare s t octx caps q pids e w = (a, e1, w1)"
    by (cases "prepare s t octx caps q pids e w") auto
  have "ok (eg_partitions e1)" using prepare_scope [OF assms pr] by blast
  moreover have "eg_partitions (cachePut t1 t2 k v e1) = eg_partitions e1" for t1 t2 k v
    by (simp add: cachePut_def split: option.splits)
  ultimately show ?thesis using pr by (auto simp: serve_def Let_def split: option.split sum.split prod.split)
qed

text \<open>
  A result was given for the same question and a scope that this caller may have, by the backend now
  or when the response was cached.
\<close>

lemma serve_answer:
  assumes "en_resolver s = api" and "ok (eg_partitions e)" and "cache_inv s e" and "inj (en_fingerprint s)"
    and "serve s t octx caps q pids tr kind x unbox box ask conv e w = (Inr y, e', w')"
    and "\<And>q f w r. fst (ask q f w) = Inr r \<Longrightarrow> given_for s kind q f tr x (box (conv r))"
    and "\<And>v y. unbox v = Some y \<Longrightarrow> v = box y"
  shows "\<exists>q' f tr' x'. given_for s kind q' f tr' x' (box y) \<and> scope_allowed granted octx caps f \<and>
    same_question q' tr' x' (sanitizeQueryFilters q) tr x"
proof -
  obtain a e1 w1 where pr: "prepare s t octx caps q pids e w = (a, e1, w1)"
    by (cases "prepare s t octx caps q pids e w") auto
  with assms(5) obtain q1 f where a: "a = Inr (q1, f)" by (auto simp: serve_def split: sum.splits)
  have sc: "scope_allowed granted octx caps f" using prepare_scope [OF assms(1,2) pr] a by blast
  have q1: "q1 = sanitizeQueryFilters q" using pr a prepare_query by (metis fst_conv)
  have c1: "cache_inv s e1"
    using assms(3) prepare_cache [of s t octx caps q pids e w] pr by (simp add: cache_inv_def)
  let ?key = "lookupKey s e1 kind q1 f tr x"
  show ?thesis
  proof (cases "Option.bind (cacheGet (at_get t) ?key e1) unbox")
    case (Some z)
    then obtain v where v: "cacheGet (at_get t) ?key e1 = Some v" "unbox v = Some z"
      by (auto simp: bind_eq_Some_conv)
    have "z = y" using assms(5) pr a Some by (simp add: serve_def Let_def)
    obtain q' f' tr' x' where g: "given_for s kind q' f' tr' x' v" "same_scope f' f" "same_question q' tr' x' q1 tr x"
      using cache_inv_hit [OF c1 v(1) assms(4)] by blast
    have "same_scope f f'" using g(2) by (simp add: same_scope_def)
    from same_scope_allowed [OF this sc] g assms(7) [OF v(2)] \<open>z = y\<close> q1 show ?thesis by auto
  next
    case None
    obtain b w2 where ask: "ask q1 f w1 = (b, w2)" by (cases "ask q1 f w1")
    with assms(5) pr a None obtain r where "b = Inr r" "y = conv r"
      by (auto simp: serve_def Let_def split: sum.splits)
    with assms(6) [of q1 f w1 r] ask sc q1 show ?thesis by (metis fst_conv same_question_refl)
  qed
qed

lemma serve_cong:
  assumes "en_resolver s = api" and "ok (eg_partitions e)"
    and "\<And>q f. scope_allowed granted octx caps f \<Longrightarrow> query_allowed (en_allowlist s) q \<Longrightarrow> ask q f = ask' q f"
  shows "serve s t octx caps q pids tr kind x unbox box ask conv e w =
         serve s t octx caps q pids tr kind x unbox box ask' conv e w"
proof -
  obtain a e1 w1 where pr: "prepare s t octx caps q pids e w = (a, e1, w1)"
    by (cases "prepare s t octx caps q pids e w") auto
  show ?thesis
  proof (cases a)
    case (Inr qf)
    then obtain q1 f where a: "a = Inr (q1, f)" by (cases qf) auto
    then have "ask q1 f = ask' q1 f" using prepare_scope [OF assms(1,2) pr] assms(3) by blast
    with pr a show ?thesis by (simp add: serve_def Let_def split: option.split)
  qed (use pr in \<open>simp add: serve_def\<close>)
qed

end

subsection \<open>Both resolvers keep the contract\<close>

interpretation own_partition: partition_source DefaultPartitionResolver "\<lambda>_. True" "\<lambda>_ _. False"
  by unfold_locales (auto simp: DefaultPartitionResolver_def)

definition key_granted :: "'w partition_setup \<Rightarrow> string \<Rightarrow> string \<Rightarrow> bool" where
  "key_granted hs k i \<longleftrightarrow> (\<exists>rctx w caps. partition_cache_key (hp_lib hs) rctx = k \<and>
     (i = PartitionID rctx \<or> fst (hp_caps hs (child_context rctx i) w) = Inr caps \<and> may_view caps))"

definition parts_ok :: "'w partition_setup \<Rightarrow> partition_entry gomap \<Rightarrow> bool" where
  "parts_ok hs c \<longleftrightarrow> gmap_ok c \<and> (\<forall>(k, en)\<in>set c. pe_ids en \<noteq> [] \<and> (\<forall>i\<in>set (pe_ids en). key_granted hs k i))"

lemma visible_children_granted:
  "i \<in> set (fst (visible_children resolve rctx ids w)) \<Longrightarrow>
   \<exists>w' caps. fst (resolve (child_context rctx i) w') = Inr caps \<and> may_view caps"
proof (induction ids arbitrary: w)
  case Nil
  then show ?case by simp
next
  case (Cons c ids)
  obtain r w1 where r: "resolve (child_context rctx c) w = (r, w1)" by (cases "resolve (child_context rctx c) w")
  obtain rest w2 where v: "visible_children resolve rctx ids w1 = (rest, w2)"
    by (cases "visible_children resolve rctx ids w1")
  show ?case
  proof (cases "i \<in> set rest")
    case True
    then show ?thesis using Cons.IH [of w1] v by simp
  next
    case False
    with Cons.prems r v have "\<exists>caps. r = Inr caps \<and> may_view caps \<and> i = c"
      by (auto split: sum.splits if_splits)
    with r show ?thesis by (metis fst_conv)
  qed
qed

lemma parts_ok_store:
  assumes "parts_ok hs c" and "\<forall>i\<in>set ids. key_granted hs k i" and "ids \<noteq> []"
  shows "parts_ok hs (cacheResult m ttl t1 t2 k ids c)"
proof -
  have room: "gmap_ok (make_room m t1 c)" "set (make_room m t1 c) \<subseteq> set c"
    using make_room_part [of c m t1] assms(1) by (auto simp: parts_ok_def)
  have "(k', en) \<in> set (gput k e (make_room m t1 c)) \<Longrightarrow> k' = k \<and> en = e \<or> (k', en) \<in> set c" for k' en e
  proof -
    assume "(k', en) \<in> set (gput k e (make_room m t1 c))"
    then have "gget (gput k e (make_room m t1 c)) k' = Some en"
      by (intro gget_of_mem gmap_ok_gput room(1))
    then show ?thesis using room(2) gget_in_set by (fastforce simp: gget_gput split: if_splits)
  qed
  with assms room(1) show ?thesis by (fastforce simp: parts_ok_def cacheResult_def gmap_ok_gput)
qed

lemma parts_ok_resolve:
  assumes "parts_ok hs c"
    and "ResolveAccessiblePartitions hs t0 t1 t2 rctx c w = (r, c', w')"
  shows "parts_ok hs c' \<and>
    (\<forall>ids. r = Inr ids \<longrightarrow> ids \<noteq> [] \<and> (\<forall>i\<in>set ids. key_granted hs (partition_cache_key (hp_lib hs) rctx) i))"
proof (cases "part_get t0 (partition_cache_key (hp_lib hs) rctx) c")
  case (Some ids)
  then obtain en where "(partition_cache_key (hp_lib hs) rctx, en) \<in> set c" "ids = pe_ids en"
    by (auto simp: part_get_def dest: gget_in_set simp del: map_of_eq_Some_iff split: option.splits if_splits)
  with assms Some show ?thesis by (auto simp: ResolveAccessiblePartitions_def parts_ok_def)
next
  case None
  let ?k = "partition_cache_key (hp_lib hs) rctx"
  have own: "key_granted hs ?k (PartitionID rctx)" by (auto simp: key_granted_def)
  have kids: "\<forall>i\<in>set (fst (visible_children (hp_caps hs) rctx ch w1)). key_granted hs ?k i" for ch w1
    using visible_children_granted [of _ "hp_caps hs" rctx ch w1] unfolding key_granted_def by blast
  obtain a w1 where l: "hp_lister hs (TenantID rctx) (PartitionID rctx) w = (a, w1)"
    by (cases "hp_lister hs (TenantID rctx) (PartitionID rctx) w")
  show ?thesis
  proof (cases a)
    case (Inl err)
    with assms None l own show ?thesis
      by (auto simp: ResolveAccessiblePartitions_def Let_def intro!: parts_ok_store)
  next
    case (Inr ch)
    obtain ids w2 where v: "visible_children (hp_caps hs) rctx ch w1 = (ids, w2)"
      by (cases "visible_children (hp_caps hs) rctx ch w1")
    have "\<forall>i\<in>set (PartitionID rctx # ids). key_granted hs ?k i" using kids [of ch w1] v own by simp
    with assms None l Inr v show ?thesis
      by (auto simp: ResolveAccessiblePartitions_def Let_def intro!: parts_ok_store)
  qed
qed

lemma parts_ok_overwrite:
  assumes "parts_ok hs c" and "\<forall>i\<in>set ids. key_granted hs (partition_cache_key (hp_lib hs) rctx) i" and "ids \<noteq> []"
  shows "parts_ok hs (overwrite_cached (hp_lib hs) rctx ids c)"
proof (cases "gget c (partition_cache_key (hp_lib hs) rctx)")
  case (Some e)
  let ?k = "partition_cache_key (hp_lib hs) rctx"
  have ok: "gmap_ok c" using assms(1) by (simp add: parts_ok_def)
  have "pe_ids en \<noteq> [] \<and> (\<forall>i\<in>set (pe_ids en). key_granted hs k' i)"
    if "(k', en) \<in> set (gput ?k (e\<lparr>pe_ids := ids\<rparr>) c)" for k' en
  proof -
    have "gget (gput ?k (e\<lparr>pe_ids := ids\<rparr>) c) k' = Some en"
      by (rule gget_of_mem [OF gmap_ok_gput [OF ok] that])
    then have "k' = ?k \<and> en = e\<lparr>pe_ids := ids\<rparr> \<or> (k', en) \<in> set c"
      using gget_in_set by (fastforce simp: gget_gput split: if_splits)
    with assms show ?thesis by (auto simp: parts_ok_def)
  qed
  with Some ok show ?thesis by (auto simp: overwrite_cached_def parts_ok_def gmap_ok_gput)
qed (use assms in \<open>simp add: overwrite_cached_def Let_def\<close>)

interpretation hierarchy: partition_source "hierarchical_api hs" "parts_ok hs"
  "\<lambda>rctx i. key_granted hs (partition_cache_key (hp_lib hs) rctx) i"
  for hs :: "'w partition_setup"
proof
  show "parts_ok hs p \<Longrightarrow> pa_resolve (hierarchical_api hs) t rctx p w = (r, p', w') \<Longrightarrow> parts_ok hs p'"
    for p t rctx w r p' w'
    using parts_ok_resolve by (fastforce simp: hierarchical_api_def)
  show "parts_ok hs p \<Longrightarrow> pa_resolve (hierarchical_api hs) t rctx p w = (Inr ids, p', w') \<Longrightarrow> i \<in> set ids \<Longrightarrow>
      i = PartitionID rctx \<or> key_granted hs (partition_cache_key (hp_lib hs) rctx) i"
    for p t rctx w ids p' w' i
    using parts_ok_resolve by (fastforce simp: hierarchical_api_def)
  show "parts_ok hs p \<Longrightarrow> pa_resolve (hierarchical_api hs) t rctx p w = (Inr ids, p', w') \<Longrightarrow> ids \<noteq> []"
    for p t rctx w ids p' w'
    using parts_ok_resolve by (fastforce simp: hierarchical_api_def)
  show "parts_ok hs p \<Longrightarrow> pa_resolve (hierarchical_api hs) t rctx p w = (Inr ids, p', w') \<Longrightarrow>
      set ids' \<subseteq> set ids \<Longrightarrow> ids' \<noteq> [] \<Longrightarrow> parts_ok hs (pa_alias (hierarchical_api hs) rctx ids' p')"
    for p t rctx w ids p' w' ids'
  proof -
    assume a: "parts_ok hs p" "pa_resolve (hierarchical_api hs) t rctx p w = (Inr ids, p', w')" "set ids' \<subseteq> set ids"
      "ids' \<noteq> []"
    then have "ResolveAccessiblePartitions hs (at_lookup t) (at_make_room t) (at_store t) rctx p w = (Inr ids, p', w')"
      by (simp add: hierarchical_api_def)
    from parts_ok_resolve [OF a(1) this] a(3,4)
    have "parts_ok hs (overwrite_cached (hp_lib hs) rctx ids' p')" by (intro parts_ok_overwrite) auto
    then show ?thesis by (simp add: hierarchical_api_def)
  qed
qed

end
