(* ===== verification/AnalyticsGuard.thy ===== *)
theory AnalyticsGuard imports AnalyticsEngine "HOL-Library.Countable" begin

section \<open>What the analytics endpoints guarantee\<close>

text \<open>
  The contract of the engine with the hierarchical resolver, for every endpoint and every run of
  requests: which queries can reach the metrics backend, and whose data an answer shows. The
  partition resolver's keys are quoted, and \<open>quote_ok\<close> states what is used of \<open>strconv.Quote\<close>:
  different strings have different literals, and a literal has no NUL byte.
\<close>

definition quote_ok :: "golib \<Rightarrow> bool" where
  "quote_ok L \<longleftrightarrow> inj (quote L) \<and> (\<forall>s. CHR 0x00 \<notin> set (quote L s))"

definition same_ids :: "request_context \<Rightarrow> request_context \<Rightarrow> bool" where
  "same_ids a b \<longleftrightarrow> SubjectID a = SubjectID b \<and> TenantID a = TenantID b \<and> PartitionID a = PartitionID b"

lemma partition_key_inj:
  assumes "quote_ok L" and "partition_cache_key L a = partition_cache_key L b"
  shows "same_ids a b"
proof -
  have nul: "CHR 0x00 \<notin> set (quote L s)" and inj: "quote L s = quote L t \<Longrightarrow> s = t" for s t
    using assms(1) by (auto simp: quote_ok_def dest: injD)
  have "quote L (SubjectID a) @ CHR 0x00 # (quote L (TenantID a) @ CHR 0x00 # quote L (PartitionID a)) =
        quote L (SubjectID b) @ CHR 0x00 # (quote L (TenantID b) @ CHR 0x00 # quote L (PartitionID b))"
    using assms(2) by (simp add: partition_cache_key_def)
  from colon_split [OF nul nul this] have
    e1: "quote L (SubjectID a) = quote L (SubjectID b)" and
    e2: "quote L (TenantID a) @ CHR 0x00 # quote L (PartitionID a) =
         quote L (TenantID b) @ CHR 0x00 # quote L (PartitionID b)" by auto
  from colon_split [OF nul nul e2] e1 show ?thesis by (auto simp: same_ids_def dest: inj)
qed

text \<open>
  The partitions a caller may see besides the own one: the capability resolver granted a caller
  with the same subject, tenant and partition an analytics capability in that partition.
\<close>

definition partition_granted :: "'w partition_setup \<Rightarrow> request_context \<Rightarrow> string \<Rightarrow> bool" where
  "partition_granted hs rctx i \<longleftrightarrow> (\<exists>rctx' w caps. same_ids rctx' rctx \<and>
     fst (hp_caps hs (child_context rctx' i) w) = Inr caps \<and> may_view caps)"

lemma key_granted_iff:
  assumes "quote_ok (hp_lib hs)" and "key_granted hs (partition_cache_key (hp_lib hs) rctx) i"
  shows "i = PartitionID rctx \<or> partition_granted hs rctx i"
  using assms(2) partition_key_inj [OF assms(1)] unfolding key_granted_def partition_granted_def
  by (metis same_ids_def)

lemma scope_granted:
  assumes "quote_ok (hp_lib hs)"
    and "scope_allowed (\<lambda>rctx i. key_granted hs (partition_cache_key (hp_lib hs) rctx) i) octx caps f"
  shows "scope_allowed (partition_granted hs) octx caps f"
  using assms(2) by (rule scope_allowed_mono) (auto simp: partition_visible_def dest: key_granted_iff [OF assms(1)])

subsection \<open>The invariant of a run\<close>

lemma NewEngine_setup:
  assumes "NewEngine L compile fp dur b resolver p opts = Inr (s, e)"
  shows "en_resolver s = (case resolver of None \<Rightarrow> DefaultPartitionResolver | Some r \<Rightarrow> r)"
    and "en_fingerprint s = fp" and "eg_partitions e = p" and "cache_inv s e"
  using assms qcache.justified_empty
  by (auto simp: NewEngine_def cache_inv_def qc_ok_new Let_def split: sum.splits if_splits)

lemma as_box: "as_scalar v = Some a \<Longrightarrow> v = CScalar a" "as_points v = Some b \<Longrightarrow> v = CPoints b"
  "as_segments v = Some c \<Longrightarrow> v = CSegments c" "as_items v = Some d \<Longrightarrow> v = CItems d"
  by (cases v; simp)+

lemma given_rows:
  "fst (be_scalar (en_backend s) q f tr w) = Inr r1 \<Longrightarrow> given_for s ''scalar'' q f tr [] (CScalar r1)"
  "fst (be_series (en_backend s) q f tr step w) = Inr r2 \<Longrightarrow>
     given_for s ''timeseries'' q f tr [(''step'', en_duration s step)] (CPoints r2)"
  "fst (be_grouped (en_backend s) q f tr g w) = Inr r3 \<Longrightarrow>
     given_for s ''grouped'' q f tr [(''group_by'', g)] (CSegments (List.map
       (\<lambda>item. \<lparr>ds_label = lv_label item, ds_value = lv_value item, ds_color = []\<rparr>) r3))"
  "fst (be_topn (en_backend s) q f tr g n w) = Inr r3 \<Longrightarrow>
     given_for s ''topn'' q f tr [(''group_by'', g), (''limit'', dec_int n)] (CItems (List.map
       (\<lambda>item. \<lparr>ti_label = lv_label item, ti_value = lv_value item, ti_metadata = []\<rparr>) r3))"
  unfolding given_for_def by fastforce+

text \<open>
  What a request asks, from its body: the metric without filters on tenancy labels, the time range and
  the parameters of its kind, with their defaults. The kind of a call is the end of its route.
\<close>

definition body_asks ::
  "api_env \<Rightarrow> ('p, 'w) engine_setup \<Rightarrow> int \<Rightarrow> analytics_request option \<Rightarrow> string \<Rightarrow> metric_query \<Rightarrow> time_range \<Rightarrow>
   string gomap \<Rightarrow> bool" where
  "body_asks env s now body kind q tr x \<longleftrightarrow> (\<exists>req. body = Some req \<and>
     q = sanitizeQueryFilters (ToMetricQuery req) \<and>
     parseTimeRange (ae_rfc3339 env) now (ar_time_range req) = Inr tr \<and>
     (kind = ''scalar'' \<and> x = [] \<or>
      kind = ''timeseries'' \<and> (\<exists>step. x = [(''step'', en_duration s step)] \<and>
        ValidateGranularity (en_lib s) (if ar_step req = [] then ''hour'' else ar_step req) = Inr step) \<or>
      kind = ''grouped'' \<and> x = [(''group_by'', ar_group_by req)] \<or>
      kind = ''topn'' \<and> x = [(''group_by'', ar_group_by req),
        (''limit'', dec_int (if ar_limit req \<le> 0 then 10 else ar_limit req))]))"

lemma body_rows:
  assumes "parseTimeRange (ae_rfc3339 env) now (ar_time_range req) = Inr tr"
  shows "body_asks env s now (Some req) ''scalar'' (sanitizeQueryFilters (ToMetricQuery req)) tr []"
    and "ValidateGranularity (en_lib s) (if ar_step req = [] then ''hour'' else ar_step req) = Inr step \<Longrightarrow>
      body_asks env s now (Some req) ''timeseries'' (sanitizeQueryFilters (ToMetricQuery req)) tr
        [(''step'', en_duration s step)]"
    and "body_asks env s now (Some req) ''grouped'' (sanitizeQueryFilters (ToMetricQuery req)) tr
      [(''group_by'', ar_group_by req)]"
    and "(if ar_limit req \<le> 0 then 10 else ar_limit req) = n \<Longrightarrow>
      body_asks env s now (Some req) ''topn'' (sanitizeQueryFilters (ToMetricQuery req)) tr
        [(''group_by'', ar_group_by req), (''limit'', dec_int n)]"
  using assms by (simp_all add: body_asks_def)

definition call_asks ::
  "api_env \<Rightarrow> ('p, 'w) engine_setup \<Rightarrow> api_call \<Rightarrow> string \<Rightarrow> metric_query \<Rightarrow> time_range \<Rightarrow> string gomap \<Rightarrow> bool" where
  "call_asks env s c kind q tr x \<longleftrightarrow>
     ac_route c = ''POST /api/analytics/query/'' @ kind \<and> body_asks env s (ac_now c) (ac_body c) kind q tr x"

text \<open>
  A body answers a question: it shows a value that the backend gave for the same question, with a scope
  that satisfies \<open>allowed\<close>.
\<close>

definition answers_question ::
  "('p, 'w) engine_setup \<Rightarrow> (tenant_filter \<Rightarrow> bool) \<Rightarrow>
   (string \<Rightarrow> metric_query \<Rightarrow> time_range \<Rightarrow> string gomap \<Rightarrow> bool) \<Rightarrow> api_body \<Rightarrow> bool" where
  "answers_question s allowed asks b \<longleftrightarrow> (\<exists>kind q tr x q' f tr' x' v.
     asks kind q tr x \<and> same_question q' tr' x' q tr x \<and> given_for s kind q' f tr' x' v \<and>
     allowed f \<and> b = body_of v)"

lemma answers_question_mono:
  "answers_question s P asks b \<Longrightarrow> (\<And>f. P f \<Longrightarrow> P' f) \<Longrightarrow> (\<And>k q tr x. asks k q tr x \<Longrightarrow> asks' k q tr x) \<Longrightarrow>
   answers_question s P' asks' b"
  unfolding answers_question_def by blast

subsection \<open>The response cache in a run\<close>

lemma respond_state: "snd (respond env body r) = snd r"
  by (simp add: respond_def split: prod.split)

lemma handlers_cache:
  assumes "cache_inv s e"
  shows "cache_inv s (fst (snd (handleScalar env s t now octx caps body e w)))"
    and "cache_inv s (fst (snd (handleTimeSeries env s t now octx caps body e w)))"
    and "cache_inv s (fst (snd (handleGrouped env s t now octx caps body e w)))"
    and "cache_inv s (fst (snd (handleTopN env s t now octx caps body e w)))"
  unfolding handleScalar_def handleTimeSeries_def handleGrouped_def handleTopN_def Scalar_def
    TimeSeries_def Grouped_def TopN_def
  by (auto simp: respond_state assms split: option.split sum.split intro!: serve_cache [OF assms] given_rows)

lemma serve_call_cache:
  assumes "cache_inv s e" and "serve_call env s c e w = Some (resp, e', w')"
  shows "cache_inv s e'"
  using assms(2) handlers_cache [OF assms(1), of env "ac_readings c" "ac_now c" "ac_context c" "ac_caps c" "ac_body c" w]
  by (auto simp: serve_call_def analytics_routes_def split: if_splits)

lemma run_calls_cache: "cache_inv s e \<Longrightarrow> cache_inv s (fst (run_calls env s cs e w))"
proof (induction cs arbitrary: e w)
  case (Cons c cs)
  then show ?case using serve_call_cache [OF Cons.prems] by (auto split: option.split)
qed simp

subsection \<open>What the endpoints answer, for any partition resolver with its contract\<close>

definition answers_ok :: "('p \<Rightarrow> bool) \<Rightarrow> (tenant_filter \<Rightarrow> bool) \<Rightarrow> ('p, 'w) engine_setup \<Rightarrow>
  (string \<Rightarrow> metric_query \<Rightarrow> time_range \<Rightarrow> string gomap \<Rightarrow> bool) \<Rightarrow> api_response \<times> 'p engine \<times> 'w \<Rightarrow> bool" where
  "answers_ok ok allowed s asks res \<longleftrightarrow> (case res of (resp, e', w') \<Rightarrow>
     ok (eg_partitions e') \<and>
     (as_status resp = 200 \<longrightarrow> answers_question s allowed asks (as_body resp)))"

lemma writeJSON_body: "as_status (writeJSON tm b) = 200 \<Longrightarrow> as_body (writeJSON tm b) = b"
  by (auto simp: writeJSON_def split: option.splits)

context partition_source
begin

lemma respond_ok:
  assumes "en_resolver s = api" and "inj (en_fingerprint s)" and "ok (eg_partitions e)" and "cache_inv s e"
    and "asks kind (sanitizeQueryFilters q) tr x"
    and "\<And>q f w r. fst (ask q f w) = Inr r \<Longrightarrow> given_for s kind q f tr x (box (conv r))"
    and "\<And>v y. unbox v = Some y \<Longrightarrow> v = box y" and "\<And>y. body y = body_of (box y)"
  shows "answers_ok ok (scope_allowed granted octx caps) s asks
    (respond env body (serve s t octx caps q pids tr kind x unbox box ask conv e w))"
proof -
  obtain r e' w' where sv: "serve s t octx caps q pids tr kind x unbox box ask conv e w = (r, e', w')"
    by (cases "serve s t octx caps q pids tr kind x unbox box ask conv e w") auto
  have e': "ok (eg_partitions e')"
    using serve_parts [OF assms(1,3), of t octx caps q pids tr kind x unbox box ask conv w] sv by simp
  show ?thesis
  proof (cases r)
    case (Inl err)
    with e' sv show ?thesis
      by (simp add: answers_ok_def respond_def engine_error_def api_error_def)
  next
    case (Inr y)
    have "\<exists>q' f tr' x'. given_for s kind q' f tr' x' (box y) \<and> scope_allowed granted octx caps f \<and>
        same_question q' tr' x' (sanitizeQueryFilters q) tr x"
      by (rule serve_answer [OF assms(1,3,4,2) sv [unfolded Inr]]) (fact assms(6), fact assms(7))
    then have "answers_question s (scope_allowed granted octx caps) asks (body y)"
      using assms(5,8) unfolding answers_question_def by blast
    with e' sv Inr writeJSON_body [of "ae_time_error env" "body y"] show ?thesis
      by (auto simp: answers_ok_def respond_def)
  qed
qed

lemma error_ok:
  "ok (eg_partitions e) \<Longrightarrow> c \<noteq> 200 \<Longrightarrow> answers_ok ok P s asks (api_error m c, e, w)"
  by (simp add: answers_ok_def api_error_def)

lemma handlers_ok:
  fixes env :: api_env and now :: int and body :: "analytics_request option"
  assumes "en_resolver s = api" and "inj (en_fingerprint s)" and "ok (eg_partitions e)" and "cache_inv s e"
  defines "asks \<equiv> \<lambda>k kind q tr x. kind = k \<and> body_asks env s now body kind q tr x"
  shows "answers_ok ok (scope_allowed granted octx caps) s (asks ''scalar'')
      (handleScalar env s t now octx caps body e w)"
    and "answers_ok ok (scope_allowed granted octx caps) s (asks ''timeseries'')
      (handleTimeSeries env s t now octx caps body e w)"
    and "answers_ok ok (scope_allowed granted octx caps) s (asks ''grouped'')
      (handleGrouped env s t now octx caps body e w)"
    and "answers_ok ok (scope_allowed granted octx caps) s (asks ''topn'')
      (handleTopN env s t now octx caps body e w)"
  unfolding handleScalar_def handleTimeSeries_def handleGrouped_def handleTopN_def Scalar_def
    TimeSeries_def Grouped_def TopN_def
  unfolding asks_def
  by (auto split: option.split sum.split
      intro!: error_ok [OF assms(3)] respond_ok [OF assms(1-4)] given_rows as_box body_rows)

lemma serve_call_ok:
  assumes "en_resolver s = api" and "inj (en_fingerprint s)" and "ok (eg_partitions e)" and "cache_inv s e"
    and "serve_call env s c e w = Some res"
  shows "answers_ok ok (scope_allowed granted (ac_context c) (ac_caps c)) s (call_asks env s c) res"
proof -
  have weaken: "answers_ok ok P s (\<lambda>kind q tr x. kind = k \<and> body_asks env s (ac_now c) (ac_body c) kind q tr x) res \<Longrightarrow>
      ac_route c = ''POST /api/analytics/query/'' @ k \<Longrightarrow> answers_ok ok P s (call_asks env s c) res"
    for P k and res :: "api_response \<times> 'p engine \<times> 'w"
    unfolding answers_ok_def by (auto simp: call_asks_def elim!: answers_question_mono)
  show ?thesis
    using assms(5)
    by (auto simp: serve_call_def analytics_routes_def split: if_splits
        intro: weaken [OF handlers_ok(1) [OF assms(1-4)]] weaken [OF handlers_ok(2) [OF assms(1-4)]]
          weaken [OF handlers_ok(3) [OF assms(1-4)]] weaken [OF handlers_ok(4) [OF assms(1-4)]])
qed

lemma run_calls_parts:
  "en_resolver s = api \<Longrightarrow> inj (en_fingerprint s) \<Longrightarrow> ok (eg_partitions e) \<Longrightarrow> cache_inv s e \<Longrightarrow>
   ok (eg_partitions (fst (run_calls env s cs e w)))"
proof (induction cs arbitrary: e w)
  case Nil
  then show ?case by simp
next
  case (Cons c cs)
  show ?case
  proof (cases "serve_call env s c e w")
    case None
    with Cons show ?thesis by simp
  next
    case (Some res)
    obtain resp e1 w1 where res: "res = (resp, e1, w1)" by (cases res) auto
    with serve_call_ok [OF Cons.prems(1-4) Some] have "ok (eg_partitions e1)" by (simp add: answers_ok_def)
    from Cons.IH [OF Cons.prems(1,2) this serve_call_cache [OF Cons.prems(4) Some [unfolded res]]] Some res
    show ?thesis by simp
  qed
qed

end

subsection \<open>The engine asks only what it may\<close>

lemma prepare_backend_irrelevant:
  "resolveFilter (s\<lparr>en_backend := b\<rparr>) t octx caps pids e w = resolveFilter s t octx caps pids e w"
  "prepare (s\<lparr>en_backend := b\<rparr>) t octx caps q pids e w = prepare s t octx caps q pids e w"
  "lookupKey (s\<lparr>en_backend := b\<rparr>) e kind q f tr x = lookupKey s e kind q f tr x"
proof -
  have sel: "en_resolver (s\<lparr>en_backend := b\<rparr>) = en_resolver s" "en_lib (s\<lparr>en_backend := b\<rparr>) = en_lib s"
    "en_allowlist (s\<lparr>en_backend := b\<rparr>) = en_allowlist s" by simp_all
  show rf: "resolveFilter (s\<lparr>en_backend := b\<rparr>) t octx caps pids e w = resolveFilter s t octx caps pids e w"
    unfolding resolveFilter_def sel by (rule refl)
  show "prepare (s\<lparr>en_backend := b\<rparr>) t octx caps q pids e w = prepare s t octx caps q pids e w"
    unfolding prepare_def rf sel by (rule refl)
  show "lookupKey (s\<lparr>en_backend := b\<rparr>) e kind q f tr x = lookupKey s e kind q f tr x"
    by (simp add: lookupKey_def)
qed

lemma serve_backend_irrelevant:
  "serve (s\<lparr>en_backend := b\<rparr>) t octx caps q pids tr kind x unbox box ask conv e w =
   serve s t octx caps q pids tr kind x unbox box ask conv e w"
  unfolding serve_def prepare_backend_irrelevant by (rule refl)

lemma agree_rows:
  assumes "agree_on P b b'" and "P q f"
  shows "be_scalar b q f tr = be_scalar b' q f tr" "be_series b q f tr step = be_series b' q f tr step"
    "be_grouped b q f tr g = be_grouped b' q f tr g" "be_topn b q f tr g n = be_topn b' q f tr g n"
  using assms by (auto simp: agree_on_def)

lemma queries_agree:
  assumes "en_resolver s = hierarchical_api hs" and "parts_ok hs (eg_partitions e)" and "quote_ok (hp_lib hs)"
    and "agree_on (\<lambda>q f. scope_allowed (partition_granted hs) octx caps f \<and> query_allowed (en_allowlist s) q)
           (en_backend s) b'"
  shows "Scalar (s\<lparr>en_backend := b'\<rparr>) t octx caps q pids tr e w = Scalar s t octx caps q pids tr e w"
    and "TimeSeries (s\<lparr>en_backend := b'\<rparr>) t octx caps q pids tr step e w = TimeSeries s t octx caps q pids tr step e w"
    and "Grouped (s\<lparr>en_backend := b'\<rparr>) t octx caps q pids tr g e w = Grouped s t octx caps q pids tr g e w"
    and "TopN (s\<lparr>en_backend := b'\<rparr>) t octx caps q pids tr g n e w = TopN s t octx caps q pids tr g n e w"
  unfolding Scalar_def TimeSeries_def Grouped_def TopN_def serve_backend_irrelevant
  by (simp_all, (rule hierarchy.serve_cong [OF assms(1,2)],
      rule agree_rows [OF assms(4), symmetric], blast intro: scope_granted [OF assms(3)])+)

lemma handlers_agree:
  assumes "en_resolver s = hierarchical_api hs" and "parts_ok hs (eg_partitions e)" and "quote_ok (hp_lib hs)"
    and "agree_on (\<lambda>q f. scope_allowed (partition_granted hs) octx caps f \<and> query_allowed (en_allowlist s) q)
           (en_backend s) b'"
  shows "handleScalar env (s\<lparr>en_backend := b'\<rparr>) t now octx caps body e w = handleScalar env s t now octx caps body e w"
    and "handleTimeSeries env (s\<lparr>en_backend := b'\<rparr>) t now octx caps body e w =
      handleTimeSeries env s t now octx caps body e w"
    and "handleGrouped env (s\<lparr>en_backend := b'\<rparr>) t now octx caps body e w =
      handleGrouped env s t now octx caps body e w"
    and "handleTopN env (s\<lparr>en_backend := b'\<rparr>) t now octx caps body e w = handleTopN env s t now octx caps body e w"
proof -
  have sel: "en_lib (s\<lparr>en_backend := b'\<rparr>) = en_lib s" by simp
  show "handleScalar env (s\<lparr>en_backend := b'\<rparr>) t now octx caps body e w = handleScalar env s t now octx caps body e w"
    unfolding handleScalar_def queries_agree [OF assms] by (rule refl)
  show "handleTimeSeries env (s\<lparr>en_backend := b'\<rparr>) t now octx caps body e w =
      handleTimeSeries env s t now octx caps body e w"
    unfolding handleTimeSeries_def queries_agree [OF assms] sel by (rule refl)
  show "handleGrouped env (s\<lparr>en_backend := b'\<rparr>) t now octx caps body e w =
      handleGrouped env s t now octx caps body e w"
    unfolding handleGrouped_def queries_agree [OF assms] by (rule refl)
  show "handleTopN env (s\<lparr>en_backend := b'\<rparr>) t now octx caps body e w = handleTopN env s t now octx caps body e w"
    unfolding handleTopN_def queries_agree [OF assms] by (rule refl)
qed

subsection \<open>Callers without a tenant\<close>

definition shut :: "'p engine \<Rightarrow> 'w \<Rightarrow> api_response \<times> 'p engine \<times> 'w \<Rightarrow> bool" where
  "shut e w res \<longleftrightarrow> (case res of (resp, e', w') \<Rightarrow> as_status resp \<in> {400, 403} \<and> e' = e \<and> w' = w)"

lemma closed_error: "shut e w (api_error m 400, e, w)"
  by (simp add: shut_def api_error_def)

lemma validate_query_error: "validate_query l m q = Some err \<Longrightarrow> error_is err ErrMetricNotAllowed"
  by (induction l m q rule: validate_query.induct) (auto simp: not_allowed_def split: if_splits option.splits)

lemma closed_respond:
  assumes "case octx of None \<Rightarrow> True | Some rctx \<Rightarrow> TenantID rctx = []"
    and "\<not> Has caps GlobalViewCapability"
  shows "shut e w (respond env body (serve s t octx caps q pids tr kind x unbox box ask conv e w))"
proof (cases "validate_query (en_lib s) (en_allowlist s) q")
  case None
  have "resolveFilter s t octx caps pids e w = (Inl (Sentinel ErrTenantScopeRequired), e, w)"
    using assms by (cases octx) (simp_all add: resolveFilter_def)
  with None show ?thesis
    by (simp add: serve_def prepare_def respond_def shut_def engine_error_def isForbiddenError_def api_error_def)
next
  case (Some err)
  then show ?thesis using validate_query_error [OF Some]
    by (simp add: serve_def prepare_def respond_def shut_def engine_error_def isValidationError_def api_error_def)
qed

lemma closed_handlers:
  assumes "case octx of None \<Rightarrow> True | Some rctx \<Rightarrow> TenantID rctx = []"
    and "\<not> Has caps GlobalViewCapability"
  shows "shut e w (handleScalar env s t now octx caps body e w)"
    and "shut e w (handleTimeSeries env s t now octx caps body e w)"
    and "shut e w (handleGrouped env s t now octx caps body e w)"
    and "shut e w (handleTopN env s t now octx caps body e w)"
  unfolding handleScalar_def handleTimeSeries_def handleGrouped_def handleTopN_def Scalar_def
    TimeSeries_def Grouped_def TopN_def
  by (auto split: option.split sum.split intro!: closed_error closed_respond [OF assms])

lemma closed_call:
  assumes "case ac_context c of None \<Rightarrow> True | Some rctx \<Rightarrow> TenantID rctx = []"
    and "\<not> Has (ac_caps c) GlobalViewCapability" and "serve_call env s c e w = Some res"
  shows "shut e w res"
  using assms(3) closed_handlers [OF assms(1,2), of e w env s]
  by (auto simp: serve_call_def analytics_routes_def split: if_splits)

subsection \<open>Properties\<close>

text \<open>
  C5. Nothing but allowed queries reaches the metrics backend: whatever route is called with whatever
  context, capabilities and body, replacing the backend by one that answers alike the queries whose
  metrics pass the allowlist, that filter on no tenancy label, and that are scoped as the caller may be,
  changes neither the response nor the next state. A caller's scopes are the own tenant with a non-empty
  list of partitions the caller may see; the whole tenant, which the backend reads in an empty list,
  only for a caller without partition claim or granted the empty partition id; and no scope at all only
  for a caller without tenant that holds the global capability.
\<close>

theorem analytics_backend_guarded:
  assumes "en_resolver s = hierarchical_api hs" and "parts_ok hs (eg_partitions e)"
    and "quote_ok (hp_lib hs)"
    and "agree_on (\<lambda>q f. scope_allowed (partition_granted hs) (ac_context c) (ac_caps c) f \<and>
           query_allowed (en_allowlist s) q) (en_backend s) b'"
  shows "serve_call env (s\<lparr>en_backend := b'\<rparr>) c e w = serve_call env s c e w"
  by (simp add: serve_call_def analytics_routes_def handlers_agree [OF assms])

text \<open>
  C6. Answers stay inside the caller's scope, cached ones included: after any run of requests by
  anybody on a new engine, what a successful response shows is a value that the backend gave for the
  question of this call (kind, metric query, parameters, and times of the same minutes) and for a scope
  of this caller: the caller's tenant and only partitions the caller may see, the whole tenant only for
  a caller without partition claim or granted the empty partition id, and no scope only for a caller
  without tenant that holds the global capability (the fingerprint of requests being injective).
\<close>

theorem analytics_answers_scoped:
  assumes "NewEngine L compile fp dur b (Some (hierarchical_api hs)) [] opts = Inr (s, e0)"
    and "inj fp" and "quote_ok (hp_lib hs)"
    and "run_calls env s calls e0 w0 = (e, w)"
    and "serve_call env s c e w = Some (resp, e', w')" and "as_status resp = 200"
  shows "\<exists>kind q tr x q' f tr' x' v. call_asks env s c kind q tr x \<and>
    same_question q' tr' x' q tr x \<and> given_for s kind q' f tr' x' v \<and> as_body resp = body_of v \<and>
    scope_allowed (partition_granted hs) (ac_context c) (ac_caps c) f"
proof -
  have api: "en_resolver s = hierarchical_api hs" and fp: "inj (en_fingerprint s)"
    using NewEngine_setup [OF assms(1)] assms(2) by auto
  have p0: "parts_ok hs (eg_partitions e0)" using NewEngine_setup(3) [OF assms(1)] by (simp add: parts_ok_def)
  note c0 = NewEngine_setup(4) [OF assms(1)]
  have inv: "parts_ok hs (eg_partitions e)" "cache_inv s e"
    using hierarchy.run_calls_parts [OF api fp p0 c0, of env calls w0] run_calls_cache [OF c0, of env calls w0] assms(4)
    by simp_all
  have "answers_question s (scope_allowed (\<lambda>rctx i. key_granted hs (partition_cache_key (hp_lib hs) rctx) i)
      (ac_context c) (ac_caps c)) (call_asks env s c) (as_body resp)"
    using hierarchy.serve_call_ok [OF api fp inv assms(5)] assms(6) by (simp add: answers_ok_def)
  then show ?thesis using scope_granted [OF assms(3)] unfolding answers_question_def by blast
qed

text \<open>
  Without a tenant the endpoints are closed: for a caller whose context has no tenant and who lacks
  the global capability, every route answers 400 or 403, and neither the state of the engine nor
  the backend is touched.
\<close>

theorem analytics_fail_closed:
  assumes "case ac_context c of None \<Rightarrow> True | Some rctx \<Rightarrow> TenantID rctx = []"
    and "\<not> Has (ac_caps c) GlobalViewCapability"
    and "serve_call env s c e w = Some (resp, e', w')"
  shows "as_status resp \<in> {400, 403} \<and> e' = e \<and> w' = w"
  using closed_call [OF assms] by (simp add: shut_def)

text \<open>
  C38. The response cache is bounded and never drops a live entry for a new one: after any history of
  stores it holds at most 4096 entries, and a store leaves every other entry that has not expired
  where it was.
\<close>

theorem query_cache_bounded:
  assumes "c = fold (\<lambda>(t1, t2, k, v). qc_put t1 t2 k v) es (newQueryCache ttl)"
  shows "length (qc_entries c) \<le> 4096 \<and>
    (t1 \<le> t \<longrightarrow> k' \<noteq> k \<longrightarrow> qc_get t k' c = Some v' \<longrightarrow> qc_get t k' (qc_put t1 t2 k v c) = Some v')"
proof -
  have "qc_ok (fold (\<lambda>(t1, t2, k, v). qc_put t1 t2 k v) es c0) \<and>
        qc_max (fold (\<lambda>(t1, t2, k, v). qc_put t1 t2 k v) es c0) = qc_max c0" if "qc_ok c0" for c0
    using that by (induction es arbitrary: c0) (auto simp: qc_ok_put)
  from this [OF qc_ok_new] assms have ok: "qc_ok c" and "qc_max c = 4096" by (auto simp: newQueryCache_def)
  then have "length (qc_entries c) \<le> 4096" by (simp add: qc_ok_def)
  with put_keeps_live [OF ok] show ?thesis by blast
qed

definition demo_context :: "string \<Rightarrow> string \<Rightarrow> request_context" where
  "demo_context ten part =
     \<lparr>SubjectID = ''u'', Email = [], TenantID = ten, PartitionID = part, Roles = [], Claims = None,
      SessionID = [], DeviceID = [], CorrelationID = [], TraceID = [], SpanID = [], Locale = [],
      Timezone = [], Token = []\<rparr>"

text \<open>A quoting without collisions and NUL bytes.\<close>

definition strict_char :: "char \<Rightarrow> string" where
  "strict_char c = (if c = CHR 0x00 then [CHR 0x5C, CHR ''0''] else if c = CHR 0x5C then [CHR 0x5C, CHR 0x5C] else [c])"

definition strict_lib :: golib where
  "strict_lib = demo_lib\<lparr>quote := (\<lambda>s. concat (List.map strict_char s))\<rparr>"

definition demo_parts :: "unit partition_setup" where
  "demo_parts = \<lparr>hp_lib = strict_lib, hp_lister = (\<lambda>t i w. (Inr [''a'', ''b''], w)),
     hp_caps = (\<lambda>rctx w. (Inr [(''analytics:*'', True)], w)), hp_ttl = 60 * second, hp_max = 100\<rparr>"

definition demo_backend :: "float64 \<Rightarrow> unit metrics_backend" where
  "demo_backend v = \<lparr>be_scalar = (\<lambda>q f tr w. (Inr v, w)),
     be_series = (\<lambda>q f tr step w. (Inr None, w)), be_grouped = (\<lambda>q f tr g w. (Inr [], w)),
     be_topn = (\<lambda>q f tr g n w. (Inr [], w)), be_healthy = (\<lambda>w. (None, w))\<rparr>"

definition demo_setup ::
  "(cache_payload \<Rightarrow> string) \<Rightarrow> float64 \<Rightarrow> (partition_entry gomap, unit) engine_setup" where
  "demo_setup fp v = \<lparr>en_lib = strict_lib, en_backend = demo_backend v,
     en_resolver = hierarchical_api demo_parts, en_allowlist = [\<lambda>n. True], en_fingerprint = fp,
     en_duration = (\<lambda>d. ''1h'')\<rparr>"

definition demo_engine :: "partition_entry gomap engine" where
  "demo_engine = \<lparr>eg_partitions = [], eg_cache = Some (newQueryCache (120 * second))\<rparr>"

definition at_time :: "int \<Rightarrow> readings" where
  "at_time t = \<lparr>at_lookup = t, at_make_room = t, at_store = t, at_get = t, at_evict = t, at_put = t\<rparr>"

lemmas analytics_demo_defs =
  demo_context_def demo_parts_def demo_backend_def demo_setup_def demo_engine_def at_time_def
  hierarchical_api_def ResolveAccessiblePartitions_def part_get_def cacheResult_def make_room_def
  overwrite_cached_def may_view_def Has_def match_wildcard_def child_context_def resolveFilter_def
  drop_empty_def compacted_def duration_defs

text \<open>
  The wildcard request rewrites the cached partition list: the filter compacts the resolver's own
  slice in place, so for a caller without partition claim the second wildcard request is
  answered for the last partition twice.
\<close>

theorem wildcard_rewrites_cache:
  "let (r1, e1, w1) = resolveFilter (demo_setup fp v) (at_time 0) (Some (demo_context ''acme'' [])) [] [''*'']
         demo_engine ();
       (r2, e2, w2) = resolveFilter (demo_setup fp v) (at_time 1) (Some (demo_context ''acme'' [])) [] [''*''] e1 w1
   in map_sum id tf_partition_ids r1 = Inr [''a'', ''b''] \<and>
      map_sum id tf_partition_ids r2 = Inr [''a'', ''b'', ''b'']"
  by (simp add: analytics_demo_defs Let_def)

definition demo_request_body :: "string \<Rightarrow> analytics_request" where
  "demo_request_body metric = \<lparr>ar_metric = metric, ar_aggregation = ''sum'', ar_filters = [], ar_group_by = [],
     ar_partition_ids = [], ar_numerator = None, ar_denominator = None, ar_limit = 0,
     ar_time_range = \<lparr>tq_start = [], tq_end = []\<rparr>, ar_step = []\<rparr>"

definition demo_call :: "string \<Rightarrow> api_call" where
  "demo_call route = \<lparr>ac_route = route, ac_readings = at_time 0, ac_now = 0,
     ac_context = Some (demo_context ''acme'' ''p''), ac_caps = [], ac_body = Some (demo_request_body ''loans_total'')\<rparr>"

definition demo_env :: api_env where
  "demo_env = \<lparr>ae_rfc3339 = (\<lambda>s. None), ae_time_error = (\<lambda>t. None)\<rparr>"

abbreviation scalar_route :: string where "scalar_route \<equiv> ''POST /api/analytics/query/scalar''"

lemma demo_scalar:
  "map_option fst (serve_call demo_env (demo_setup fp v) (demo_call scalar_route) demo_engine ()) =
   Some (writeJSON (\<lambda>t. None) (ApiScalar v))"
  by (simp add: serve_call_def analytics_routes_def handleScalar_def demo_call_def demo_request_body_def
      parseTimeRange_def demo_env_def ToMetricQuery_def Scalar_def serve_def prepare_def
      analytics_demo_defs lookupKey_def cacheGet_def qc_get_def newQueryCache_def respond_def Let_def)

text \<open>
  A value that JSON cannot write is an internal error: a query whose result is not a number (a ratio
  over an empty window) is answered 500 with the encoder's message, and the value is cached.
\<close>

theorem nan_is_internal_error:
  "map_option fst (serve_call demo_env (demo_setup fp NaN) (demo_call scalar_route) demo_engine ()) =
   Some \<lparr>as_status = 500, as_body = ApiText ''json: unsupported value: NaN''\<rparr>"
  by (simp add: demo_scalar writeJSON_def body_error_def)

subsection \<open>The hypotheses can hold\<close>

lemma strict_inj: "concat (List.map strict_char s) = concat (List.map strict_char t) \<Longrightarrow> s = t"
proof (induction s arbitrary: t)
  case Nil
  then show ?case by (cases t) (auto simp: strict_char_def split: if_splits)
next
  case (Cons c s)
  then show ?case by (cases t) (auto simp: strict_char_def split: if_splits)
qed

lemma strict_quote_ok: "quote_ok strict_lib"
proof -
  have q: "quote strict_lib = (\<lambda>s. concat (List.map strict_char s))" by (simp add: strict_lib_def)
  have "CHR 0x00 \<notin> set (strict_char c)" for c by (simp add: strict_char_def)
  then have "CHR 0x00 \<notin> set (concat (List.map strict_char s))" for s by (induction s) simp_all
  then show ?thesis unfolding quote_ok_def q by (blast intro: injI strict_inj)
qed

instance metric_query :: countable
  by countable_datatype

definition demo_fingerprint :: "cache_payload \<Rightarrow> string" where
  "demo_fingerprint p = dec_nat (to_nat (cp_kind p, cp_tenant p, cp_partitions p, cp_scoped p, cp_query p,
     cp_start p, cp_end p, cp_extra p))"

lemma demo_fingerprint_inj: "inj demo_fingerprint"
proof (rule injI)
  fix p q :: cache_payload
  assume "demo_fingerprint p = demo_fingerprint q"
  then have "to_nat (cp_kind p, cp_tenant p, cp_partitions p, cp_scoped p, cp_query p, cp_start p, cp_end p, cp_extra p) =
    to_nat (cp_kind q, cp_tenant q, cp_partitions q, cp_scoped q, cp_query q, cp_start q, cp_end q, cp_extra q)"
    by (simp only: demo_fingerprint_def dec_nat_inject)
  then have "(cp_kind p, cp_tenant p, cp_partitions p, cp_scoped p, cp_query p, cp_start p, cp_end p, cp_extra p) =
    (cp_kind q, cp_tenant q, cp_partitions q, cp_scoped q, cp_query q, cp_start q, cp_end q, cp_extra q)"
    by (rule injD [OF inj_to_nat])
  then show "p = q" by (cases p; cases q) simp
qed

lemma demo_parts_lib [simp]: "hp_lib demo_parts = strict_lib"
  by (simp add: demo_parts_def)

theorem analytics_backend_guarded_witness:
  "serve_call demo_env ((demo_setup demo_fingerprint (Finite 7))\<lparr>en_backend := (demo_backend (Finite 7))\<lparr>be_scalar :=
       (\<lambda>q f tr w. (Inr (if tf_tenant_id f = ''acme'' then Finite 7 else NaN), w))\<rparr>\<rparr>)
     (demo_call scalar_route) demo_engine () =
   serve_call demo_env (demo_setup demo_fingerprint (Finite 7)) (demo_call scalar_route) demo_engine ()"
proof (rule analytics_backend_guarded)
  show "en_resolver (demo_setup demo_fingerprint (Finite 7)) = hierarchical_api demo_parts" by (simp add: demo_setup_def)
  show "parts_ok demo_parts (eg_partitions demo_engine)" by (simp add: parts_ok_def demo_engine_def)
  show "quote_ok (hp_lib demo_parts)" by (simp add: strict_quote_ok)
  show "agree_on (\<lambda>q f. scope_allowed (partition_granted demo_parts) (ac_context (demo_call scalar_route))
      (ac_caps (demo_call scalar_route)) f \<and> query_allowed (en_allowlist (demo_setup demo_fingerprint (Finite 7))) q)
     (en_backend (demo_setup demo_fingerprint (Finite 7)))
     ((demo_backend (Finite 7))\<lparr>be_scalar :=
       (\<lambda>q f tr w. (Inr (if tf_tenant_id f = ''acme'' then Finite 7 else NaN), w))\<rparr>)"
    by (auto simp: agree_on_def demo_call_def demo_setup_def demo_backend_def demo_context_def
        scope_allowed_def Has_def split: if_splits)
qed

theorem analytics_answers_scoped_witness:
  "\<exists>resp. map_option fst (serve_call demo_env (demo_setup demo_fingerprint (Finite 7))
       (demo_call scalar_route) demo_engine ()) = Some resp \<and> as_status resp = 200 \<and>
     (\<exists>kind q tr x q' f tr' x' v. call_asks demo_env (demo_setup demo_fingerprint (Finite 7)) (demo_call scalar_route)
          kind q tr x \<and> same_question q' tr' x' q tr x \<and>
        given_for (demo_setup demo_fingerprint (Finite 7)) kind q' f tr' x' v \<and> as_body resp = body_of v \<and>
        scope_allowed (partition_granted demo_parts) (ac_context (demo_call scalar_route))
          (ac_caps (demo_call scalar_route)) f)"
proof -
  let ?s = "demo_setup demo_fingerprint (Finite 7)"
  have resp: "map_option fst (serve_call demo_env ?s (demo_call scalar_route) demo_engine ()) =
      Some \<lparr>as_status = 200, as_body = ApiScalar (Finite 7)\<rparr>"
    by (simp add: demo_scalar writeJSON_def body_error_def)
  then obtain e' w' where call: "serve_call demo_env ?s (demo_call scalar_route) demo_engine () =
      Some (\<lparr>as_status = 200, as_body = ApiScalar (Finite 7)\<rparr>, e', w')" by auto
  have "NewEngine strict_lib (\<lambda>p. Inr (\<lambda>n. True)) demo_fingerprint (\<lambda>d. ''1h'') (demo_backend (Finite 7))
      (Some (hierarchical_api demo_parts)) [] [WithAllowedMetrics [''x'']] = Inr (?s, demo_engine)"
    by (simp add: NewEngine_def WithAllowedMetrics_def newMetricAllowlist_def demo_setup_def demo_engine_def
        duration_defs)
  from analytics_answers_scoped [OF this demo_fingerprint_inj _ _ call, of "[]" "()"]
  have "\<exists>kind q tr x q' f tr' x' v. call_asks demo_env ?s (demo_call scalar_route) kind q tr x \<and>
      same_question q' tr' x' q tr x \<and> given_for ?s kind q' f tr' x' v \<and> ApiScalar (Finite 7) = body_of v \<and>
      scope_allowed (partition_granted demo_parts) (ac_context (demo_call scalar_route))
        (ac_caps (demo_call scalar_route)) f" by (simp add: strict_quote_ok)
  with resp show ?thesis by (intro exI [of _ "\<lparr>as_status = 200, as_body = ApiScalar (Finite 7)\<rparr>"]) simp
qed

theorem analytics_fail_closed_witness:
  "\<exists>resp e' w'. serve_call demo_env (demo_setup demo_fingerprint (Finite 7))
       ((demo_call scalar_route)\<lparr>ac_context := None\<rparr>) demo_engine () = Some (resp, e', w') \<and>
     as_status resp \<in> {400, 403} \<and> e' = demo_engine \<and> w' = ()"
proof -
  let ?c = "(demo_call scalar_route)\<lparr>ac_context := None\<rparr>"
  obtain resp e' w' where call: "serve_call demo_env (demo_setup demo_fingerprint (Finite 7)) ?c demo_engine () = Some (resp, e', w')"
    by (cases "handleScalar demo_env (demo_setup demo_fingerprint (Finite 7)) (ac_readings ?c) (ac_now ?c) (ac_context ?c)
          (ac_caps ?c) (ac_body ?c) demo_engine ()")
      (auto simp: serve_call_def analytics_routes_def demo_call_def)
  from analytics_fail_closed [OF _ _ this] show ?thesis
    using call by (simp add: demo_call_def Has_def)
qed

theorem query_cache_bounded_witness:
  "length (qc_entries (fold (\<lambda>(t1, t2, k, v). qc_put t1 t2 k v) [(0, 0, ''k'', CScalar NaN)] (newQueryCache 5))) \<le> 4096 \<and>
   qc_get 1 ''k'' (qc_put 1 1 ''l'' (CScalar NaN)
     (fold (\<lambda>(t1, t2, k, v). qc_put t1 t2 k v) [(0, 0, ''k'', CScalar NaN)] (newQueryCache 5))) = Some (CScalar NaN)"
proof -
  let ?c = "fold (\<lambda>(t1, t2, k, v). qc_put t1 t2 k v) [(0, 0, ''k'', CScalar NaN)] (newQueryCache 5)"
  have "qc_get 1 ''k'' ?c = Some (CScalar NaN)"
    by (simp add: qc_put_def qc_get_def newQueryCache_def)
  with query_cache_bounded [of ?c "[(0, 0, ''k'', CScalar NaN)]" 5 1 1 "''k''" "''l''" "CScalar NaN" 1 "CScalar NaN"]
  show ?thesis by simp
qed

end
