(* ===== verification/AnalyticsSteps.thy ===== *)
theory AnalyticsSteps imports AnalyticsGuard CacheSteps begin

section \<open>Concurrent analytics requests\<close>

text \<open>
  The partition resolver and the response cache take their locks for the lookup and for the store only,
  so concurrent requests interleave as the steps of CacheSteps. The first part runs
  \<open>ResolveAccessiblePartitions\<close> alone, the second the four query methods after \<open>prepare\<close>, whose outcome
  for each request is the argument \<open>pre\<close>.
\<close>

subsection \<open>The partition resolver\<close>

definition partition_needs :: "'w partition_setup \<Rightarrow> (nat \<Rightarrow> request_context) \<Rightarrow> nat \<Rightarrow> go_error + string" where
  "partition_needs hs rq i = Inr (partition_cache_key (hp_lib hs) (rq i))"

text \<open>What the code computes on a miss, in some world.\<close>

definition partition_computes ::
  "'w partition_setup \<Rightarrow> (nat \<Rightarrow> request_context) \<Rightarrow> nat \<Rightarrow> go_error + string list \<Rightarrow> bool" where
  "partition_computes hs rq i r \<longleftrightarrow> (\<exists>t w. fst (ResolveAccessiblePartitions hs t t t (rq i) [] w) = r)"

definition partitions_reach ::
  "'w partition_setup \<Rightarrow> (nat \<Rightarrow> request_context) \<Rightarrow>
   (partition_entry gomap, go_error, string list) csys \<Rightarrow> bool" where
  "partitions_reach hs rq =
     cache_reach part_get (\<lambda>i. cacheResult (hp_max hs) (hp_ttl hs)) (partition_needs hs rq)
       (partition_computes hs rq) (\<lambda>c c'. False) []"

interpretation partitions_shared:
  shared_cache part_get "\<lambda>i. cacheResult (hp_max hs) (hp_ttl hs)" "[]" gmap_ok "\<lambda>c c'. False"
  for hs :: "'w partition_setup"
  by (rule shared_cache.intro) (rule pcache.ttl_cache_axioms, simp_all)

text \<open>
  Concurrent resolutions keep callers apart: in every interleaving, the partitions that a request is
  answered with are its own partition and partitions in which a caller with the same subject, tenant and
  partition holds an analytics capability.
\<close>

theorem concurrent_partitions_granted:
  assumes "partitions_reach hs rq s" and "cs_pc s i = Answered (Inr ids)" and "quote_ok (hp_lib hs)"
    and "p \<in> set ids"
  shows "p = PartitionID (rq i) \<or> partition_granted hs (rq i) p"
proof -
  let ?key = "\<lambda>i. partition_cache_key (hp_lib hs) (rq i)"
  obtain j where "?key j = ?key i" "partition_computes hs rq j (Inr ids)"
    using partitions_shared.answer_computed [OF assms(1) [unfolded partitions_reach_def] assms(2)]
    by (auto simp: partition_needs_def)
  then obtain t w where "fst (ResolveAccessiblePartitions hs t t t (rq j) [] w) = Inr ids" "?key j = ?key i"
    by (auto simp: partition_computes_def)
  moreover have "parts_ok hs []" by (simp add: parts_ok_def)
  ultimately have "key_granted hs (?key i) p"
    using parts_ok_resolve assms(4) by (metis prod.exhaust_sel)
  then show ?thesis by (rule key_granted_iff [OF assms(3)])
qed

theorem concurrent_partitions_granted_witness:
  "''b'' = PartitionID (demo_context ''acme'' ''root'') \<or>
   partition_granted demo_parts (demo_context ''acme'' ''root'') ''b''"
proof -
  let ?rq = "\<lambda>i :: nat. demo_context ''acme'' ''root''"
  have "\<exists>s. partitions_reach demo_parts ?rq s \<and> cs_pc s 0 = Answered (Inr [''root'', ''a'', ''b''])"
    unfolding partitions_reach_def
    by (rule partitions_shared.answers_first)
      (simp_all add: partition_needs_def partition_computes_def analytics_demo_defs Let_def)
  then obtain s where "partitions_reach demo_parts ?rq s" "cs_pc s 0 = Answered (Inr [''root'', ''a'', ''b''])"
    by blast
  from concurrent_partitions_granted [OF this, of "''b''"] show ?thesis by (simp add: strict_quote_ok)
qed

text \<open>The resolver's call is a run of its request's steps, as for lookups.\<close>

lemma partition_call_does:
  assumes "ResolveAccessiblePartitions hs t0 t1 t2 (rq i) c w = (res, c', w')"
  shows "call_does part_get (\<lambda>i. cacheResult (hp_max hs) (hp_ttl hs)) (partition_needs hs rq)
    (partition_computes hs rq) i t0 t1 t2 c res c'"
proof (cases "part_get t0 (partition_cache_key (hp_lib hs) (rq i)) c")
  case (Some ids)
  with assms show ?thesis by (auto simp: ResolveAccessiblePartitions_def call_does_def partition_needs_def Let_def)
next
  case None
  obtain ids w2 where vis: "res = Inr ids" "c' = cacheResult (hp_max hs) (hp_ttl hs) t1 t2
      (partition_cache_key (hp_lib hs) (rq i)) ids c"
    "fst (ResolveAccessiblePartitions hs 0 0 0 (rq i) [] w) = Inr ids"
    using assms None unfolding ResolveAccessiblePartitions_def Let_def
    by (auto simp: part_get_def split: prod.splits sum.splits)
  then have "partition_computes hs rq i res" by (auto simp: partition_computes_def)
  with None vis show ?thesis by (simp add: call_does_def partition_needs_def)
qed

lemma partition_call_is_run:
  assumes "cs_pc s i = Looking" and "cs_clock s \<le> t0" and "t0 \<le> t1" and "t1 \<le> t2"
    and "ResolveAccessiblePartitions hs t0 t1 t2 (rq i) (cs_cache s) w = (res, c', w')"
  shows "\<exists>s'. (cache_step part_get (\<lambda>i. cacheResult (hp_max hs) (hp_ttl hs)) (partition_needs hs rq)
    (partition_computes hs rq) (\<lambda>c c'. False))\<^sup>*\<^sup>* s s' \<and> answered_by s i t2 res c' s'"
  by (rule cache_call_runs [where s = s and i = i, OF assms(1-4) partition_call_does [where rq = rq and i = i, OF assms(5)]])

subsection \<open>The response cache\<close>

record metrics_request =
  mq_kind :: string
  mq_range :: time_range
  mq_extra :: "string gomap"

definition metrics_needs ::
  "('p, 'w) engine_setup \<Rightarrow> (nat \<Rightarrow> metrics_request) \<Rightarrow> (nat \<Rightarrow> go_error + metric_query \<times> tenant_filter) \<Rightarrow>
   nat \<Rightarrow> go_error + string" where
  "metrics_needs s rq pre i =
     (case pre i of
        Inl err \<Rightarrow> Inl err
      | Inr (q, f) \<Rightarrow> Inr (query_cache_key (en_fingerprint s) (mq_kind (rq i)) q f (mq_range (rq i)) (mq_extra (rq i))))"

text \<open>A value of the backend for the request's query and scope, or any error.\<close>

definition metrics_computes ::
  "('p, 'w) engine_setup \<Rightarrow> (nat \<Rightarrow> metrics_request) \<Rightarrow> (nat \<Rightarrow> go_error + metric_query \<times> tenant_filter) \<Rightarrow>
   nat \<Rightarrow> go_error + cached_value \<Rightarrow> bool" where
  "metrics_computes s rq pre i r \<longleftrightarrow>
     (\<exists>q f. pre i = Inr (q, f) \<and>
        (case r of Inl err \<Rightarrow> True
         | Inr v \<Rightarrow> given_for s (mq_kind (rq i)) q f (mq_range (rq i)) (mq_extra (rq i)) v))"

definition metrics_reach ::
  "('p, 'w) engine_setup \<Rightarrow> int \<Rightarrow> (nat \<Rightarrow> metrics_request) \<Rightarrow>
   (nat \<Rightarrow> go_error + metric_query \<times> tenant_filter) \<Rightarrow> (query_cache, go_error, cached_value) csys \<Rightarrow> bool" where
  "metrics_reach s ttl rq pre =
     cache_reach qc_get (\<lambda>i. qc_put) (metrics_needs s rq pre) (metrics_computes s rq pre) (\<lambda>c c'. False)
       (newQueryCache ttl)"

interpretation metrics_shared: shared_cache qc_get "\<lambda>i. qc_put" "newQueryCache ttl" qc_ok "\<lambda>c c'. False"
  for ttl :: int
  by (rule shared_cache.intro) (rule qcache.ttl_cache_axioms, simp_all)

text \<open>
  C23. Concurrent queries keep scopes and questions apart: in every interleaving of requests on the
  response cache, what a request is answered, whoever caused it to be stored, is a value that the
  backend gave for this request's question and for a scope of its caller: own tenant and visible
  partitions, the whole tenant only without partition claim or with the empty partition id granted, no
  scope only for a caller without tenant that holds the global capability (the fingerprint being
  injective, and \<open>pre i\<close> being what \<open>prepare\<close> gives for this caller and query).
\<close>

theorem concurrent_metrics_scoped:
  assumes "metrics_reach s ttl rq pre st" and "cs_pc st i = Answered (Inr v)" and "inj (en_fingerprint s)"
    and "en_resolver s = hierarchical_api hs" and "quote_ok (hp_lib hs)" and "parts_ok hs (eg_partitions e)"
    and "fst (prepare s t octx caps q pids e w) = pre i"
  shows "\<exists>q' f tr' x'. given_for s (mq_kind (rq i)) q' f tr' x' v \<and>
    same_question q' tr' x' (sanitizeQueryFilters q) (mq_range (rq i)) (mq_extra (rq i)) \<and>
    scope_allowed (partition_granted hs) octx caps f"
proof -
  obtain j k where k: "metrics_needs s rq pre i = Inr k" "metrics_needs s rq pre j = Inr k"
    "metrics_computes s rq pre j (Inr v)"
    using metrics_shared.answer_computed [OF assms(1) [unfolded metrics_reach_def] assms(2)] by blast
  then obtain q1 f1 q2 f2 where p: "pre i = Inr (q1, f1)" "pre j = Inr (q2, f2)"
    by (auto simp: metrics_needs_def split: sum.splits)
  let ?key = "\<lambda>i q f. query_cache_key (en_fingerprint s) (mq_kind (rq i)) q f (mq_range (rq i)) (mq_extra (rq i))"
  have "?key j q2 f2 = ?key i q1 f1" and
    g: "given_for s (mq_kind (rq j)) q2 f2 (mq_range (rq j)) (mq_extra (rq j)) v"
    using k p by (simp_all add: metrics_needs_def metrics_computes_def)
  from same_payload_scope [OF assms(3) this(1)] have same: "mq_kind (rq i) = mq_kind (rq j)" "same_scope f1 f2"
    "same_question q1 (mq_range (rq i)) (mq_extra (rq i)) q2 (mq_range (rq j)) (mq_extra (rq j))" by auto
  have "q1 = sanitizeQueryFilters q" using assms(7) p(1) prepare_query by metis
  then have "same_question q2 (mq_range (rq j)) (mq_extra (rq j)) (sanitizeQueryFilters q)
      (mq_range (rq i)) (mq_extra (rq i))" using same(3) by (simp add: same_question_def)
  moreover obtain e' w' where "prepare s t octx caps q pids e w = (Inr (q1, f1), e', w')"
    using assms(7) p(1) by (metis prod.exhaust_sel)
  with hierarchy.prepare_scope [OF assms(4,6)] have
    "scope_allowed (\<lambda>rctx i. key_granted hs (partition_cache_key (hp_lib hs) rctx) i) octx caps f1" by blast
  then have "scope_allowed (partition_granted hs) octx caps f1" by (rule scope_granted [OF assms(5)])
  ultimately show ?thesis using same(1,2) g same_scope_allowed by metis
qed

theorem concurrent_metrics_scoped_witness:
  "\<exists>q' f tr' x'. given_for (demo_setup demo_fingerprint (Finite 7)) ''scalar'' q' f tr' x' (CScalar (Finite 7)) \<and>
     same_question q' tr' x' (sanitizeQueryFilters (MetricQuery ''x'' ''sum'' [] [] None None [] [] 1))
       \<lparr>tr_start = 0, tr_end = 0, tr_granularity = []\<rparr> [] \<and>
     scope_allowed (partition_granted demo_parts) (Some (demo_context ''acme'' ''root'')) [] f"
proof -
  let ?s = "demo_setup demo_fingerprint (Finite 7)"
  let ?q = "MetricQuery ''x'' ''sum'' [] [] None None [] [] 1"
  let ?pre = "\<lambda>i :: nat. fst (prepare ?s (at_time 0) (Some (demo_context ''acme'' ''root'')) [] ?q [] demo_engine ())"
  let ?rq = "\<lambda>i :: nat. \<lparr>mq_kind = ''scalar'', mq_range = \<lparr>tr_start = 0, tr_end = 0, tr_granularity = []\<rparr>, mq_extra = []\<rparr>"
  have pre: "\<exists>q f. ?pre 0 = Inr (q, f)"
    by (simp add: prepare_def analytics_demo_defs Let_def)
  then obtain q f where qf: "?pre 0 = Inr (q, f)" by blast
  have "given_for ?s ''scalar'' q f \<lparr>tr_start = 0, tr_end = 0, tr_granularity = []\<rparr> [] (CScalar (Finite 7))"
    by (simp add: given_for_def demo_setup_def demo_backend_def)
  then have "metrics_computes ?s ?rq ?pre 0 (Inr (CScalar (Finite 7)))"
    using qf by (simp add: metrics_computes_def)
  moreover have "\<exists>k. metrics_needs ?s ?rq ?pre 0 = Inr k" using qf by (simp add: metrics_needs_def)
  ultimately obtain st where "metrics_reach ?s 5 ?rq ?pre st" "cs_pc st 0 = Answered (Inr (CScalar (Finite 7)))"
    using metrics_shared.answers_first unfolding metrics_reach_def by blast
  from concurrent_metrics_scoped [OF this _ _ _ _ refl, of demo_parts] show ?thesis
    by (simp add: strict_quote_ok demo_fingerprint_inj demo_setup_def demo_engine_def parts_ok_def)
qed

end
