(* ===== verification/SearchSteps.thy ===== *)
theory SearchSteps imports Search begin

section \<open>The concurrent providers of a search\<close>

text \<open>
  \<open>executeProviders\<close> starts one goroutine per definition, each of which sends its result on a channel
  with room for all of them and then counts down a wait group; a further goroutine closes the channel
  when the count is zero, and the caller collects until the channel is closed and empty. The steps of
  all of them interleave. A send on a closed channel and a negative count are panics. \<open>n\<close> is the number
  of definitions, \<open>answer\<close> the outcome of each provider.
\<close>

datatype worker = Unborn | Running | Sent | Gone

datatype closer = Absent | Waiting | Closed

datatype collector = Spawning nat | Draining | Finished

record fanout =
  fo_main :: collector
  fo_closer :: closer
  fo_worker :: "nat \<Rightarrow> worker"
  fo_group :: int
  fo_channel :: "provider_result list"
  fo_closed :: bool
  fo_results :: "provider_result list"
  fo_panic :: bool

definition fan_init :: fanout where
  "fan_init = \<lparr>fo_main = Spawning 0, fo_closer = Absent, fo_worker = (\<lambda>i. Unborn), fo_group = 0,
     fo_channel = [], fo_closed = False, fo_results = [], fo_panic = False\<rparr>"

inductive fan_step :: "nat \<Rightarrow> (nat \<Rightarrow> provider_result) \<Rightarrow> fanout \<Rightarrow> fanout \<Rightarrow> bool" for n answer where
  spawn: "\<not> fo_panic s \<Longrightarrow> fo_main s = Spawning k \<Longrightarrow> k < n \<Longrightarrow>
    fan_step n answer s (s\<lparr>fo_main := Spawning (Suc k), fo_worker := (fo_worker s)(k := Running),
      fo_group := fo_group s + 1\<rparr>)"
| launch: "\<not> fo_panic s \<Longrightarrow> fo_main s = Spawning n \<Longrightarrow>
    fan_step n answer s (s\<lparr>fo_main := Draining, fo_closer := Waiting\<rparr>)"
| send: "\<not> fo_panic s \<Longrightarrow> fo_worker s i = Running \<Longrightarrow> \<not> fo_closed s \<Longrightarrow> length (fo_channel s) < n \<Longrightarrow>
    fan_step n answer s (s\<lparr>fo_worker := (fo_worker s)(i := Sent), fo_channel := fo_channel s @ [answer i]\<rparr>)"
| send_closed: "\<not> fo_panic s \<Longrightarrow> fo_worker s i = Running \<Longrightarrow> fo_closed s \<Longrightarrow>
    fan_step n answer s (s\<lparr>fo_panic := True\<rparr>)"
| count: "\<not> fo_panic s \<Longrightarrow> fo_worker s i = Sent \<Longrightarrow>
    fan_step n answer s (s\<lparr>fo_worker := (fo_worker s)(i := Gone), fo_group := fo_group s - 1,
      fo_panic := fo_group s - 1 < 0\<rparr>)"
| close: "\<not> fo_panic s \<Longrightarrow> fo_closer s = Waiting \<Longrightarrow> fo_group s = 0 \<Longrightarrow>
    fan_step n answer s (s\<lparr>fo_closer := Closed, fo_closed := True\<rparr>)"
| receive: "\<not> fo_panic s \<Longrightarrow> fo_main s = Draining \<Longrightarrow> fo_channel s = r # rs \<Longrightarrow>
    fan_step n answer s (s\<lparr>fo_channel := rs, fo_results := fo_results s @ [r]\<rparr>)"
| stop: "\<not> fo_panic s \<Longrightarrow> fo_main s = Draining \<Longrightarrow> fo_channel s = [] \<Longrightarrow> fo_closed s \<Longrightarrow>
    fan_step n answer s (s\<lparr>fo_main := Finished\<rparr>)"

inductive_cases fan_stepE: "fan_step n answer s s'"

text \<open>The lists the call can return.\<close>

definition executeProviders ::
  "search_provider \<Rightarrow> request_context option \<Rightarrow> search_definition list \<Rightarrow> string \<Rightarrow> provider_result list set" where
  "executeProviders sp rctx defs query =
     (if length defs = 0 then {[]}
      else {fo_results s | s. fo_main s = Finished \<and>
              (fan_step (length defs) (\<lambda>i. executeProvider sp rctx query (defs ! i)))\<^sup>*\<^sup>* fan_init s})"

subsection \<open>The invariant\<close>

definition spawned :: "nat \<Rightarrow> collector \<Rightarrow> nat" where
  "spawned n m = (case m of Spawning k \<Rightarrow> k | _ \<Rightarrow> n)"

definition counted :: "worker \<Rightarrow> int" where
  "counted w = (if w = Running \<or> w = Sent then 1 else 0)"

definition sent :: "(nat \<Rightarrow> provider_result) \<Rightarrow> nat \<Rightarrow> worker \<Rightarrow> provider_result multiset" where
  "sent answer i w = (if w = Sent \<or> w = Gone then {#answer i#} else {#})"

definition fan_inv :: "nat \<Rightarrow> (nat \<Rightarrow> provider_result) \<Rightarrow> fanout \<Rightarrow> bool" where
  "fan_inv n answer s \<longleftrightarrow>
     spawned n (fo_main s) \<le> n \<and> (\<forall>i. fo_worker s i = Unborn \<longleftrightarrow> spawned n (fo_main s) \<le> i) \<and>
     fo_group s = (\<Sum>i<n. counted (fo_worker s i)) \<and>
     mset (fo_results s) + mset (fo_channel s) = (\<Sum>i<n. sent answer i (fo_worker s i)) \<and>
     (fo_closer s = Absent \<longleftrightarrow> (\<exists>k. fo_main s = Spawning k)) \<and> (fo_closed s \<longleftrightarrow> fo_closer s = Closed) \<and>
     (fo_closed s \<longrightarrow> (\<forall>i<n. fo_worker s i = Gone)) \<and> \<not> fo_panic s \<and>
     (fo_main s = Finished \<longrightarrow> fo_closed s \<and> fo_channel s = [])"

lemma sum_upd:
  fixes f :: "nat \<Rightarrow> 'w \<Rightarrow> 'm :: comm_monoid_add"
  assumes "i < n"
  shows "(\<Sum>j<n. f j ((w(i := p)) j)) + f i (w i) = (\<Sum>j<n. f j (w j)) + f i p"
proof -
  have "(\<Sum>j<n. f j ((w(i := p)) j)) = f i p + (\<Sum>j\<in>{..<n} - {i}. f j (w j))"
    using assms by (subst sum.remove [of _ i]) (auto intro!: arg_cong2 [where f = "(+)"] sum.cong)
  moreover have "(\<Sum>j<n. f j (w j)) = f i (w i) + (\<Sum>j\<in>{..<n} - {i}. f j (w j))"
    using assms by (subst sum.remove [of _ i]) auto
  ultimately show ?thesis by (simp add: ac_simps)
qed

lemma sum_counted_zero: "(\<Sum>i<(n :: nat). counted (w i)) = 0 \<Longrightarrow> i < n \<Longrightarrow> w i \<noteq> Running \<and> w i \<noteq> Sent"
  by (subst (asm) sum_nonneg_eq_0_iff) (auto simp: counted_def split: if_splits)

lemma sum_counted_pos: "i < (n :: nat) \<Longrightarrow> w i = Running \<or> w i = Sent \<Longrightarrow> 0 < (\<Sum>i<n. counted (w i))"
  by (rule sum_pos2 [of _ i]) (auto simp: counted_def)

text \<open>A worker that runs has room in the channel.\<close>

lemma size_sent: "i < n \<Longrightarrow> w i = Running \<Longrightarrow> size (\<Sum>j<n. sent answer j (w j)) < n"
proof -
  assume i: "i < n" "w i = Running"
  have "size (\<Sum>j<n. sent answer j (w j)) = (\<Sum>j<n. size (sent answer j (w j)))"
    by (rule size_multiset_sum)
  also have "\<dots> = (\<Sum>j\<in>{..<n} - {i}. size (sent answer j (w j)))"
    using i by (subst sum.remove [of _ i]) (auto simp: sent_def)
  also have "\<dots> \<le> (\<Sum>j\<in>{..<n} - {i}. 1)" by (rule sum_mono) (simp add: sent_def)
  also have "\<dots> < n" using i by simp
  finally show ?thesis .
qed

lemma fan_inv_init: "fan_inv n answer fan_init"
  by (simp add: fan_inv_def fan_init_def spawned_def counted_def sent_def)

lemma unborn_iff: "fan_inv n answer s \<Longrightarrow> fo_worker s i = Unborn \<longleftrightarrow> spawned n (fo_main s) \<le> i"
  by (simp add: fan_inv_def)

lemma born:
  "fan_inv n answer s \<Longrightarrow> fo_worker s i \<noteq> Unborn \<Longrightarrow> i < n"
  unfolding fan_inv_def by (meson leI le_trans)

text \<open>What is left to show when one worker moves.\<close>

lemma fan_inv_move:
  assumes inv: "fan_inv n answer s" and i: "i < n" and unclosed: "\<not> fo_closed s"
    and fin: "spawned n m \<le> n" "m \<noteq> Finished" "(\<exists>k. m = Spawning k) = (\<exists>k. fo_main s = Spawning k)"
    and unborn: "\<And>j. ((fo_worker s)(i := p)) j = Unborn \<longleftrightarrow> spawned n m \<le> j"
    and group: "g + counted (fo_worker s i) = fo_group s + counted p"
    and chan: "mset c + sent answer i (fo_worker s i) = mset (fo_channel s) + sent answer i p"
  shows "fan_inv n answer (s\<lparr>fo_main := m, fo_worker := (fo_worker s)(i := p), fo_group := g, fo_channel := c\<rparr>)"
proof -
  have "(\<Sum>j<n. counted (((fo_worker s)(i := p)) j)) + counted (fo_worker s i) =
      (\<Sum>j<n. counted (fo_worker s j)) + counted p"
    using sum_upd [of i n "\<lambda>j. counted" "fo_worker s" p] i by simp
  with group inv have g: "g = (\<Sum>j<n. counted (((fo_worker s)(i := p)) j))" by (simp add: fan_inv_def)
  have "mset (fo_results s) + mset c + sent answer i (fo_worker s i) =
      (\<Sum>j<n. sent answer j (((fo_worker s)(i := p)) j)) + sent answer i (fo_worker s i)"
    using sum_upd [of i n "sent answer" "fo_worker s" p] i chan inv by (simp add: fan_inv_def add.assoc)
  then have "mset (fo_results s) + mset c = (\<Sum>j<n. sent answer j (((fo_worker s)(i := p)) j))" by simp
  with g inv fin unclosed unborn show ?thesis by (simp add: fan_inv_def del: fun_upd_apply)
qed

lemma fan_inv_step:
  assumes "fan_step n answer s s'" and "fan_inv n answer s"
  shows "fan_inv n answer s'"
  using assms
proof (induction rule: fan_step.induct)
  case (spawn s k)
  then have k: "fo_worker s k = Unborn" "\<not> fo_closed s" by (auto simp: fan_inv_def spawned_def)
  have "fo_worker s j = Unborn \<longleftrightarrow> k \<le> j" for j using unborn_iff [OF spawn(4)] spawn(2) by (simp add: spawned_def)
  then have moved: "((fo_worker s)(k := Running)) j = Unborn \<longleftrightarrow> spawned n (Spawning (Suc k)) \<le> j" for j
    by (simp add: spawned_def) (metis Suc_le_eq le_less not_less_eq_eq worker.distinct(1))
  have "fan_inv n answer (s\<lparr>fo_main := Spawning (Suc k), fo_worker := (fo_worker s)(k := Running),
      fo_group := fo_group s + 1, fo_channel := fo_channel s\<rparr>)"
    by (rule fan_inv_move [OF spawn(4,3) k(2) _ _ _ moved])
      (use spawn(2,3) k(1) in \<open>simp_all add: spawned_def counted_def sent_def\<close>)
  then show ?case by simp
next
  case (launch s)
  then show ?case by (auto simp: fan_inv_def spawned_def)
next
  case (send s i)
  then have i: "i < n" using born by auto
  have moved: "((fo_worker s)(i := Sent)) j = Unborn \<longleftrightarrow> spawned n (fo_main s) \<le> j" for j
    using unborn_iff [OF send(5)] send(2) by (metis fun_upd_apply worker.distinct(1,3))
  have "fan_inv n answer (s\<lparr>fo_main := fo_main s, fo_worker := (fo_worker s)(i := Sent),
      fo_group := fo_group s, fo_channel := fo_channel s @ [answer i]\<rparr>)"
    by (rule fan_inv_move [OF send(5) i send(3) _ _ _ moved])
      (use send(2,3,5) in \<open>auto simp: fan_inv_def counted_def sent_def\<close>)
  then show ?case by simp
next
  case (send_closed s i)
  then have "i < n" using born by auto
  with send_closed show ?case by (auto simp: fan_inv_def)
next
  case (count s i)
  then have i: "i < n" using born by auto
  then have "\<not> fo_closed s" using count(2,3) by (auto simp: fan_inv_def)
  note unclosed = this
  have pos: "0 < fo_group s" using count(2,3) sum_counted_pos [OF i, of "fo_worker s"] by (simp add: fan_inv_def)
  have moved: "((fo_worker s)(i := Gone)) j = Unborn \<longleftrightarrow> spawned n (fo_main s) \<le> j" for j
    using unborn_iff [OF count(3)] count(2) by (metis fun_upd_apply worker.distinct(3,5))
  have "fan_inv n answer (s\<lparr>fo_main := fo_main s, fo_worker := (fo_worker s)(i := Gone),
      fo_group := fo_group s - 1, fo_channel := fo_channel s\<rparr>)"
    by (rule fan_inv_move [OF count(3) i unclosed _ _ _ moved])
      (use count(2,3) unclosed in \<open>auto simp: fan_inv_def counted_def sent_def\<close>)
  moreover have "s\<lparr>fo_worker := (fo_worker s)(i := Gone), fo_group := fo_group s - 1, fo_panic := fo_group s - 1 < 0\<rparr> =
      s\<lparr>fo_main := fo_main s, fo_worker := (fo_worker s)(i := Gone), fo_group := fo_group s - 1,
        fo_channel := fo_channel s\<rparr>"
    using pos count(1) by (cases s) simp
  ultimately show ?case by simp
next
  case (close s)
  then have "fo_worker s i = Gone" if "i < n" for i
    using sum_counted_zero [of "fo_worker s" n i] that worker.exhaust [of "fo_worker s i"]
    by (auto simp: fan_inv_def spawned_def split: collector.splits)
  with close show ?case by (auto simp: fan_inv_def)
next
  case (receive s r rs)
  then show ?case by (auto simp: fan_inv_def spawned_def)
next
  case (stop s)
  then show ?case by (auto simp: fan_inv_def spawned_def)
qed

lemma fan_inv_run: "(fan_step n answer)\<^sup>*\<^sup>* fan_init s \<Longrightarrow> fan_inv n answer s"
  by (induction rule: rtranclp_induct) (auto intro: fan_inv_init fan_inv_step)

subsection \<open>Termination\<close>

fun worker_rank :: "worker \<Rightarrow> nat" where
  "worker_rank Unborn = 4" | "worker_rank Running = 3" | "worker_rank Sent = 1" | "worker_rank Gone = 0"

fun closer_rank :: "closer \<Rightarrow> nat" where
  "closer_rank Absent = 2" | "closer_rank Waiting = 1" | "closer_rank Closed = 0"

fun collector_rank :: "collector \<Rightarrow> nat" where
  "collector_rank (Spawning k) = 2" | "collector_rank Draining = 1" | "collector_rank Finished = 0"

definition fan_measure :: "nat \<Rightarrow> fanout \<Rightarrow> nat" where
  "fan_measure n s = (\<Sum>i<n. worker_rank (fo_worker s i)) + closer_rank (fo_closer s) +
     collector_rank (fo_main s) + length (fo_channel s)"

lemma fan_measure_step:
  assumes "fan_step n answer s s'" and "fan_inv n answer s"
  shows "fan_measure n s' < fan_measure n s"
  using assms
proof (induction rule: fan_step.induct)
  case (spawn s k)
  then show ?case
    using sum_upd [of k n "\<lambda>i. worker_rank" "fo_worker s" Running] unborn_iff [OF spawn(4), of k]
    by (simp add: fan_measure_def spawned_def del: fun_upd_apply)
next
  case (launch s)
  then show ?case by (auto simp: fan_measure_def fan_inv_def)
next
  case (send s i)
  then show ?case
    using sum_upd [of i n "\<lambda>i. worker_rank" "fo_worker s" Sent] born [OF send(5), of i]
    by (simp add: fan_measure_def del: fun_upd_apply)
next
  case (send_closed s i)
  then show ?case using born [OF send_closed(4), of i] by (auto simp: fan_inv_def)
next
  case (count s i)
  then show ?case
    using sum_upd [of i n "\<lambda>i. worker_rank" "fo_worker s" Gone] born [OF count(3), of i]
    by (simp add: fan_measure_def del: fun_upd_apply)
qed (simp_all add: fan_measure_def)

lemma fan_progress:
  assumes inv: "fan_inv n answer s" and "fo_main s \<noteq> Finished"
  shows "\<exists>s'. fan_step n answer s s'"
proof (cases "fo_main s")
  case (Spawning k)
  with inv have "\<not> fo_panic s" "k < n \<or> k = n" by (auto simp: fan_inv_def spawned_def)
  with Spawning show ?thesis by (metis fan_step.spawn fan_step.launch)
next
  case Draining
  with inv have calm: "\<not> fo_panic s" "fo_closer s = Waiting \<or> fo_closed s"
    by (auto simp: fan_inv_def intro: closer.exhaust [of "fo_closer s"])
  show ?thesis
  proof (cases "fo_channel s")
    case (Cons r rs)
    with Draining calm(1) show ?thesis by (metis fan_step.receive)
  next
    case empty: Nil
    show ?thesis
    proof (cases "fo_closed s \<or> fo_group s = 0")
      case True
      with Draining calm empty show ?thesis by (metis fan_step.stop fan_step.close)
    next
      case False
      have "\<exists>i<n. fo_worker s i = Running \<or> fo_worker s i = Sent"
      proof (rule ccontr)
        assume "\<not> ?thesis"
        then have "fo_group s = 0" using inv by (simp add: fan_inv_def counted_def)
        with False show False by blast
      qed
      then obtain i where "i < n" "fo_worker s i = Running \<or> fo_worker s i = Sent" by blast
      moreover have "length (fo_channel s) < n" using \<open>i < n\<close> empty by simp
      ultimately show ?thesis using calm(1) False by (metis fan_step.send fan_step.count)
    qed
  qed
qed (use assms in simp)

lemma fan_steps_left:
  "(fan_step n answer ^^ m) fan_init s \<Longrightarrow> fan_inv n answer s \<and> fan_measure n s + m \<le> 4 * n + 4"
proof (induction m arbitrary: s)
  case 0
  then have "s = fan_init" by simp
  then show ?case using fan_inv_init by (simp add: fan_measure_def fan_init_def)
next
  case (Suc m)
  then obtain s1 where s1: "(fan_step n answer ^^ m) fan_init s1" "fan_step n answer s1 s" by auto
  from Suc.IH [OF s1(1)] fan_measure_step [OF s1(2)] fan_inv_step [OF s1(2)] show ?case by fastforce
qed

text \<open>
  C25. The fan-out of a search always returns: whatever the interleaving, a run over \<open>n\<close> definitions takes at
  most \<open>4 * n + 4\<close> steps, nothing panics on the way, and a run that cannot go on has returned; no goroutine
  blocks on the channel and the caller does not wait for ever.
\<close>

theorem search_fanout_returns:
  assumes "(fan_step n answer ^^ m) fan_init s"
  shows "m \<le> 4 * n + 4 \<and> \<not> fo_panic s \<and> (fo_main s = Finished \<or> (\<exists>s'. fan_step n answer s s'))"
proof -
  have left: "fan_inv n answer s" "m \<le> 4 * n + 4" using fan_steps_left [OF assms] by auto
  then have "\<not> fo_panic s" by (simp add: fan_inv_def)
  with left fan_progress [OF left(1)] show ?thesis by blast
qed

definition sample_answer :: "nat \<Rightarrow> provider_result" where
  "sample_answer i = \<lparr>pr_provider_id = ''users'', pr_results = [], pr_status = ''ok''\<rparr>"

theorem search_fanout_returns_witness:
  "\<not> fo_panic fan_init \<and> (\<exists>s'. fan_step 2 sample_answer fan_init s')"
  using search_fanout_returns [where n = 2 and answer = sample_answer and m = 0 and s = fan_init]
  by (simp add: fan_init_def)

subsection \<open>The results\<close>

lemma finished_results:
  assumes "fan_inv n answer s" and "fo_main s = Finished"
  shows "mset (fo_results s) = mset (List.map answer [0..<n])"
proof -
  have parts: "mset (fo_results s) + mset (fo_channel s) = (\<Sum>i<n. sent answer i (fo_worker s i))"
    "fo_channel s = []" "\<And>i. i < n \<Longrightarrow> fo_worker s i = Gone"
    using assms unfolding fan_inv_def by blast+
  then have "mset (fo_results s) = (\<Sum>i<n. sent answer i (fo_worker s i))" by simp
  also have "\<dots> = (\<Sum>i<n. {#answer i#})" using parts(3) by (intro sum.cong) (simp_all add: sent_def)
  also have "\<dots> = mset (List.map answer [0..<n])" by (induction n) simp_all
  finally show ?thesis .
qed

text \<open>Conversely, each order of the providers is that of a run: all start, then one after the other answers.\<close>

definition all_running :: "nat \<Rightarrow> nat \<Rightarrow> fanout" where
  "all_running n k = fan_init\<lparr>fo_main := Spawning k, fo_worker := (\<lambda>i. if i < k then Running else Unborn),
     fo_group := int k\<rparr>"

definition served :: "nat \<Rightarrow> (nat \<Rightarrow> provider_result) \<Rightarrow> nat list \<Rightarrow> fanout" where
  "served n answer is = (all_running n n)\<lparr>fo_main := Draining, fo_closer := Waiting,
     fo_worker := (\<lambda>i. if i \<in> set is then Gone else if i < n then Running else Unborn),
     fo_group := int n - int (length is), fo_results := List.map answer is\<rparr>"

lemma spawn_run: "k \<le> n \<Longrightarrow> (fan_step n answer)\<^sup>*\<^sup>* fan_init (all_running n k)"
proof (induction k)
  case 0
  have "all_running n 0 = fan_init" by (simp add: all_running_def fan_init_def)
  then show ?case by simp
next
  case (Suc k)
  have "fan_step n answer (all_running n k) (all_running n (Suc k))"
    using fan_step.spawn [of "all_running n k" k n answer] Suc.prems
    by (auto simp: all_running_def fan_init_def fun_upd_def less_Suc_eq elim!: back_subst [of "fan_step n answer _"])
  with Suc show ?case by (auto intro: rtranclp.rtrancl_into_rtrancl)
qed

lemma serve_one:
  assumes "i < n" and "i \<notin> set is" and "length is < n"
  shows "(fan_step n answer)\<^sup>*\<^sup>* (served n answer is) (served n answer (is @ [i]))"
proof -
  let ?s0 = "served n answer is"
  define s1 where "s1 = ?s0\<lparr>fo_worker := (fo_worker ?s0)(i := Sent), fo_channel := [answer i]\<rparr>"
  define s2 where "s2 = s1\<lparr>fo_worker := (fo_worker s1)(i := Gone), fo_group := fo_group s1 - 1\<rparr>"
  have "fan_step n answer ?s0 s1"
    using fan_step.send [of ?s0 i n answer] assms by (simp add: served_def all_running_def fan_init_def s1_def)
  moreover have "fan_step n answer s1 s2"
    using fan_step.count [of s1 i n answer] assms by (simp add: served_def all_running_def fan_init_def s1_def s2_def)
  moreover have "s2\<lparr>fo_channel := [], fo_results := fo_results s2 @ [answer i]\<rparr> = served n answer (is @ [i])"
    using assms by (auto simp: served_def all_running_def fan_init_def s1_def s2_def)
  moreover have "fan_step n answer s2 (s2\<lparr>fo_channel := [], fo_results := fo_results s2 @ [answer i]\<rparr>)"
    by (rule fan_step.receive) (simp_all add: served_def all_running_def fan_init_def s1_def s2_def)
  ultimately show ?thesis by (metis r_into_rtranclp rtranclp_trans)
qed

lemma serve_run:
  "distinct is \<Longrightarrow> set is \<subseteq> {..<n} \<Longrightarrow> (fan_step n answer)\<^sup>*\<^sup>* (served n answer []) (served n answer is)"
proof (induction "is" rule: rev_induct)
  case (snoc i "is")
  then have "insert i (set is) \<subseteq> {..<n}" "i \<notin> set is" "distinct is" by auto
  then have "length is < n"
    using card_mono [of "{..<n}" "insert i (set is)"] by (simp add: distinct_card)
  then have "(fan_step n answer)\<^sup>*\<^sup>* (served n answer is) (served n answer (is @ [i]))"
    using snoc.prems by (intro serve_one) auto
  with snoc show ?case by auto
qed simp

lemma order_reached:
  assumes "mset is = mset [0..<n]"
  shows "\<exists>s. (fan_step n answer)\<^sup>*\<^sup>* fan_init s \<and> fo_main s = Finished \<and> fo_results s = List.map answer is"
proof -
  have "is": "distinct is" using mset_eq_imp_distinct_iff [OF assms] by simp
  have subset: "set is \<subseteq> {..<n}" using mset_eq_setD [OF assms] by auto
  have len: "length is = n" using mset_eq_length [OF assms] by simp
  let ?s1 = "served n answer is"
  define s2 where "s2 = ?s1\<lparr>fo_closer := Closed, fo_closed := True\<rparr>"
  have "(fan_step n answer)\<^sup>*\<^sup>* fan_init (all_running n n)" by (rule spawn_run) simp
  moreover have "(all_running n n)\<lparr>fo_main := Draining, fo_closer := Waiting\<rparr> = served n answer []"
    by (auto simp: served_def all_running_def fan_init_def)
  then have "fan_step n answer (all_running n n) (served n answer [])"
    using fan_step.launch [of "all_running n n" n answer] by (simp add: all_running_def fan_init_def)
  moreover have "(fan_step n answer)\<^sup>*\<^sup>* (served n answer []) ?s1" by (rule serve_run [OF "is" subset])
  moreover have "fan_step n answer ?s1 s2"
    using fan_step.close [of ?s1 n answer] len by (simp add: served_def all_running_def fan_init_def s2_def)
  moreover have "fan_step n answer s2 (s2\<lparr>fo_main := Finished\<rparr>)"
    by (rule fan_step.stop) (simp_all add: served_def all_running_def fan_init_def s2_def)
  ultimately have "(fan_step n answer)\<^sup>*\<^sup>* fan_init (s2\<lparr>fo_main := Finished\<rparr>)"
    by (meson rtranclp.rtrancl_into_rtrancl rtranclp_trans)
  moreover have "fo_results (s2\<lparr>fo_main := Finished\<rparr>) = List.map answer is" "fo_main (s2\<lparr>fo_main := Finished\<rparr>) = Finished"
    by (simp_all add: s2_def served_def)
  ultimately show ?thesis by blast
qed

lemma mset_map_order:
  "mset rs = mset (List.map f xs) \<Longrightarrow> \<exists>ys. mset ys = mset xs \<and> rs = List.map f ys"
proof (induction rs arbitrary: xs)
  case (Cons r rs)
  then have "r \<in> f ` set xs" by (metis list.set_intros(1) list.set_map mset_eq_setD)
  then obtain x where x: "x \<in> set xs" "r = f x" by blast
  then have "image_mset f (mset xs) = add_mset r (image_mset f (mset (remove1 x xs)))"
    by (metis image_mset_add_mset insert_DiffM mset_remove1 set_mset_mset)
  with Cons.prems have "mset rs = mset (List.map f (remove1 x xs))" by (simp del: mset_remove1)
  from Cons.IH [OF this] obtain ys where "mset ys = mset (remove1 x xs)" "rs = List.map f ys" by blast
  with x show ?case by (intro exI [of _ "x # ys"]) simp
qed simp

lemma map_by_index: "List.map (\<lambda>i. f (xs ! i)) [0..<length xs] = List.map f xs"
  by (rule nth_equalityI) simp_all

lemma executeProviders_orders:
  "executeProviders sp rctx defs query = {rs. mset rs = mset (List.map (executeProvider sp rctx query) defs)}"
proof (cases "defs = []")
  case False
  let ?answer = "\<lambda>i. executeProvider sp rctx query (defs ! i)"
  have all: "List.map ?answer [0..<length defs] = List.map (executeProvider sp rctx query) defs"
    by (rule map_by_index)
  show ?thesis
  proof (intro equalityI subsetI)
    fix rs assume "rs \<in> executeProviders sp rctx defs query"
    then obtain s where "(fan_step (length defs) ?answer)\<^sup>*\<^sup>* fan_init s" "fo_main s = Finished" "rs = fo_results s"
      using False by (auto simp: executeProviders_def)
    then have "mset rs = mset (List.map ?answer [0..<length defs])"
      using finished_results [OF fan_inv_run] by blast
    then show "rs \<in> {rs. mset rs = mset (List.map (executeProvider sp rctx query) defs)}" unfolding all by blast
  next
    fix rs assume "rs \<in> {rs. mset rs = mset (List.map (executeProvider sp rctx query) defs)}"
    then have "mset rs = mset (List.map ?answer [0..<length defs])" unfolding all by blast
    from mset_map_order [OF this]
    obtain "is" where "mset is = mset [0..<length defs]" "rs = List.map ?answer is" by blast
    with order_reached [OF this(1), of ?answer]
    have "\<exists>s. rs = fo_results s \<and> fo_main s = Finished \<and> (fan_step (length defs) ?answer)\<^sup>*\<^sup>* fan_init s" by metis
    then show "rs \<in> executeProviders sp rctx defs query" using False by (simp add: executeProviders_def)
  qed
qed (simp add: executeProviders_def)

text \<open>
  C24. The goroutines of a search implement a permutation: the lists that the concurrent calls can return are
  exactly the orders of the results of calling each provider once, so the argument \<open>arrive\<close> of
  \<open>SearchAll\<close> stands for the interleavings, no more and no less.
\<close>

theorem search_fanout_exact:
  "executeProviders sp rctx defs query =
     (\<lambda>arrive. arrive (List.map (executeProvider sp rctx query) defs)) ` Collect permutes"
proof -
  let ?xs = "List.map (executeProvider sp rctx query) defs"
  have "\<exists>arrive. permutes arrive \<and> arrive ?xs = rs" if "mset rs = mset ?xs" for rs
    by (rule exI [of _ "\<lambda>ys. if ys = ?xs then rs else ys"]) (simp add: permutes_def that)
  then show ?thesis unfolding executeProviders_orders by (auto simp: permutes_def image_iff) metis
qed

end
