(* ===== verification/Expression.thy ===== *)
theory Expression imports Model begin

section \<open>Source expressions (pkg/command/expression.go)\<close>

text \<open>
  \<open>ExpressionResolver\<close> evaluates the expressions of an input mapping against the user's input, the
  route parameters, the request context and a workflow state, each of which may be nil. A decimal
  literal with a dot is the float64 nearest to it (a negative zero is zero); one without is an
  int64 or a range error.
\<close>

record expression_resolver =
  xr_input :: "gany gomap option"
  xr_route :: "string gomap option"
  xr_context :: "request_context option"
  xr_workflow :: "gany gomap option"

definition navigatePath :: "gany gomap \<Rightarrow> string \<Rightarrow> gany" where
  "navigatePath data path = nav (GMap data) (split_on CHR ''.'' path)"

text \<open>The loop of \<open>isNumericLiteral\<close>: digits and at most one dot.\<close>

fun numeric_scan :: "bool \<Rightarrow> string \<Rightarrow> bool" where
  "numeric_scan hasDot [] = True"
| "numeric_scan hasDot (c # cs) =
     (if c = CHR ''.'' then (if hasDot then False else numeric_scan True cs)
      else if c < CHR ''0'' \<or> CHR ''9'' < c then False
      else numeric_scan hasDot cs)"

definition isNumericLiteral :: "string \<Rightarrow> bool" where
  "isNumericLiteral s =
     (case s of
        [] \<Rightarrow> False
      | c # cs \<Rightarrow>
          if c = CHR ''-'' \<or> c = CHR ''+''
          then (if cs = [] then False else numeric_scan False cs)
          else numeric_scan False s)"

definition num_error :: "golib \<Rightarrow> string \<Rightarrow> string \<Rightarrow> string \<Rightarrow> go_error" where
  "num_error L func s why = Plain (''strconv.'' @ func @ '': parsing '' @ quote L s @ '': '' @ why)"

text \<open>strconv.ParseFloat on an optional sign, digits and one dot.\<close>

definition frac_value :: "string \<Rightarrow> rat" where
  "frac_value ds =
     (let ip = takeWhile (\<lambda>c. c \<noteq> CHR ''.'') ds;
          fp = drop (length ip + 1) ds
      in of_nat (nat_of_digits 0 (ip @ fp)) / 10 ^ length fp)"

definition ParseFloat :: "golib \<Rightarrow> string \<Rightarrow> go_error + rat" where
  "ParseFloat L s =
     (let ds = unsigned_part s;
          v = (if s \<noteq> [] \<and> hd s = CHR ''-'' then - frac_value ds else frac_value ds)
      in if \<not> (\<exists>c\<in>set ds. is_digit c) then Inl (num_error L ''ParseFloat'' s ''invalid syntax'')
         else if f64_overflows v then Inl (num_error L ''ParseFloat'' s ''value out of range'')
         else Inr (f64 v))"

definition ParseInt :: "golib \<Rightarrow> string \<Rightarrow> go_error + int" where
  "ParseInt L s =
     (case atoi s of Some i \<Rightarrow> Inr i
      | None \<Rightarrow> Inl (num_error L ''ParseInt'' s
          (if unsigned_part s \<noteq> [] \<and> (\<forall>c\<in>set (unsigned_part s). is_digit c)
           then ''value out of range'' else ''invalid syntax'')))"

definition invalid_numeric :: "golib \<Rightarrow> string \<Rightarrow> go_error \<Rightarrow> go_error" where
  "invalid_numeric L s err =
     Wrap (''invalid numeric literal '' @ quote L s @ '': '' @ error_message err) err"

definition parseNumeric :: "golib \<Rightarrow> string \<Rightarrow> go_error + gany" where
  "parseNumeric L s =
     (if CHR ''.'' \<in> set s then
        (case ParseFloat L s of Inl err \<Rightarrow> Inl (invalid_numeric L s err) | Inr v \<Rightarrow> Inr (GFloat v))
      else
        (case ParseInt L s of Inl err \<Rightarrow> Inl (invalid_numeric L s err) | Inr v \<Rightarrow> Inr (GInt64 v)))"

definition resolveInput :: "golib \<Rightarrow> expression_resolver \<Rightarrow> string \<Rightarrow> go_error + gany" where
  "resolveInput L r path =
     (case xr_input r of
        None \<Rightarrow> Inl (Plain (''input source is nil, cannot resolve '' @ quote L (''input.'' @ path)))
      | Some data \<Rightarrow>
          (let val = navigatePath data path in
           if val = GNil then Inl (Plain (''input field '' @ quote L path @ '' not found''))
           else Inr val))"

definition resolveRoute :: "golib \<Rightarrow> expression_resolver \<Rightarrow> string \<Rightarrow> go_error + gany" where
  "resolveRoute L r param =
     (case xr_route r of
        None \<Rightarrow> Inl (Plain (''route params is nil, cannot resolve '' @ quote L (''route.'' @ param)))
      | Some params \<Rightarrow>
          (case gget params param of
             None \<Rightarrow> Inl (Plain (''route param '' @ quote L param @ '' not found''))
           | Some val \<Rightarrow> Inr (GStr val)))"

definition resolveContext :: "golib \<Rightarrow> expression_resolver \<Rightarrow> string \<Rightarrow> go_error + gany" where
  "resolveContext L r field =
     (case xr_context r of
        None \<Rightarrow> Inl (Plain (''request context is nil, cannot resolve '' @ quote L (''context.'' @ field)))
      | Some rc \<Rightarrow>
          if field = ''subject_id'' then Inr (GStr (SubjectID rc))
          else if field = ''tenant_id'' then Inr (GStr (TenantID rc))
          else if field = ''partition_id'' then Inr (GStr (PartitionID rc))
          else if field = ''email'' then Inr (GStr (Email rc))
          else Inl (Plain (''unknown context field '' @ quote L field)))"

definition resolveWorkflow :: "golib \<Rightarrow> expression_resolver \<Rightarrow> string \<Rightarrow> go_error + gany" where
  "resolveWorkflow L r path =
     (case xr_workflow r of
        None \<Rightarrow> Inl (Plain (''workflow state is nil, cannot resolve '' @ quote L (''workflow.'' @ path)))
      | Some data \<Rightarrow>
          (let val = navigatePath data path in
           if val = GNil then Inl (Plain (''workflow field '' @ quote L path @ '' not found''))
           else Inr val))"

definition is_quoted :: "string \<Rightarrow> bool" where
  "is_quoted e \<longleftrightarrow> length e \<ge> 2 \<and> hd e = CHR 0x27 \<and> last e = CHR 0x27"

definition ResolveExpr :: "golib \<Rightarrow> expression_resolver \<Rightarrow> string \<Rightarrow> go_error + gany" where
  "ResolveExpr L r expr0 =
     (let expr = trim_space expr0 in
      if expr = [] then Inl (Plain ''empty expression'')
      else if is_quoted expr then Inr (GStr (take (length expr - 2) (drop 1 expr)))
      else if isNumericLiteral expr then parseNumeric L expr
      else if CHR ''.'' \<notin> set expr
      then Inl (Plain (''invalid expression '' @ quote L expr @ '': missing source prefix''))
      else
        (let pre = takeWhile (\<lambda>c. c \<noteq> CHR ''.'') expr;
             path = drop (length pre + 1) expr in
         if path = [] then
           Inl (Plain (''invalid expression '' @ quote L expr @ '': empty path after prefix''))
         else if pre = ''input'' then resolveInput L r path
         else if pre = ''route'' then resolveRoute L r path
         else if pre = ''context'' then resolveContext L r path
         else if pre = ''workflow'' then resolveWorkflow L r path
         else Inl (Plain (''unknown expression prefix '' @ quote L pre @ '' in '' @ quote L expr))))"

subsection \<open>Trimming leaves the literals alone\<close>

lemma strip_seqs_head:
  assumes "\<forall>q\<in>set qs. q = [] \<or> hd q \<noteq> c"
  shows "strip_seqs qs (c # s) = c # s"
proof (rule strip_seqs_none)
  have "\<not> (q \<noteq> [] \<and> prefix q (c # s))" if "q \<in> set qs" for q
    using assms that by (cases q) auto
  then show "List.find (\<lambda>q. q \<noteq> [] \<and> prefix q (c # s)) qs = None"
    by (simp add: find_None_iff)
qed

definition space_heads :: "nat list" where
  "space_heads = [9, 10, 11, 12, 13, 32, 194, 225, 226, 227]"

definition space_lasts :: "nat list" where
  "space_lasts = [9, 10, 11, 12, 13, 32, 133, 160, 128, 129, 130, 131, 132, 133, 134, 135, 136, 137,
     138, 168, 169, 175, 159]"

lemma space_seqs_ends:
  "\<forall>q\<in>set space_seqs. q \<noteq> [] \<and> (of_char (hd q) :: nat) \<in> set space_heads \<and>
     (of_char (last q) :: nat) \<in> set space_lasts"
  by (simp add: space_seqs_def space_heads_def space_lasts_def)

lemma trim_space_id:
  assumes "s \<noteq> []" and "(of_char (hd s) :: nat) \<notin> set space_heads"
    and "(of_char (last s) :: nat) \<notin> set space_lasts"
  shows "trim_space s = s"
proof -
  obtain c cs where s: "s = c # cs" using assms(1) by (cases s) auto
  have 1: "strip_seqs space_seqs s = s"
    unfolding s by (rule strip_seqs_head) (use assms(2) s space_seqs_ends in auto)
  obtain d ds where r: "rev s = d # ds" using assms(1) by (cases "rev s") auto
  then have d: "d = last s" by (metis hd_rev list.sel(1))
  have "strip_seqs (List.map rev space_seqs) (rev s) = rev s"
    unfolding r by (rule strip_seqs_head) (use assms(3) d space_seqs_ends in \<open>auto simp: hd_rev\<close>)
  with 1 show ?thesis by (simp add: trim_space_def)
qed

lemma is_digit_not_space:
  "is_digit c \<Longrightarrow> (of_char c :: nat) \<notin> set space_heads \<and> (of_char c :: nat) \<notin> set space_lasts"
  by (auto simp: is_digit_iff space_heads_def space_lasts_def)

lemma numeric_scan_digits: "\<forall>c\<in>set cs. is_digit c \<Longrightarrow> numeric_scan b cs"
  by (induction cs) (auto simp: is_digit_def is_digit_iff)

lemma digit_not: "is_digit c \<Longrightarrow> c \<noteq> CHR ''.'' \<and> c \<noteq> CHR 0x27 \<and> c \<noteq> CHR ''-'' \<and> c \<noteq> CHR ''+''"
  by (auto simp: is_digit_iff)


lemma dec_int_shape:
  "dec_int i = (if i < 0 then [CHR ''-''] else []) @ dec_nat (nat \<bar>i\<bar>)"
  by (auto simp: dec_int_def)

lemma dec_int_facts:
  "dec_int i \<noteq> []" "trim_space (dec_int i) = dec_int i" "\<not> is_quoted (dec_int i)"
  "isNumericLiteral (dec_int i)" "CHR ''.'' \<notin> set (dec_int i)"
proof -
  let ?ds = "dec_nat (nat \<bar>i\<bar>)"
  have digits: "\<And>c. c \<in> set ?ds \<Longrightarrow> is_digit c" by (rule dec_nat_digits)
  obtain c cs where c: "?ds = c # cs" by (cases ?ds) auto
  have hd: "is_digit c" and last: "is_digit (last ?ds)"
    using digits c last_in_set [of ?ds] by auto
  show ne: "dec_int i \<noteq> []" by (simp add: dec_int_shape)
  have "last (dec_int i) = last ?ds" by (simp add: dec_int_shape)
  moreover have "(of_char (CHR ''-'') :: nat) \<notin> set space_heads" by (simp add: space_heads_def)
  ultimately show "trim_space (dec_int i) = dec_int i"
    using ne is_digit_not_space [OF hd] is_digit_not_space [OF last] c
    by (intro trim_space_id) (auto simp: dec_int_shape)
  show "\<not> is_quoted (dec_int i)"
    using \<open>last (dec_int i) = last ?ds\<close> digit_not [OF last] by (simp add: is_quoted_def)
  show "CHR ''.'' \<notin> set (dec_int i)"
    using digits digit_not by (auto simp: dec_int_shape)
  have "numeric_scan False ?ds" by (rule numeric_scan_digits) (use digits in blast)
  then show "isNumericLiteral (dec_int i)"
    using digit_not [OF hd] c by (simp add: dec_int_shape isNumericLiteral_def)
qed

subsection \<open>Properties\<close>

text \<open>
  Integer literals round trip: the decimal form of every int64 evaluates to that int64,
  whatever sources are missing.
\<close>

theorem integer_literal:
  assumes "in_int64 i"
  shows "ResolveExpr L r (dec_int i) = Inr (GInt64 i)"
proof -
  have "atoi (dec_int i) = Some i"
    using assms by (intro atoi_dec_int) (auto simp: in_int64_def int64_min_def int64_max_def)
  then show ?thesis
    by (simp add: ResolveExpr_def Let_def dec_int_facts parseNumeric_def ParseInt_def)
qed

definition no_sources :: expression_resolver where
  "no_sources = \<lparr>xr_input = None, xr_route = None, xr_context = None, xr_workflow = None\<rparr>"

theorem integer_literal_witness: "ResolveExpr demo_lib no_sources (dec_int (-42)) = Inr (GInt64 (-42))"
  by (rule integer_literal) (simp add: in_int64_def int64_min_def int64_max_def)

text \<open>
  A quoted literal evaluates to the bytes between the quotes, also when they look like an
  expression, a number or white space.
\<close>

theorem string_literal: "ResolveExpr L r ([CHR 0x27] @ s @ [CHR 0x27]) = Inr (GStr s)"
proof -
  have "trim_space ([CHR 0x27] @ s @ [CHR 0x27]) = [CHR 0x27] @ s @ [CHR 0x27]"
    by (rule trim_space_id) (simp_all add: space_heads_def space_lasts_def)
  then show ?thesis by (simp add: ResolveExpr_def Let_def is_quoted_def)
qed

lemma source_expr:
  assumes "trim_space (src @ CHR ''.'' # path) = src @ CHR ''.'' # path" and "path \<noteq> []"
    and "src \<noteq> []" and "CHR ''.'' \<notin> set src"
    and "hd src \<noteq> CHR 0x27" and "\<not> is_digit (hd src)" and "hd src \<noteq> CHR ''-''" and "hd src \<noteq> CHR ''+''"
  shows "ResolveExpr L r (src @ CHR ''.'' # path) =
    (if src = ''input'' then resolveInput L r path
     else if src = ''route'' then resolveRoute L r path
     else if src = ''context'' then resolveContext L r path
     else if src = ''workflow'' then resolveWorkflow L r path
     else Inl (Plain (''unknown expression prefix '' @ quote L src @ '' in '' @
            quote L (src @ CHR ''.'' # path))))"
proof -
  have q: "\<not> is_quoted (src @ CHR ''.'' # path)"
    using assms(3,5) by (simp add: is_quoted_def)
  have n: "\<not> isNumericLiteral (src @ CHR ''.'' # path)"
    using assms(3,4,6-8) by (cases src) (auto simp: isNumericLiteral_def is_digit_def)
  have t: "takeWhile (\<lambda>c. c \<noteq> CHR ''.'') (src @ CHR ''.'' # path) = src"
    using assms(4) by (simp add: takeWhile_tail) (metis takeWhile_eq_all_conv)
  show ?thesis
    using assms(1,2) by (simp add: ResolveExpr_def Let_def q n t)
qed

text \<open>
  An input expression follows its path: when the input is present, \<open>input.a.b\<close> evaluates to
  what the nested maps hold under the keys a and b, and to an error exactly when that is absent,
  null, or under something that is not a map.
\<close>

theorem input_path:
  assumes "segs \<noteq> []" and "\<forall>p\<in>set segs. CHR ''.'' \<notin> set p" and "join ''.'' segs \<noteq> []"
    and "trim_space (''input.'' @ join ''.'' segs) = ''input.'' @ join ''.'' segs"
    and "xr_input r = Some m"
  shows "ResolveExpr L r (''input.'' @ join ''.'' segs) =
    (if nav (GMap m) segs = GNil
     then Inl (Plain (''input field '' @ quote L (join ''.'' segs) @ '' not found''))
     else Inr (nav (GMap m) segs))"
proof -
  have "split_on CHR ''.'' (join ''.'' segs) = segs"
    using split_on_join [of segs "CHR ''.''"] assms(1,2) by simp
  moreover have "ResolveExpr L r (''input'' @ CHR ''.'' # join ''.'' segs) = resolveInput L r (join ''.'' segs)"
    by (subst source_expr) (use assms(3,4) in \<open>simp_all add: is_digit_iff\<close>)
  ultimately show ?thesis
    using assms(5) by (simp add: resolveInput_def navigatePath_def Let_def)
qed

theorem input_path_witness:
  "ResolveExpr demo_lib (no_sources\<lparr>xr_input := Some [(''address'', GMap [(''city'', GStr ''Kampala'')])]\<rparr>)
     (''input.'' @ join ''.'' [''address'', ''city'']) =
    (if nav (GMap [(''address'', GMap [(''city'', GStr ''Kampala'')])]) [''address'', ''city''] = GNil
     then Inl (Plain (''input field '' @ quote demo_lib (join ''.'' [''address'', ''city'']) @ '' not found''))
     else Inr (nav (GMap [(''address'', GMap [(''city'', GStr ''Kampala'')])]) [''address'', ''city'']))"
proof (rule input_path)
  show "trim_space (''input.'' @ join ''.'' [''address'', ''city'']) =
      ''input.'' @ join ''.'' [''address'', ''city'']"
    by (rule trim_space_id) (simp_all add: space_heads_def space_lasts_def)
qed (simp_all add: no_sources_def)

end
