(* ===== verification/InputMapper.thy ===== *)
theory InputMapper imports Expression Definitions begin

section \<open>Input mapping (pkg/command/mapper.go)\<close>

text \<open>
  \<open>MapInput\<close> evaluates the expressions of a mapping into an invocation input; each range loop
  stops at the first expression that fails. A typed nil map put into an \<open>any\<close> is \<open>GNilMap\<close>.
\<close>

text \<open>The loops over path, query and header parameters: resolve, print, store.\<close>

fun map_params ::
  "golib \<Rightarrow> expression_resolver \<Rightarrow> string \<Rightarrow> string gomap \<Rightarrow> string gomap \<Rightarrow> go_error + string gomap" where
  "map_params L r tag [] acc = Inr acc"
| "map_params L r tag ((param, expr) # ps) acc =
     (case ResolveExpr L r expr of
        Inl err \<Rightarrow> Inl (Wrap (tag @ ''['' @ param @ '']: '' @ error_message err) err)
      | Inr val \<Rightarrow> map_params L r tag ps (gput param (sprint L val) acc))"

text \<open>The loops of \<open>resolveTemplate\<close> and \<open>resolveProjection\<close>.\<close>

fun map_values ::
  "golib \<Rightarrow> expression_resolver \<Rightarrow> string \<Rightarrow> string gomap \<Rightarrow> gany gomap \<Rightarrow> go_error + gany gomap" where
  "map_values L r tag [] acc = Inr acc"
| "map_values L r tag ((key, expr) # ps) acc =
     (case ResolveExpr L r expr of
        Inl err \<Rightarrow> Inl (Wrap (tag @ ''['' @ key @ '']: '' @ error_message err) err)
      | Inr val \<Rightarrow> map_values L r tag ps (gput key val acc))"

definition resolveTemplate ::
  "golib \<Rightarrow> string gomap \<Rightarrow> expression_resolver \<Rightarrow> go_error + gany gomap" where
  "resolveTemplate L template r =
     (if length template = 0 then Inr [] else map_values L r ''body_template'' template [])"

definition resolveProjection ::
  "golib \<Rightarrow> string gomap \<Rightarrow> expression_resolver \<Rightarrow> go_error + gany gomap" where
  "resolveProjection L projection r =
     (if length projection = 0 then Inr [] else map_values L r ''field_projection'' projection [])"

definition map_in_any :: "gany gomap option \<Rightarrow> gany" where
  "map_in_any m = (case m of None \<Rightarrow> GNilMap | Some kvs \<Rightarrow> GMap kvs)"

definition buildBody ::
  "golib \<Rightarrow> input_mapping \<Rightarrow> expression_resolver \<Rightarrow> command_input \<Rightarrow> go_error + gany" where
  "buildBody L mapping r input =
     (let strategy = to_lower L (im_body_mapping mapping) in
      if strategy = ''passthrough'' \<or> strategy = [] then Inr (map_in_any (ci_input input))
      else if strategy = ''template'' then map_sum id GMap (resolveTemplate L (im_body_template mapping) r)
      else if strategy = ''projection''
      then map_sum id GMap (resolveProjection L (im_field_projection mapping) r)
      else Inl (Plain (''unknown body_mapping strategy '' @ quote L (im_body_mapping mapping))))"

definition mapping_resolver ::
  "command_input \<Rightarrow> request_context option \<Rightarrow> gany gomap option \<Rightarrow> expression_resolver" where
  "mapping_resolver input rctx workflowState =
     \<lparr>xr_input = ci_input input, xr_route = ci_route input, xr_context = rctx,
      xr_workflow = workflowState\<rparr>"

definition MapInput ::
  "golib \<Rightarrow> input_mapping \<Rightarrow> command_input \<Rightarrow> request_context option \<Rightarrow> gany gomap option \<Rightarrow>
   go_error + invocation_input" where
  "MapInput L mapping input rctx workflowState =
     (let r = mapping_resolver input rctx workflowState in
      case map_params L r ''path_params'' (im_path_params mapping) [] of
        Inl err \<Rightarrow> Inl err
      | Inr path \<Rightarrow>
          (case map_params L r ''query_params'' (im_query_params mapping) [] of
             Inl err \<Rightarrow> Inl err
           | Inr query \<Rightarrow>
               (case map_params L r ''header_params'' (im_header_params mapping) [] of
                  Inl err \<Rightarrow> Inl err
                | Inr headers \<Rightarrow>
                    (case buildBody L mapping r input of
                       Inl err \<Rightarrow> Inl err
                     | Inr body \<Rightarrow>
                         Inr \<lparr>in_path = path, in_query = query, in_headers = headers,
                              in_body = body\<rparr>))))"

text \<open>\<open>ReverseFieldMap\<close>; its nil result reads like the empty map.\<close>

fun reverse_loop :: "string gomap \<Rightarrow> string gomap \<Rightarrow> string gomap" where
  "reverse_loop [] acc = acc"
| "reverse_loop ((uiField, expr) # ps) acc =
     (if has_prefix expr ''input.''
      then reverse_loop ps (gput uiField (drop (length ''input.'') expr) acc)
      else reverse_loop ps acc)"

definition ReverseFieldMap :: "string gomap \<Rightarrow> string gomap" where
  "ReverseFieldMap projection = (if length projection = 0 then [] else reverse_loop projection [])"

subsection \<open>What the loops compute\<close>

lemma map_params_ok_iff:
  "is_ok (map_params L r tag ps acc) \<longleftrightarrow> (\<forall>(p, e)\<in>set ps. is_ok (ResolveExpr L r e))"
  by (induction L r tag ps acc rule: map_params.induct) (auto split: sum.splits)

lemma map_values_ok_iff:
  "is_ok (map_values L r tag ps acc) \<longleftrightarrow> (\<forall>(p, e)\<in>set ps. is_ok (ResolveExpr L r e))"
  by (induction L r tag ps acc rule: map_values.induct) (auto split: sum.splits)

lemma map_params_get:
  assumes "map_params L r tag ps acc = Inr m" and "gmap_ok ps"
  shows "gget m k =
    (case gget ps k of None \<Rightarrow> gget acc k | Some e \<Rightarrow> Some (sprint L (projr (ResolveExpr L r e))))"
  using assms
proof (induction L r tag ps acc rule: map_params.induct)
  case (1 L r tag acc)
  then show ?case by simp
next
  case (2 L r tag param expr ps acc)
  obtain val where val: "ResolveExpr L r expr = Inr val"
    using "2.prems" by (auto split: sum.splits)
  have rest: "map_params L r tag ps (gput param (sprint L val) acc) = Inr m" and "gmap_ok ps"
    and "gget ps param = None"
    using "2.prems" val by (auto simp: map_of_eq_None_iff image_iff)
  with "2.IH" [OF val] val show ?case
    by (auto simp: gget_gput split: option.splits)
qed

lemma map_values_get:
  assumes "map_values L r tag ps acc = Inr m" and "gmap_ok ps"
  shows "gget m k =
    (case gget ps k of None \<Rightarrow> gget acc k | Some e \<Rightarrow> Some (projr (ResolveExpr L r e)))"
  using assms
proof (induction L r tag ps acc rule: map_values.induct)
  case (1 L r tag acc)
  then show ?case by simp
next
  case (2 L r tag key expr ps acc)
  obtain val where val: "ResolveExpr L r expr = Inr val"
    using "2.prems" by (auto split: sum.splits)
  have rest: "map_values L r tag ps (gput key val acc) = Inr m" and "gmap_ok ps"
    and "gget ps key = None"
    using "2.prems" val by (auto simp: map_of_eq_None_iff image_iff)
  with "2.IH" [OF val] val show ?case
    by (auto simp: gget_gput split: option.splits)
qed

lemma reverse_loop_get:
  "gmap_ok ps \<Longrightarrow>
   gget (reverse_loop ps acc) k =
     (case gget ps k of
        None \<Rightarrow> gget acc k
      | Some e \<Rightarrow> if has_prefix e ''input.'' then Some (drop (length ''input.'') e) else gget acc k)"
proof (induction ps acc rule: reverse_loop.induct)
  case (1 acc)
  then show ?case by simp
next
  case (2 u e ps acc)
  then have "gget ps u = None" by (auto simp: map_of_eq_None_iff image_iff)
  with 2 show ?case by (auto simp: gget_gput split: option.splits)
qed

text \<open>The expressions the body strategy of a mapping evaluates.\<close>

definition body_exprs :: "golib \<Rightarrow> input_mapping \<Rightarrow> string gomap" where
  "body_exprs L mapping =
     (if to_lower L (im_body_mapping mapping) = ''template'' then im_body_template mapping
      else if to_lower L (im_body_mapping mapping) = ''projection'' then im_field_projection mapping
      else [])"

definition known_strategy :: "golib \<Rightarrow> input_mapping \<Rightarrow> bool" where
  "known_strategy L mapping \<longleftrightarrow>
     to_lower L (im_body_mapping mapping) \<in> {[], ''passthrough'', ''template'', ''projection''}"

lemma is_ok_map_sum [simp]: "is_ok (map_sum f g x) = is_ok x"
  by (cases x) auto

lemma buildBody_ok_iff:
  "is_ok (buildBody L mapping r input) \<longleftrightarrow>
     known_strategy L mapping \<and> (\<forall>(k, e)\<in>set (body_exprs L mapping). is_ok (ResolveExpr L r e))"
  by (auto simp: buildBody_def Let_def known_strategy_def body_exprs_def resolveTemplate_def
      resolveProjection_def map_values_ok_iff)

lemma ok_bind: "is_ok (case x of Inl e \<Rightarrow> Inl e | Inr y \<Rightarrow> f y) \<longleftrightarrow> is_ok x \<and> is_ok (f (projr x))"
  by (cases x) auto

subsection \<open>Properties\<close>

text \<open>
  C26. A mapping fails exactly when its body strategy is unknown or some expression it evaluates
  fails; in particular the order in which the range loops visit the maps never decides whether
  it fails.
\<close>

theorem map_input_ok_iff:
  "is_ok (MapInput L mapping input rctx ws) \<longleftrightarrow>
     known_strategy L mapping \<and>
     snd ` set (im_path_params mapping @ im_query_params mapping @ im_header_params mapping @
                body_exprs L mapping)
       \<subseteq> {e. is_ok (ResolveExpr L (mapping_resolver input rctx ws) e)}"
  unfolding MapInput_def Let_def ok_bind map_params_ok_iff buildBody_ok_iff
  by (auto simp: ball_Un)

text \<open>
  When a mapping succeeds, every path parameter of the invocation is the printed value of
  the expression the mapping gives for that name, and there are no others.
\<close>

theorem map_input_path_params:
  assumes "MapInput L mapping input rctx ws = Inr io" and "gmap_ok (im_path_params mapping)"
  shows "gget (in_path io) p =
    map_option (\<lambda>e. sprint L (projr (ResolveExpr L (mapping_resolver input rctx ws) e)))
      (gget (im_path_params mapping) p)"
proof -
  have "map_params L (mapping_resolver input rctx ws) ''path_params'' (im_path_params mapping) [] =
      Inr (in_path io)"
    using assms(1) by (auto simp: MapInput_def Let_def split: sum.splits)
  from map_params_get [OF this assms(2), of p] show ?thesis
    by (simp split: option.splits)
qed

definition demo_mapping :: input_mapping where
  "demo_mapping =
     \<lparr>im_path_params = [(''id'', ''7'')], im_query_params = [], im_header_params = [],
      im_body_mapping = ''projection'', im_body_template = [],
      im_field_projection = [(''sku'', ''input.item'')]\<rparr>"

definition demo_input :: command_input where
  "demo_input = \<lparr>ci_input = Some [(''item'', GStr ''A1'')], ci_route = None\<rparr>"

lemma dec_int_seven: "dec_int 7 = ''7''"
  by (simp add: dec_int_def dec_nat.simps digit_char_def char_of_eq_iff)

lemma resolve_seven: "ResolveExpr L r ''7'' = Inr (GInt64 7)"
proof -
  have "ResolveExpr L r (dec_int 7) = Inr (GInt64 7)"
    using dec_int_facts [of 7] atoi_dec_int [of 7]
    by (simp add: ResolveExpr_def Let_def parseNumeric_def ParseInt_def)
  then show ?thesis by (simp add: dec_int_seven)
qed

lemma resolve_item:
  "ResolveExpr L (mapping_resolver demo_input rctx ws) ''input.item'' = Inr (GStr ''A1'')"
proof -
  have "trim_space ''input.item'' = ''input.item''"
    by (rule trim_space_id) (simp_all add: space_heads_def space_lasts_def)
  then have "ResolveExpr L (mapping_resolver demo_input rctx ws) (''input'' @ CHR ''.'' # ''item'') =
      resolveInput L (mapping_resolver demo_input rctx ws) ''item''"
    by (subst source_expr) (simp_all add: is_digit_iff)
  then show ?thesis
    by (simp add: resolveInput_def navigatePath_def mapping_resolver_def demo_input_def Let_def
        index_any_def)
qed

lemma demo_map_input:
  "MapInput L demo_mapping demo_input rctx ws =
     Inr \<lparr>in_path = [(''id'', ''7'')], in_query = [], in_headers = [],
          in_body = GMap [(''sku'', GStr ''A1'')]\<rparr>"
  by (simp add: MapInput_def Let_def demo_mapping_def resolve_seven resolve_item buildBody_def
      resolveProjection_def to_lower_def is_ascii_def lower_char_def dec_int_seven)

theorem map_input_path_params_witness:
  "gget (in_path \<lparr>in_path = [(''id'', ''7'')], in_query = [], in_headers = [],
          in_body = GMap [(''sku'', GStr ''A1'')]\<rparr>) ''id'' =
    map_option (\<lambda>e. sprint demo_lib (projr (ResolveExpr demo_lib (mapping_resolver demo_input None None) e)))
      (gget (im_path_params demo_mapping) ''id'')"
  by (rule map_input_path_params [OF demo_map_input]) (simp add: demo_mapping_def)

text \<open>
  The reverse map names, for a projected backend field, the input field it came from: it
  holds exactly the fields whose expression starts with \<open>input.\<close>.
\<close>

theorem reverse_field_map:
  assumes "gmap_ok projection"
  shows "gget (ReverseFieldMap projection) backend = Some ui \<longleftrightarrow>
    gget projection backend = Some (''input.'' @ ui)"
proof -
  have "prefix ''input.'' e \<and> drop (length ''input.'') e = ui \<longleftrightarrow> e = ''input.'' @ ui" for e
    by (auto simp: prefix_def)
  then show ?thesis
    using reverse_loop_get [OF assms, of "[]" backend]
    by (auto simp: ReverseFieldMap_def split: option.splits if_splits)
qed

theorem reverse_field_map_witness:
  "gget (ReverseFieldMap [(''sku'', ''input.item''), (''kind'', ''7'')]) ''sku'' = Some ''item'' \<longleftrightarrow>
    gget [(''sku'', ''input.item''), (''kind'', ''7'')] ''sku'' = Some (''input.'' @ ''item'')"
  by (rule reverse_field_map) simp

end
