(* ===== verification/Executor.thy ===== *)
theory Executor imports InputMapper Invoker Registry Capability begin

section \<open>Command execution (pkg/command/executor.go)\<close>

text \<open>
  \<open>Execute\<close> runs the pipeline: definition, capabilities, input mapping, validation against the
  index, backend call, response handling. It returns a response and an error, as the Go function
  does, and the next world. \<open>Validate\<close> is the dry run. The collaborators of \<open>CommandExecutor\<close>
  are one record.
\<close>

record command_response =
  cr_success :: bool
  cr_message :: string
  cr_result :: "gany gomap option"
  cr_errors :: "field_error list"

definition empty_response :: command_response where
  "empty_response = \<lparr>cr_success = False, cr_message = [], cr_result = None, cr_errors = []\<rparr>"

record 'w command_executor =
  ce_lib :: golib
  ce_registry :: snapshot
  ce_invokers :: "'w invoke_fn"
  ce_index :: "index option"
  ce_content_get :: "oa_content \<Rightarrow> string \<Rightarrow> oa_media option"

subsection \<open>Helpers\<close>

text \<open>The inner loop of \<open>containsWord\<close>: byte arithmetic wraps at 256.\<close>

fun word_at :: "string \<Rightarrow> string \<Rightarrow> bool" where
  "word_at s [] = True"
| "word_at [] (wc # ws) = False"
| "word_at (sc # s) (wc # ws) =
     (let a = (of_char sc :: nat); b = (of_char wc :: nat) in
      if a \<noteq> b \<and> a \<noteq> (b + 32) mod 256 \<and> a \<noteq> (b + 224) mod 256 then False else word_at s ws)"

fun containsWord :: "string \<Rightarrow> string \<Rightarrow> bool" where
  "containsWord [] w = (w = [])"
| "containsWord (c # cs) w =
     (if length w \<le> length (c # cs)
      then (if word_at (c # cs) w then True else containsWord cs w)
      else False)"

definition reversed_field :: "string gomap \<Rightarrow> string \<Rightarrow> string" where
  "reversed_field reverseMap field =
     (case gget reverseMap field of Some uiField \<Rightarrow> uiField | None \<Rightarrow> field)"

fun translateValidationErrors :: "validation_error list \<Rightarrow> string gomap \<Rightarrow> field_error list" where
  "translateValidationErrors [] reverseMap = []"
| "translateValidationErrors (v # vs) reverseMap =
     \<lparr>fe_field = reversed_field reverseMap (ve_field v),
      fe_code = (if ve_field v \<noteq> [] \<and> length (ve_message v) > 0 \<and> containsWord (ve_message v) ''required''
                 then ''REQUIRED'' else ''INVALID_VALUE''),
      fe_message = ve_message v\<rparr> # translateValidationErrors vs reverseMap"

definition extractString :: "golib \<Rightarrow> gany gomap \<Rightarrow> string \<Rightarrow> string" where
  "extractString L data path =
     (let val = navigatePath data path in
      if val = GNil then [] else (case as_str val of Some s \<Rightarrow> s | None \<Rightarrow> sprint L val))"

definition string_field :: "gany gomap \<Rightarrow> string \<Rightarrow> string" where
  "string_field m k = (case as_str (index_any m k) of Some s \<Rightarrow> s | None \<Rightarrow> [])"

fun field_errors_of :: "gany list \<Rightarrow> field_error list" where
  "field_errors_of [] = []"
| "field_errors_of (item # items) =
     (case as_map item of
        None \<Rightarrow> field_errors_of items
      | Some m \<Rightarrow>
          (let fe = \<lparr>fe_field = string_field m ''field'', fe_code = string_field m ''code'',
                     fe_message = string_field m ''message''\<rparr>
           in if fe_field fe \<noteq> [] \<or> fe_message fe \<noteq> [] then fe # field_errors_of items
              else field_errors_of items))"

definition extractFieldErrors :: "gany gomap \<Rightarrow> field_error list" where
  "extractFieldErrors body =
     (let d0 = navigatePath body ''error.details'';
          details = (if d0 = GNil then navigatePath body ''details'' else d0)
      in case as_slice details of None \<Rightarrow> [] | Some xs \<Rightarrow> field_errors_of xs)"

fun output_loop :: "gany gomap \<Rightarrow> string gomap \<Rightarrow> gany gomap \<Rightarrow> gany gomap" where
  "output_loop body [] result = result"
| "output_loop body ((uiField, backendPath) # fs) result =
     output_loop body fs (gput uiField (navigatePath body backendPath) result)"

definition applyOutputMapping :: "gany gomap \<Rightarrow> output_mapping \<Rightarrow> gany gomap" where
  "applyOutputMapping body output =
     (if length (om_fields output) = 0 then body else output_loop body (om_fields output) [])"

subsection \<open>Responses\<close>

definition handleClientError :: "golib \<Rightarrow> invocation_result \<Rightarrow> command_definition \<Rightarrow> command_response" where
  "handleClientError L result cmdDef =
     (case as_map (res_body result) of
        None \<Rightarrow> empty_response\<lparr>cr_message := ''Backend returned status '' @ dec_int (res_status result)\<rparr>
      | Some body \<Rightarrow>
          (let code0 = extractString L body ''error.code'';
               msg0 = extractString L body ''error.message'';
               errorCode = (if code0 = [] then extractString L body ''code'' else code0);
               errorMsg = (if msg0 = [] then extractString L body ''message'' else msg0);
               errorMsg' = (case gget (om_error_map (cm_output cmdDef)) errorCode of
                              Some translated \<Rightarrow> translated | None \<Rightarrow> errorMsg);
               details = extractFieldErrors body;
               reverseMap = ReverseFieldMap (im_field_projection (cm_input cmdDef))
           in empty_response\<lparr>cr_message := errorMsg',
                cr_errors := List.map (\<lambda>fe. fe\<lparr>fe_field := reversed_field reverseMap (fe_field fe)\<rparr>)
                               details\<rparr>))"

definition handleResponse :: "golib \<Rightarrow> invocation_result \<Rightarrow> command_definition \<Rightarrow> command_response" where
  "handleResponse L result cmdDef =
     (let statusCode = res_status result in
      if statusCode \<ge> 200 \<and> statusCode < 300 then
        empty_response\<lparr>cr_success := True,
          cr_message := om_success_message (cm_output cmdDef),
          cr_result := (case as_map (res_body result) of
                          None \<Rightarrow> None | Some body \<Rightarrow> Some (applyOutputMapping body (cm_output cmdDef)))\<rparr>
      else if statusCode \<ge> 400 \<and> statusCode < 500 then handleClientError L result cmdDef
      else empty_response\<lparr>cr_message := ''An internal error occurred. Please try again later.''\<rparr>)"

subsection \<open>Execute and Validate\<close>

text \<open>The errors of step 6, none when the step does not apply.\<close>

definition body_errors :: "'w command_executor \<Rightarrow> command_definition \<Rightarrow> gany \<Rightarrow> validation_error list" where
  "body_errors e cmdDef body =
     (case ce_index e of
        None \<Rightarrow> []
      | Some idx \<Rightarrow>
          if ob_type (cm_operation cmdDef) = ''openapi'' \<and> ob_service_id (cm_operation cmdDef) \<noteq> []
          then (case as_map body of
                  None \<Rightarrow> []
                | Some bodyMap \<Rightarrow>
                    ValidateRequest (ce_content_get e) idx (ob_service_id (cm_operation cmdDef))
                      (ob_operation_id (cm_operation cmdDef)) bodyMap)
          else [])"

definition Execute ::
  "'w command_executor \<Rightarrow> request_context option \<Rightarrow> capability_set \<Rightarrow> string \<Rightarrow> command_input \<Rightarrow> 'w \<Rightarrow>
   (command_response \<times> go_error option) \<times> 'w" where
  "Execute e rctx caps commandID input w =
     (case GetCommand (ce_registry e) commandID of
        None \<Rightarrow>
          ((empty_response, Some (Envelope (NewNotFoundError
             (''command '' @ quote (ce_lib e) commandID @ '' not found'')))), w)
      | Some cmdDef \<Rightarrow>
          if denied caps (cm_capabilities cmdDef) then
            ((empty_response, Some (Envelope (NewForbiddenError
               (''insufficient capabilities for command '' @ quote (ce_lib e) commandID)))), w)
          else
            (case MapInput (ce_lib e) (cm_input cmdDef) input rctx None of
               Inl err \<Rightarrow>
                 ((empty_response, Some (Envelope (NewBadRequestError
                    (''input mapping error: '' @ error_message err)))), w)
             | Inr invInput \<Rightarrow>
                 (let valErrs = body_errors e cmdDef (in_body invInput) in
                  if length valErrs > 0 then
                    (let fieldErrors = translateValidationErrors valErrs
                           (ReverseFieldMap (im_field_projection (cm_input cmdDef)))
                     in ((empty_response\<lparr>cr_errors := fieldErrors\<rparr>,
                          Some (Envelope (NewValidationError fieldErrors))), w))
                  else
                    (let (r, w') = ce_invokers e rctx (cm_operation cmdDef) invInput w in
                     case r of
                       Inl err \<Rightarrow> ((empty_response, Some err), w')
                     | Inr result \<Rightarrow>
                         (let resp = handleResponse (ce_lib e) result cmdDef in
                          if \<not> cr_success resp
                          then ((resp, Some (Envelope (NewBadRequestError (cr_message resp)))), w')
                          else ((resp, None), w'))))))"

definition ValidateCommand ::
  "'w command_executor \<Rightarrow> request_context option \<Rightarrow> capability_set \<Rightarrow> string \<Rightarrow> command_input \<Rightarrow>
   field_error list" where
  "ValidateCommand e rctx caps commandID input =
     (case GetCommand (ce_registry e) commandID of
        None \<Rightarrow>
          [\<lparr>fe_field = [], fe_code = ''NOT_FOUND'',
            fe_message = ''command '' @ quote (ce_lib e) commandID @ '' not found''\<rparr>]
      | Some cmdDef \<Rightarrow>
          if denied caps (cm_capabilities cmdDef) then
            [\<lparr>fe_field = [], fe_code = ''FORBIDDEN'', fe_message = ''insufficient capabilities''\<rparr>]
          else
            (case MapInput (ce_lib e) (cm_input cmdDef) input rctx None of
               Inl err \<Rightarrow> [\<lparr>fe_field = [], fe_code = ''MAPPING_ERROR'', fe_message = error_message err\<rparr>]
             | Inr invInput \<Rightarrow>
                 (let valErrs = body_errors e cmdDef (in_body invInput) in
                  if length valErrs = 0 then []
                  else translateValidationErrors valErrs
                         (ReverseFieldMap (im_field_projection (cm_input cmdDef))))))"

subsection \<open>Lemmas\<close>

lemma length_translate [simp]: "length (translateValidationErrors vs m) = length vs"
  by (induction vs) auto

lemma translate_Nil [simp]: "translateValidationErrors vs m = [] \<longleftrightarrow> vs = []"
  by (cases vs) auto

lemma handleClientError_fails: "\<not> cr_success (handleClientError L result cmdDef)"
  by (auto simp: handleClientError_def empty_response_def Let_def split: option.splits)

lemma handleResponse_success:
  "cr_success (handleResponse L result cmdDef) \<longleftrightarrow> 200 \<le> res_status result \<and> res_status result < 300"
  using handleClientError_fails [of L result cmdDef]
  by (auto simp: handleResponse_def Let_def empty_response_def)

text \<open>What must hold for a command to reach its backend, and what is sent there.\<close>

definition admitted ::
  "'w command_executor \<Rightarrow> request_context option \<Rightarrow> capability_set \<Rightarrow> string \<Rightarrow> command_input \<Rightarrow>
   command_definition \<Rightarrow> invocation_input \<Rightarrow> bool" where
  "admitted e rctx caps commandID input cmdDef invInput \<longleftrightarrow>
     GetCommand (ce_registry e) commandID = Some cmdDef \<and> \<not> denied caps (cm_capabilities cmdDef) \<and>
     MapInput (ce_lib e) (cm_input cmdDef) input rctx None = Inr invInput \<and>
     body_errors e cmdDef (in_body invInput) = []"

lemma Execute_admitted:
  assumes "admitted e rctx caps commandID input cmdDef invInput"
  shows "Execute e rctx caps commandID input w =
    (let (r, w') = ce_invokers e rctx (cm_operation cmdDef) invInput w in
     case r of
       Inl err \<Rightarrow> ((empty_response, Some err), w')
     | Inr result \<Rightarrow>
         (let resp = handleResponse (ce_lib e) result cmdDef in
          if \<not> cr_success resp
          then ((resp, Some (Envelope (NewBadRequestError (cr_message resp)))), w')
          else ((resp, None), w')))"
  using assms by (simp add: admitted_def Execute_def)

lemma Execute_not_admitted:
  assumes "\<And>cmdDef invInput. \<not> admitted e rctx caps commandID input cmdDef invInput"
  shows "snd (Execute e rctx caps commandID input w) = w"
    and "snd (fst (Execute e rctx caps commandID input w)) \<noteq> None"
    and "ValidateCommand e rctx caps commandID input \<noteq> []"
  using assms
  by (auto simp: admitted_def Execute_def ValidateCommand_def Let_def split: option.splits sum.splits)

lemma Validate_admitted:
  "admitted e rctx caps commandID input cmdDef invInput \<Longrightarrow>
   ValidateCommand e rctx caps commandID input = []"
  by (simp add: admitted_def ValidateCommand_def)

lemma word_at_self: "prefix w s \<Longrightarrow> word_at s w"
proof -
  have "word_at (w @ r) w" for r
    by (induction w) (auto simp: Let_def)
  then show "prefix w s \<Longrightarrow> word_at s w" by (auto simp: prefix_def)
qed

lemma containsWord_contains: "contains s w \<Longrightarrow> containsWord s w"
proof (induction s)
  case Nil
  then show ?case by simp
next
  case (Cons c cs)
  obtain a b where "c # cs = a @ w @ b" using Cons.prems by (auto simp: contains_iff)
  then have "length (c # cs) = length (a @ w @ b)" by (rule arg_cong)
  then have "length w \<le> length (c # cs)" by simp
  with Cons show ?case by (auto intro: word_at_self)
qed

lemma translate_missing:
  assumes "[] \<notin> set reqs"
  shows "translateValidationErrors (missing_fields reqs body) m =
    List.map (\<lambda>r. \<lparr>fe_field = reversed_field m r, fe_code = ''REQUIRED'',
                fe_message = r @ '' is required''\<rparr>) (filter (\<lambda>r. gget body r = None) reqs)"
  using assms
proof (induction reqs)
  case Nil
  show ?case by simp
next
  case (Cons r reqs)
  have "contains (r @ '' is required'') ''required''"
    unfolding contains_iff by (rule exI [of _ "r @ '' is ''"], rule exI [of _ "[]"]) simp
  then have "containsWord (r @ '' is required'') ''required''" by (rule containsWord_contains)
  with Cons show ?case by auto
qed

subsection \<open>Properties\<close>

text \<open>
  C2. A command changes the outside world only through one backend call, made only when the command
  exists, the caller holds all its capabilities, its input mapping succeeds and the mapped body
  passes validation; the call is the command's own operation with the mapped input.
\<close>

theorem backend_call_guarded:
  assumes "snd (Execute e rctx caps commandID input w) \<noteq> w"
  shows "\<exists>cmdDef invInput. admitted e rctx caps commandID input cmdDef invInput \<and>
    snd (Execute e rctx caps commandID input w) =
      snd (ce_invokers e rctx (cm_operation cmdDef) invInput w)"
proof -
  obtain cmdDef invInput where ad: "admitted e rctx caps commandID input cmdDef invInput"
    using Execute_not_admitted(1) [of e rctx caps commandID input w] assms by blast
  from Execute_admitted [OF this, of w]
  have "snd (Execute e rctx caps commandID input w) =
      snd (ce_invokers e rctx (cm_operation cmdDef) invInput w)"
    by (simp split: prod.splits sum.splits add: Let_def)
  with ad show ?thesis by blast
qed

text \<open>An invoker that records its calls and always gives one answer.\<close>

definition recording ::
  "go_error + invocation_result \<Rightarrow> (operation_binding \<times> invocation_input) list invoke_fn" where
  "recording answer = (\<lambda>rctx b i calls. (answer, calls @ [(b, i)]))"

definition demo_executor ::
  "string list \<Rightarrow> go_error + invocation_result \<Rightarrow>
   (operation_binding \<times> invocation_input) list command_executor" where
  "demo_executor caps answer =
     \<lparr>ce_lib = demo_lib,
      ce_registry = Replace (\<lambda>d. d) [(empty_domain ''orders'')\<lparr>dd_commands :=
        [\<lparr>cm_id = ''place'', cm_capabilities = caps,
          cm_operation = \<lparr>ob_type = ''openapi'', ob_operation_id = ''createOrder'',
            ob_service_id = ''orders-svc'', ob_handler = []\<rparr>,
          cm_input = \<lparr>im_path_params = [], im_query_params = [], im_header_params = [],
            im_body_mapping = [], im_body_template = [],
            im_field_projection = [(''qty'', ''input.amount'')]\<rparr>,
          cm_output = \<lparr>om_type = [], om_fields = [], om_error_map = [], om_success_message = ''ok''\<rparr>,
          cm_idempotency = None\<rparr>]\<rparr>],
      ce_invokers = recording answer, ce_index = Some demo_index, ce_content_get = gget\<rparr>"

definition order_input :: "gany gomap \<Rightarrow> command_input" where
  "order_input m = \<lparr>ci_input = Some m, ci_route = None\<rparr>"

lemmas demo_executor_defs =
  demo_executor_def order_input_def recording_def Execute_def GetCommand_def Replace_fields
  empty_domain_def denied_def MapInput_def buildBody_def to_lower_def is_ascii_def lower_char_def
  body_errors_def ValidateRequest_def map_in_any_def

theorem backend_call_guarded_witness:
  "\<exists>cmdDef invInput.
     admitted (demo_executor [] (Inl (Plain ''down''))) None [] ''place''
       (order_input [(''sku'', GStr ''a''), (''qty'', GInt 1)]) cmdDef invInput \<and>
     snd (Execute (demo_executor [] (Inl (Plain ''down''))) None [] ''place''
       (order_input [(''sku'', GStr ''a''), (''qty'', GInt 1)]) []) =
     snd (ce_invokers (demo_executor [] (Inl (Plain ''down''))) None (cm_operation cmdDef) invInput [])"
  by (rule backend_call_guarded) (simp add: demo_executor_defs demo_index_defs)

text \<open>
  C18. A command succeeds exactly when it is admitted and its backend answers with a 2xx status.
\<close>

theorem execute_ok_iff:
  "snd (fst (Execute e rctx caps commandID input w)) = None \<longleftrightarrow>
     (\<exists>cmdDef invInput result w'. admitted e rctx caps commandID input cmdDef invInput \<and>
        ce_invokers e rctx (cm_operation cmdDef) invInput w = (Inr result, w') \<and>
        200 \<le> res_status result \<and> res_status result < 300)"
proof (cases "\<exists>cmdDef invInput. admitted e rctx caps commandID input cmdDef invInput")
  case False
  then show ?thesis using Execute_not_admitted(2) [of e rctx caps commandID input w] by blast
next
  case True
  then obtain cmdDef invInput where ad: "admitted e rctx caps commandID input cmdDef invInput" by blast
  have uniq: "c = cmdDef \<and> i = invInput" if "admitted e rctx caps commandID input c i" for c i
    using ad that by (auto simp: admitted_def)
  obtain r w1 where call: "ce_invokers e rctx (cm_operation cmdDef) invInput w = (r, w1)"
    by (metis prod.exhaust)
  have "snd (fst (Execute e rctx caps commandID input w)) = None \<longleftrightarrow>
      (\<exists>result. r = Inr result \<and> cr_success (handleResponse (ce_lib e) result cmdDef))"
    using Execute_admitted [OF ad, of w] call by (cases r) (auto simp: Let_def)
  also have "\<dots> \<longleftrightarrow> (\<exists>result. r = Inr result \<and> 200 \<le> res_status result \<and> res_status result < 300)"
    by (simp only: handleResponse_success)
  also have "\<dots> \<longleftrightarrow> (\<exists>c i result w'. admitted e rctx caps commandID input c i \<and>
        ce_invokers e rctx (cm_operation c) i w = (Inr result, w') \<and>
        200 \<le> res_status result \<and> res_status result < 300)"
    using ad call uniq by (metis prod.inject)
  finally show ?thesis .
qed

text \<open>
  C19. The dry run agrees with the real run: \<open>Validate\<close> reports nothing exactly when \<open>Execute\<close> with
  the same arguments calls the backend.
\<close>

theorem dry_run_agrees:
  assumes "ce_invokers e = recording answer"
  shows "ValidateCommand e rctx caps commandID input = [] \<longleftrightarrow>
    snd (Execute e rctx caps commandID input []) \<noteq> []"
proof (cases "\<exists>cmdDef invInput. admitted e rctx caps commandID input cmdDef invInput")
  case False
  then show ?thesis
    using Execute_not_admitted(1,3) [of e rctx caps commandID input] by metis
next
  case True
  then obtain cmdDef invInput where ad: "admitted e rctx caps commandID input cmdDef invInput" by blast
  then show ?thesis
    using Execute_admitted [OF ad, of "[]"] Validate_admitted [OF ad] assms
    by (simp add: recording_def Let_def split: sum.splits)
qed

theorem dry_run_agrees_witness:
  "ValidateCommand (demo_executor [] (Inl (Plain ''down''))) None [] ''place'' (order_input []) = [] \<longleftrightarrow>
    snd (Execute (demo_executor [] (Inl (Plain ''down''))) None [] ''place'' (order_input []) []) \<noteq> []"
  by (rule dry_run_agrees) (simp add: demo_executor_def)

text \<open>
  A field error speaks of the field the user filled in: every required backend field that the
  mapped body lacks becomes one error with the code REQUIRED and the name of the input field it is
  projected from.
\<close>

theorem required_errors:
  assumes "[] \<notin> set reqs"
  shows "translateValidationErrors (missing_fields reqs body) reverseMap =
    List.map (\<lambda>r. \<lparr>fe_field = reversed_field reverseMap r, fe_code = ''REQUIRED'',
                fe_message = r @ '' is required''\<rparr>) (filter (\<lambda>r. gget body r = None) reqs)"
  using assms by (rule translate_missing)

theorem required_errors_witness:
  "translateValidationErrors (missing_fields [''sku'', ''qty''] [(''sku'', GStr ''a'')])
       (ReverseFieldMap [(''qty'', ''input.amount'')]) =
    List.map (\<lambda>r. \<lparr>fe_field = reversed_field (ReverseFieldMap [(''qty'', ''input.amount'')]) r,
        fe_code = ''REQUIRED'', fe_message = r @ '' is required''\<rparr>)
      (filter (\<lambda>r. gget [(''sku'', GStr ''a'')] r = None) [''sku'', ''qty''])"
  by (rule required_errors) simp

text \<open>
  A failure of the backend is reported as a mistake of the client: when the backend of an
  admitted command answers with a 5xx status, the error of \<open>Execute\<close> has the code BAD_REQUEST.
\<close>

theorem server_error_as_bad_request:
  assumes "admitted e rctx caps commandID input cmdDef invInput"
    and "ce_invokers e rctx (cm_operation cmdDef) invInput w = (Inr result, w')"
    and "500 \<le> res_status result"
  shows "snd (fst (Execute e rctx caps commandID input w)) =
    Some (Envelope (NewBadRequestError ''An internal error occurred. Please try again later.''))"
  using Execute_admitted [OF assms(1), of w] assms(2,3)
  by (simp add: handleResponse_def empty_response_def Let_def)

theorem server_error_as_bad_request_witness:
  "snd (fst (Execute (demo_executor [] (Inr \<lparr>res_status = 503, res_body = GNil, res_headers = []\<rparr>)) None []
      ''place'' (order_input [(''sku'', GStr ''a''), (''qty'', GInt 1)]) [])) =
    Some (Envelope (NewBadRequestError ''An internal error occurred. Please try again later.''))"
proof (rule server_error_as_bad_request
      [where result = "\<lparr>res_status = 503, res_body = GNil, res_headers = []\<rparr>"])
  show "admitted (demo_executor [] (Inr \<lparr>res_status = 503, res_body = GNil, res_headers = []\<rparr>)) None []
      ''place'' (order_input [(''sku'', GStr ''a''), (''qty'', GInt 1)])
      (the (GetCommand (ce_registry (demo_executor [] (Inl (Plain [])))) ''place''))
      (empty_input\<lparr>in_body := GMap [(''sku'', GStr ''a''), (''qty'', GInt 1)]\<rparr>)"
    by (simp add: admitted_def demo_executor_defs demo_index_defs empty_input_def)
qed (simp_all add: demo_executor_def recording_def)

end
