(* ===== verification/Menu.thy ===== *)
theory Menu imports Pages begin

section \<open>The navigation menu (pkg/metadata/menu.go)\<close>

text \<open>
  \<open>GetMenu\<close> filters domains and their children by capabilities, fetches badges through the
  invokers and sorts. \<open>sort.Slice\<close> is an argument that sorts a list of keyed elements; the
  standard library promises a sorted permutation (\<open>sorts_pairs\<close>), not stability.
\<close>

type_synonym pair_sorter = "(int \<times> navigation_node) list \<Rightarrow> (int \<times> navigation_node) list"

definition sorts_pairs :: "pair_sorter \<Rightarrow> bool" where
  "sorts_pairs srt \<longleftrightarrow> (\<forall>xs. mset (srt xs) = mset xs \<and> sorted (List.map fst (srt xs)))"

record 'w menu_provider =
  mp_lib :: golib
  mp_registry :: snapshot
  mp_invokers :: "'w invoke_fn option"
  mp_sort :: pair_sorter

definition extractBadgeCount :: "golib \<Rightarrow> gany \<Rightarrow> string \<Rightarrow> int" where
  "extractBadgeCount L body field =
     (if field = [] \<or> body = GNil then 0
      else case as_map body of
        None \<Rightarrow> 0
      | Some m \<Rightarrow>
          (case gget m field of
             None \<Rightarrow> 0
           | Some val \<Rightarrow>
               (case val of GFloat v \<Rightarrow> int_of_float L v | GInt v \<Rightarrow> v | GInt64 v \<Rightarrow> v | _ \<Rightarrow> 0)))"

definition resolveBadge ::
  "'w menu_provider \<Rightarrow> request_context option \<Rightarrow> string \<Rightarrow> badge_definition \<Rightarrow> 'w \<Rightarrow>
   badge_descriptor option \<times> 'w" where
  "resolveBadge p rctx domain badge w =
     (case mp_invokers p of
        None \<Rightarrow> (None, w)
      | Some invoke \<Rightarrow>
          (let (r, w') = invoke rctx
             \<lparr>ob_type = ''openapi'', ob_operation_id = bd_operation_id badge, ob_service_id = domain,
              ob_handler = []\<rparr> empty_input w
           in case r of
                Inl err \<Rightarrow> (None, w')
              | Inr result \<Rightarrow>
                  (let count = extractBadgeCount (mp_lib p) (res_body result) (bd_field badge) in
                   if count \<le> 0 then (None, w')
                   else (Some \<lparr>bx_count = count, bx_style = bd_style badge\<rparr>, w'))))"

definition child_badge ::
  "'w menu_provider \<Rightarrow> request_context option \<Rightarrow> string \<Rightarrow> nav_child_definition \<Rightarrow> 'w \<Rightarrow>
   badge_descriptor option \<times> 'w" where
  "child_badge p rctx domain child w =
     (case nc_badge child of
        None \<Rightarrow> (None, w)
      | Some badge \<Rightarrow>
          if bd_operation_id badge \<noteq> [] then resolveBadge p rctx domain badge w else (None, w))"

definition child_node :: "nav_child_definition \<Rightarrow> badge_descriptor option \<Rightarrow> navigation_node" where
  "child_node child badge =
     NavigationNode (nc_page_id child) (nc_label child) (nc_icon child) (nc_route child)
       (nc_page_id child) [] badge"

fun build_children ::
  "'w menu_provider \<Rightarrow> request_context option \<Rightarrow> capability_set \<Rightarrow> string \<Rightarrow>
   nav_child_definition list \<Rightarrow> 'w \<Rightarrow> (int \<times> navigation_node) list \<times> 'w" where
  "build_children p rctx caps domain [] w = ([], w)"
| "build_children p rctx caps domain (child # children) w =
     (if denied caps (nc_capabilities child) then build_children p rctx caps domain children w
      else
        (let (badge, w1) = child_badge p rctx domain child w;
             (rest, w2) = build_children p rctx caps domain children w1
         in ((nc_order child, child_node child badge) # rest, w2)))"

fun build_nodes ::
  "'w menu_provider \<Rightarrow> request_context option \<Rightarrow> capability_set \<Rightarrow> domain_definition list \<Rightarrow> 'w \<Rightarrow>
   navigation_node list \<times> 'w" where
  "build_nodes p rctx caps [] w = ([], w)"
| "build_nodes p rctx caps (domain # domains) w =
     (let nv = dd_navigation domain in
      if denied caps (nd_capabilities nv) then build_nodes p rctx caps domains w
      else
        (let (children, w1) = build_children p rctx caps (dd_domain domain) (nd_children nv) w;
             node = NavigationNode (dd_domain domain) (nd_label nv) (nd_icon nv) [] []
                      (List.map snd (mp_sort p children)) None;
             (rest, w2) = build_nodes p rctx caps domains w1
         in (node # rest, w2)))"

fun domainOrder :: "domain_definition list \<Rightarrow> string \<Rightarrow> int" where
  "domainOrder [] domainID = 0"
| "domainOrder (d # ds) domainID =
     (if dd_domain d = domainID then nd_order (dd_navigation d) else domainOrder ds domainID)"

definition GetMenu ::
  "'w menu_provider \<Rightarrow> request_context option \<Rightarrow> capability_set \<Rightarrow> 'w \<Rightarrow> navigation_tree \<times> 'w" where
  "GetMenu p rctx caps w =
     (let domains = AllDomains (mp_registry p);
          (nodes, w') = build_nodes p rctx caps domains w
      in (\<lparr>nt_items = List.map snd (mp_sort p
             (List.map (\<lambda>n. (domainOrder domains (nn_id n), n)) nodes))\<rparr>, w'))"

subsection \<open>Lemmas\<close>

lemma sorts_mset: "sorts_pairs srt \<Longrightarrow> mset (srt xs) = mset xs"
  and sorts_sorted: "sorts_pairs srt \<Longrightarrow> sorted (List.map fst (srt xs))"
  by (simp_all add: sorts_pairs_def)

lemma child_node_sel [simp]:
  "nn_page_id (child_node c b) = nc_page_id c" "nn_id (child_node c b) = nc_page_id c"
  by (simp_all add: child_node_def)

lemma build_children_pages:
  "List.map (\<lambda>(n, x). (n, nn_page_id x)) (fst (build_children p rctx caps dn cs w)) =
     List.map (\<lambda>c. (nc_order c, nc_page_id c)) (filter (\<lambda>c. \<not> denied caps (nc_capabilities c)) cs)"
  by (induction p rctx caps dn cs w rule: build_children.induct)
     (auto simp: Let_def split: prod.splits)

text \<open>A menu node against the domain it was built from, up to the order of the children.\<close>

definition node_of :: "capability_set \<Rightarrow> domain_definition \<Rightarrow> navigation_node \<Rightarrow> bool" where
  "node_of caps d n \<longleftrightarrow>
     nn_id n = dd_domain d \<and> nn_label n = nd_label (dd_navigation d) \<and>
     (\<exists>keyed. List.map snd keyed = nn_children n \<and> sorted (List.map fst keyed) \<and>
        image_mset (\<lambda>(k, x). (k, nn_page_id x)) (mset keyed) =
          image_mset (\<lambda>c. (nc_order c, nc_page_id c))
            (mset (filter (\<lambda>c. HasAll caps (nc_capabilities c)) (nd_children (dd_navigation d)))))"

lemma build_nodes_of:
  assumes "sorts_pairs (mp_sort p)"
  shows "list_all2 (node_of caps)
    (filter (\<lambda>d. HasAll caps (nd_capabilities (dd_navigation d))) ds)
    (fst (build_nodes p rctx caps ds w))"
  using assms
proof (induction p rctx caps ds w rule: build_nodes.induct)
  case (1 p rctx caps w)
  show ?case by simp
next
  case (2 p rctx caps domain domains w)
  let ?nv = "dd_navigation domain"
  show ?case
  proof (cases "denied caps (nd_capabilities ?nv)")
    case True
    with 2 show ?thesis by (simp add: denied_iff)
  next
    case False
    obtain children w1 where ch:
      "build_children p rctx caps (dd_domain domain) (nd_children ?nv) w = (children, w1)"
      by (metis prod.exhaust)
    let ?node = "NavigationNode (dd_domain domain) (nd_label ?nv) (nd_icon ?nv) [] []
                   (List.map snd (mp_sort p children)) None"
    have "image_mset (\<lambda>(k, x). (k, nn_page_id x)) (mset (mp_sort p children)) =
        mset (List.map (\<lambda>(k, x). (k, nn_page_id x)) children)"
      using sorts_mset [OF "2.prems"] by simp
    also have "\<dots> = mset (List.map (\<lambda>c. (nc_order c, nc_page_id c))
        (filter (\<lambda>c. HasAll caps (nc_capabilities c)) (nd_children ?nv)))"
      using build_children_pages [of p rctx caps "dd_domain domain" "nd_children ?nv" w] ch
      by (simp add: denied_iff)
    finally have "node_of caps domain ?node"
      using sorts_sorted [OF "2.prems"]
      by (auto simp: node_of_def intro!: exI [of _ "mp_sort p children"])
    moreover have "list_all2 (node_of caps)
        (filter (\<lambda>d. HasAll caps (nd_capabilities (dd_navigation d))) domains)
        (fst (build_nodes p rctx caps domains w1))"
      using "2.IH"(2) [OF refl False ch [symmetric] refl refl] "2.prems" by simp
    ultimately show ?thesis
      using False ch by (auto simp: Let_def denied_iff split: prod.splits)
  qed
qed

subsection \<open>Properties\<close>

text \<open>
  C35. The menu is exact: its nodes are, in some order, one for each domain whose navigation
  capabilities the caller has, and each node's children are the pages of that domain whose
  capabilities the caller has, sorted by their order; nothing is lost or invented by sorting,
  whatever the badge calls do.
\<close>

theorem menu_exact:
  assumes "sorts_pairs (mp_sort p)"
  shows "\<exists>nodes. mset nodes = mset (nt_items (fst (GetMenu p rctx caps w))) \<and>
    list_all2 (node_of caps)
      (filter (\<lambda>d. HasAll caps (nd_capabilities (dd_navigation d))) (AllDomains (mp_registry p))) nodes"
proof (intro exI conjI)
  let ?nodes = "fst (build_nodes p rctx caps (AllDomains (mp_registry p)) w)"
  show "list_all2 (node_of caps)
      (filter (\<lambda>d. HasAll caps (nd_capabilities (dd_navigation d))) (AllDomains (mp_registry p))) ?nodes"
    by (rule build_nodes_of [OF assms])
  let ?key = "\<lambda>n. (domainOrder (AllDomains (mp_registry p)) (nn_id n), n)"
  have "mset (nt_items (fst (GetMenu p rctx caps w))) =
      image_mset snd (mset (mp_sort p (List.map ?key ?nodes)))"
    by (simp add: GetMenu_def Let_def split: prod.splits)
  also have "\<dots> = mset (List.map snd (List.map ?key ?nodes))"
    by (simp only: sorts_mset [OF assms] mset_map)
  finally show "mset ?nodes = mset (nt_items (fst (GetMenu p rctx caps w)))" by (simp add: comp_def)
qed

definition demo_menu :: "unit menu_provider" where
  "demo_menu = \<lparr>mp_lib = demo_lib, mp_registry = Replace (\<lambda>d. d) [valid_domain ''orders'' [] []],
     mp_invokers = None, mp_sort = sort_key fst\<rparr>"

lemma sort_key_sorts: "sorts_pairs (sort_key fst)"
  by (simp add: sorts_pairs_def)

theorem menu_exact_witness:
  "\<exists>nodes. mset nodes = mset (nt_items (fst (GetMenu demo_menu None [] ()))) \<and>
     list_all2 (node_of [])
       (filter (\<lambda>d. HasAll [] (nd_capabilities (dd_navigation d))) (AllDomains (mp_registry demo_menu))) nodes"
  by (rule menu_exact) (simp add: demo_menu_def sort_key_sorts)

text \<open>
  The top-level entries of the menu come in the order of their domains.
\<close>

theorem menu_sorted:
  assumes "sorts_pairs (mp_sort p)"
  shows "sorted (List.map (\<lambda>n. domainOrder (AllDomains (mp_registry p)) (nn_id n))
    (nt_items (fst (GetMenu p rctx caps w))))"
proof -
  let ?key = "\<lambda>n. (domainOrder (AllDomains (mp_registry p)) (nn_id n), n)"
  let ?xs = "List.map ?key (fst (build_nodes p rctx caps (AllDomains (mp_registry p)) w))"
  have "set (mp_sort p ?xs) = set ?xs"
    using sorts_mset [OF assms, of ?xs] by (rule mset_eq_setD)
  then have "\<forall>kn\<in>set (mp_sort p ?xs). kn = ?key (snd kn)" by auto
  then have "List.map (\<lambda>n. domainOrder (AllDomains (mp_registry p)) (nn_id n))
      (List.map snd (mp_sort p ?xs)) = List.map fst (mp_sort p ?xs)"
    by auto
  moreover have "nt_items (fst (GetMenu p rctx caps w)) = List.map snd (mp_sort p ?xs)"
    by (simp add: GetMenu_def Let_def split: prod.splits)
  ultimately show ?thesis using sorts_sorted [OF assms, of ?xs] by (simp only:)
qed

theorem menu_sorted_witness:
  "sorted (List.map (\<lambda>n. domainOrder (AllDomains (mp_registry demo_menu)) (nn_id n))
    (nt_items (fst (GetMenu demo_menu None [] ()))))"
  by (rule menu_sorted) (simp add: demo_menu_def sort_key_sorts)

end
