(* ===== verification/Resources.thy ===== *)
theory Resources imports Pages begin

section \<open>Resources and schemas (pkg/metadata/resource.go, schema.go)\<close>

text \<open>
  A resource type is matched to the first table page of a domain; its item operation is searched
  by name in the OpenAPI index. Schemas are derived from forms and pages.
\<close>

subsection \<open>Resources\<close>

record 'w resource_provider = "'w provider" +
  rp_index :: index

record resource_index =
  ri_list_page :: page_definition
  ri_service_id :: string
  ri_get_op :: string

definition id_prefix :: "string \<Rightarrow> string" where
  "id_prefix s = takeWhile (\<lambda>c. c \<noteq> CHR ''.'') s"

definition trim_suffix_s :: "string \<Rightarrow> string" where
  "trim_suffix_s s = (if has_suffix s ''s'' then take (length s - 1) s else s)"

fun find_get :: "golib \<Rightarrow> string \<Rightarrow> string list \<Rightarrow> string" where
  "find_get L singular [] = []"
| "find_get L singular (opID # ops) =
     (let lower = to_lower L opID in
      if has_prefix lower ''get'' \<and> contains lower (to_lower L singular) then opID
      else find_get L singular ops)"

definition findGetOperation :: "golib \<Rightarrow> index \<Rightarrow> string \<Rightarrow> string \<Rightarrow> string" where
  "findGetOperation L idx serviceID resourceType =
     find_get L (trim_suffix_s resourceType) (AllOperationIDs idx serviceID)"

fun find_list_page :: "string \<Rightarrow> string \<Rightarrow> page_definition list \<Rightarrow> (page_definition \<times> string) option" where
  "find_list_page domain resourceType [] = None"
| "find_list_page domain resourceType (pg # pgs) =
     (case pd_table pg of
        Some t \<Rightarrow>
          if (domain = resourceType \<or> id_prefix (pd_id pg) = resourceType) \<and> pd_layout pg = ''table''
          then Some (pg, ds_service_id (td_data_source t))
          else find_list_page domain resourceType pgs
      | None \<Rightarrow> find_list_page domain resourceType pgs)"

fun find_in_domains ::
  "golib \<Rightarrow> index \<Rightarrow> string \<Rightarrow> domain_definition list \<Rightarrow> resource_index option" where
  "find_in_domains L idx resourceType [] = None"
| "find_in_domains L idx resourceType (domain # domains) =
     (case find_list_page (dd_domain domain) resourceType (dd_pages domain) of
        None \<Rightarrow> find_in_domains L idx resourceType domains
      | Some (pg, serviceID) \<Rightarrow>
          Some \<lparr>ri_list_page = pg, ri_service_id = serviceID,
                ri_get_op = findGetOperation L idx serviceID resourceType\<rparr>)"

definition findResource :: "'w resource_provider \<Rightarrow> string \<Rightarrow> resource_index option" where
  "findResource p resourceType =
     find_in_domains (pv_lib p) (rp_index p) resourceType (AllDomains (pv_registry p))"

definition GetResourceList ::
  "'w resource_provider \<Rightarrow> request_context option \<Rightarrow> capability_set \<Rightarrow> string \<Rightarrow> data_params \<Rightarrow> 'w \<Rightarrow>
   (go_error + data_response) \<times> 'w" where
  "GetResourceList p rctx caps resourceType params w =
     (case findResource p resourceType of
        None \<Rightarrow> (Inl (not_found_error (pv_lib p) ''resource type'' resourceType), w)
      | Some ri \<Rightarrow>
          (let page = ri_list_page ri in
           if denied caps (pd_capabilities page)
           then (Inl (forbidden_error (pv_lib p) ''resource'' resourceType), w)
           else
             (case pd_table page of
                None \<Rightarrow>
                  (Inl (Envelope (NewBadRequestError
                     (''resource type '' @ quote (pv_lib p) resourceType @ '' has no data source''))), w)
              | Some table \<Rightarrow>
                  (let ds = td_data_source table;
                       (r, w') = pv_invokers p rctx (source_binding ds) (buildDataInput params) w
                   in case r of
                        Inl err \<Rightarrow> (Inl err, w')
                      | Inr result \<Rightarrow>
                          (Inr (applyResponseMapping (pv_lib p) result (ds_mapping ds) params), w')))))"

definition GetResourceItem ::
  "'w resource_provider \<Rightarrow> request_context option \<Rightarrow> capability_set \<Rightarrow> string \<Rightarrow> string \<Rightarrow> 'w \<Rightarrow>
   (go_error + gany gomap) \<times> 'w" where
  "GetResourceItem p rctx caps resourceType i w =
     (case findResource p resourceType of
        None \<Rightarrow> (Inl (not_found_error (pv_lib p) ''resource type'' resourceType), w)
      | Some ri \<Rightarrow>
          if denied caps (pd_capabilities (ri_list_page ri))
          then (Inl (forbidden_error (pv_lib p) ''resource'' resourceType), w)
          else if ri_get_op ri = [] \<or> ri_service_id ri = []
          then (Inl (Envelope (NewNotFoundError
                  (''no get operation found for resource type '' @ quote (pv_lib p) resourceType))), w)
          else
            (let (r, w') = pv_invokers p rctx
               \<lparr>ob_type = ''openapi'', ob_operation_id = ri_get_op ri,
                ob_service_id = ri_service_id ri, ob_handler = []\<rparr>
               (empty_input\<lparr>in_body := GMap [(''id'', GStr i)]\<rparr>) w
             in case r of
                  Inl err \<Rightarrow> (Inl err, w')
                | Inr result \<Rightarrow>
                    (case as_map (res_body result) of
                       None \<Rightarrow> (Inr [], w')
                     | Some body \<Rightarrow> (Inr body, w'))))"

subsection \<open>Schemas\<close>

record schema_field =
  zf_name :: string
  zf_type :: string
  zf_label :: string
  zf_help_text :: string
  zf_placeholder :: string
  zf_required :: bool
  zf_readonly :: bool
  zf_sortable :: bool
  zf_filterable :: bool
  zf_validation :: "validation_descriptor option"
  zf_options :: "(string \<times> string) list"
  zf_priority :: int
  zf_visible_when :: "(string \<times> string) option"
  zf_format :: string

record schema_response =
  zr_schema_id :: string
  zr_title :: string
  zr_fields :: "schema_field list"

definition mapFieldType :: "string \<Rightarrow> string" where
  "mapFieldType t =
     (if t = ''text'' then ''string'' else if t = ''textarea'' then ''string''
      else if t = ''number'' then ''number'' else if t = ''currency'' then ''money''
      else if t = ''select'' then ''enum'' else if t = ''reference'' then ''reference''
      else if t = ''date_range'' then ''date'' else if t = ''file'' then ''file''
      else if t = ''badge'' then ''enum'' else t)"

definition mapColumnType :: "string \<Rightarrow> string" where
  "mapColumnType t =
     (if t = ''text'' then ''string'' else if t = ''badge'' then ''enum''
      else if t = ''currency'' then ''money'' else if t = ''datetime'' then ''datetime''
      else if t = ''date_range'' then ''date'' else t)"

definition priorityFromIndex :: "nat \<Rightarrow> int" where
  "priorityFromIndex i = (if i < 2 then 1 else if i < 4 then 2 else if i < 6 then 3 else 4)"

definition fieldDefToSchema :: "field_definition \<Rightarrow> schema_field" where
  "fieldDefToSchema f =
     \<lparr>zf_name = fi_field f, zf_type = mapFieldType (fi_type f), zf_label = fi_label f,
      zf_help_text = fi_help_text f, zf_placeholder = fi_placeholder f,
      zf_required = fi_required f,
      zf_readonly = (fi_read_only f = ''true'' \<or> fi_read_only f = ''always''),
      zf_sortable = False, zf_filterable = False,
      zf_validation = map_option validation_of (fi_validation f),
      zf_options = (case fi_lookup f of None \<Rightarrow> []
        | Some lk \<Rightarrow> List.map (\<lambda>o1. (so_value o1, so_label o1)) (lr_static lk)),
      zf_priority = 0,
      zf_visible_when = (case fi_depends_on f of [] \<Rightarrow> None
        | dep # _ \<Rightarrow> Some (fd_field dep, fd_value dep)),
      zf_format = fi_format f\<rparr>"

definition columnToSchema :: "nat \<Rightarrow> column_definition \<Rightarrow> schema_field" where
  "columnToSchema i col =
     \<lparr>zf_name = cd_field col, zf_type = mapColumnType (cd_type col), zf_label = cd_label col,
      zf_help_text = [], zf_placeholder = [], zf_required = False, zf_readonly = False,
      zf_sortable = cd_sortable col, zf_filterable = cd_filterable col, zf_validation = None,
      zf_options = [], zf_priority = priorityFromIndex i, zf_visible_when = None,
      zf_format = cd_format col\<rparr>"

definition section_fields :: "section_definition list \<Rightarrow> schema_field list" where
  "section_fields secs = concat (List.map (\<lambda>sec. List.map fieldDefToSchema (sd_fields sec)) secs)"

definition schemaFromForm :: "string \<Rightarrow> form_definition \<Rightarrow> schema_response" where
  "schemaFromForm i form =
     \<lparr>zr_schema_id = i, zr_title = fm_title form, zr_fields = section_fields (fm_sections form)\<rparr>"

definition schemaFromPage :: "string \<Rightarrow> page_definition \<Rightarrow> schema_response" where
  "schemaFromPage i page =
     \<lparr>zr_schema_id = i, zr_title = pd_title page,
      zr_fields = (case pd_table page of
        Some t \<Rightarrow> each_from 0 (\<lambda>j col. [columnToSchema j col]) (td_columns t)
      | None \<Rightarrow> section_fields (pd_sections page))\<rparr>"

fun schemaByPrefix :: "string \<Rightarrow> domain_definition list \<Rightarrow> schema_response option" where
  "schemaByPrefix pre [] = None"
| "schemaByPrefix pre (domain # domains) =
     (case List.find (\<lambda>form. has_prefix (fm_id form) pre) (dd_forms domain) of
        Some form \<Rightarrow> Some (schemaFromForm (fm_id form) form)
      | None \<Rightarrow>
          (case List.find (\<lambda>page. has_prefix (pd_id page) pre) (dd_pages domain) of
             Some page \<Rightarrow> Some (schemaFromPage (pd_id page) page)
           | None \<Rightarrow> schemaByPrefix pre domains))"

definition GetSchema :: "golib \<Rightarrow> snapshot \<Rightarrow> string \<Rightarrow> go_error + schema_response" where
  "GetSchema L reg schemaID =
     (case GetFormDef reg schemaID of
        Some formDef \<Rightarrow> Inr (schemaFromForm schemaID formDef)
      | None \<Rightarrow>
          (case GetPageDef reg schemaID of
             Some pageDef \<Rightarrow> Inr (schemaFromPage schemaID pageDef)
           | None \<Rightarrow>
               (case schemaByPrefix schemaID (AllDomains reg) of
                  Some resp \<Rightarrow> Inr resp
                | None \<Rightarrow> Inl (not_found_error L ''schema'' schemaID))))"

subsection \<open>Lemmas\<close>

lemma find_get_found:
  "find_get L sing ops = op \<Longrightarrow> op \<noteq> [] \<Longrightarrow>
   op \<in> set ops \<and> has_prefix (to_lower L op) ''get'' \<and> contains (to_lower L op) (to_lower L sing)"
  by (induction ops) (auto simp: Let_def split: if_splits)

lemma find_list_page_Some:
  "find_list_page domain rt pgs = Some (pg, svc) \<Longrightarrow>
   pg \<in> set pgs \<and> (\<exists>t. pd_table pg = Some t \<and> svc = ds_service_id (td_data_source t)) \<and>
   pd_layout pg = ''table'' \<and> (domain = rt \<or> id_prefix (pd_id pg) = rt)"
  by (induction pgs) (auto split: option.splits if_splits)

lemma find_in_domains_Some:
  "find_in_domains L idx rt ds = Some ri \<Longrightarrow>
   (\<exists>d\<in>set ds. ri_list_page ri \<in> set (dd_pages d) \<and>
      (dd_domain d = rt \<or> id_prefix (pd_id (ri_list_page ri)) = rt)) \<and>
   ri_get_op ri = findGetOperation L idx (ri_service_id ri) rt \<and>
   (\<exists>t. pd_table (ri_list_page ri) = Some t \<and> ri_service_id ri = ds_service_id (td_data_source t))"
  by (induction ds) (auto split: option.splits dest: find_list_page_Some)

lemma each_from_single: "each_from i (\<lambda>j x. [f j x]) xs = map2 f [i..<i + length xs] xs"
  by (induction xs arbitrary: i) (auto simp: upt_rec)

subsection \<open>Properties\<close>

text \<open>
  A resource item is fetched only for a caller who may see the list page of its type, and the
  operation called is one of the index for that page's service whose name starts with get, in any
  case, and contains the singular of the type.
\<close>

theorem resource_item_guarded:
  assumes "snd (GetResourceItem p rctx caps rt i w) \<noteq> w"
  shows "\<exists>ri. findResource p rt = Some ri \<and> HasAll caps (pd_capabilities (ri_list_page ri)) \<and>
    ri_get_op ri \<in> set (ops_of (rp_index p) (ri_service_id ri)) \<and>
    has_prefix (to_lower (pv_lib p) (ri_get_op ri)) ''get'' \<and>
    contains (to_lower (pv_lib p) (ri_get_op ri)) (to_lower (pv_lib p) (trim_suffix_s rt))"
proof -
  obtain ri where ri: "findResource p rt = Some ri" "\<not> denied caps (pd_capabilities (ri_list_page ri))"
    "ri_get_op ri \<noteq> []"
    using assms by (auto simp: GetResourceItem_def split: option.splits if_splits)
  have "ri_get_op ri = findGetOperation (pv_lib p) (rp_index p) (ri_service_id ri) rt"
    using ri(1) find_in_domains_Some unfolding findResource_def by blast
  then have "find_get (pv_lib p) (trim_suffix_s rt) (AllOperationIDs (rp_index p) (ri_service_id ri)) =
      ri_get_op ri"
    by (simp add: findGetOperation_def)
  from find_get_found [OF this ri(3)] ri show ?thesis
    by (auto simp: denied_iff AllOperationIDs_def)
qed

definition orders_resource :: "(operation_binding \<times> invocation_input) list resource_provider" where
  "orders_resource = \<lparr>pv_lib = demo_lib,
     pv_registry = Replace (\<lambda>d. d) [(empty_domain ''orders'')\<lparr>dd_pages := [table_page\<lparr>pd_layout := ''table'',
        pd_table := map_option (\<lambda>t. t\<lparr>td_data_source := (td_data_source t)\<lparr>ds_service_id := ''orders-svc''\<rparr>\<rparr>)
          (pd_table table_page)\<rparr>]\<rparr>],
     pv_invokers = (\<lambda>_ b io calls. (Inr (ok_result GNil), calls @ [(b, io)])), rp_index = demo_index\<rparr>"

lemmas resource_demo_defs =
  orders_resource_def GetResourceItem_def findResource_def AllDomains_def findGetOperation_def
  AllOperationIDs_def trim_suffix_s_def has_suffix_def to_lower_def is_ascii_def lower_char_def
  provider_defs table_page_def id_prefix_def

lemma demo_op_ids: "AllOperationIDs demo_index ''orders-svc'' = [''createOrder'', ''getOrder'']"
  by (simp add: AllOperationIDs_def demo_index_defs)


lemma lower_demo_ops:
  "to_lower L ''createOrder'' = ''createorder''" "to_lower L ''getOrder'' = ''getorder''"
  "to_lower L ''order'' = ''order''"
  by (simp_all add: to_lower_def is_ascii_def lower_char_def char_of_eq_iff)

lemma demo_find_get: "findGetOperation L demo_index ''orders-svc'' ''orders'' = ''getOrder''"
  by (simp add: findGetOperation_def demo_op_ids trim_suffix_s_def has_suffix_def lower_demo_ops)

lemma demo_item:
  "snd (GetResourceItem orders_resource rctx [(''orders:view'', True)] ''orders'' ''7'' []) =
     [(\<lparr>ob_type = ''openapi'', ob_operation_id = ''getOrder'', ob_service_id = ''orders-svc'', ob_handler = []\<rparr>,
       empty_input\<lparr>in_body := GMap [(''id'', GStr ''7'')]\<rparr>)]"
  by (simp add: orders_resource_def GetResourceItem_def findResource_def AllDomains_def provider_defs
      table_page_def id_prefix_def demo_find_get Has_def)

theorem resource_item_guarded_witness:
  "\<exists>ri. findResource orders_resource ''orders'' = Some ri \<and>
     HasAll [(''orders:view'', True)] (pd_capabilities (ri_list_page ri)) \<and>
     ri_get_op ri \<in> set (ops_of (rp_index orders_resource) (ri_service_id ri)) \<and>
     has_prefix (to_lower (pv_lib orders_resource) (ri_get_op ri)) ''get'' \<and>
     contains (to_lower (pv_lib orders_resource) (ri_get_op ri))
       (to_lower (pv_lib orders_resource) (trim_suffix_s ''orders''))"
  by (rule resource_item_guarded [where rctx = None and i = "''7''" and w = "[]"])
     (simp add: demo_item)

text \<open>
  The id of a requested item goes into the request body, not into the path: the call for item
  7 of orders has no path parameter, so the URL of its operation keeps the placeholder.
\<close>

theorem resource_item_id_not_in_path:
  "List.map (\<lambda>(b, io). buildRequestURL e (the (GetOperation demo_index (ob_service_id b) (ob_operation_id b))) io)
     (snd (GetResourceItem orders_resource rctx [(''orders:view'', True)] ''orders'' ''7'' [])) =
   [''http://orders/orders/{id}'']"
  by (simp add: demo_item buildRequestURL_def empty_input_def demo_index_defs)

text \<open>
  The schema of a registered form has one field per field of the form, in the order of its
  sections, hidden and capability-restricted ones included.
\<close>

theorem schema_of_form:
  assumes "GetFormDef reg i = Some form"
  shows "map_sum id (\<lambda>r. List.map zf_name (zr_fields r)) (GetSchema L reg i) =
    Inr (concat (List.map (\<lambda>s. List.map fi_field (sd_fields s)) (fm_sections form)))"
  using assms
  by (simp add: GetSchema_def schemaFromForm_def section_fields_def map_concat fieldDefToSchema_def comp_def)

theorem schema_of_form_witness:
  "map_sum id (\<lambda>r. List.map zf_name (zr_fields r))
     (GetSchema demo_lib (pv_registry staff_provider) ''staff.edit'') =
    Inr (concat (List.map (\<lambda>s. List.map fi_field (sd_fields s)) (fm_sections salary_form)))"
  by (rule schema_of_form) (simp add: provider_defs salary_form_def demo_form_def)

end
