(* ===== verification/Response.thy ===== *)
theory Response imports Executor Menu Resources Lookup AnalyticsEngine begin

section \<open>Responses (pkg/transport/response.go)\<close>

text \<open>
  The state of an \<open>http.ResponseWriter\<close>: the header map, what was committed by the first
  \<open>WriteHeader\<close> (later calls change nothing), and the bodies written. A writer may be wrapped;
  \<open>layers\<close> lists the wrappers, outermost first, since a type assertion sees the outermost only.
  Header names are written in canonical form.
\<close>

record capability_value =
  cv_enabled :: bool

record capabilities_response =
  cb_capabilities :: "capability_value gomap"
  cb_roles :: "string list"
  cb_permissions :: "string list"
  cb_user_features :: "string list"
  cb_tenant_id :: string
  cb_tenant_features :: "string list"
  cb_version :: string

record action_answer =
  aa_action_id :: string
  aa_type :: string
  aa_navigate_to :: string
  aa_form_id :: string
  aa_params :: "string gomap"

datatype response_body =
    BdError error_envelope
  | BdCommand command_response
  | BdAction action_answer
  | BdPage page_descriptor
  | BdData data_response
  | BdForm form_descriptor
  | BdFormData "gany gomap option"
  | BdSchema schema_response
  | BdItem "gany gomap"
  | BdNavigation navigation_tree
  | BdSearch search_response
  | BdLookup lookup_response
  | BdCapabilities capabilities_response
  | BdGranted "string list"
  | BdAnalytics api_body
  | BdStream http_response
  | BdText string

record response_writer =
  rw_header :: "string gomap"
  rw_sent :: "(int \<times> string gomap) option"
  rw_written :: "response_body list"

definition new_writer :: response_writer where
  "new_writer = \<lparr>rw_header = [], rw_sent = None, rw_written = []\<rparr>"

datatype layer = TraceLayer "string option" | StatusLayer

definition set_header :: "string \<Rightarrow> string \<Rightarrow> response_writer \<Rightarrow> response_writer" where
  "set_header k v rw = rw\<lparr>rw_header := gput k v (rw_header rw)\<rparr>"

definition write_header :: "int \<Rightarrow> response_writer \<Rightarrow> response_writer" where
  "write_header code rw =
     (case rw_sent rw of None \<Rightarrow> rw\<lparr>rw_sent := Some (code, rw_header rw)\<rparr> | Some s \<Rightarrow> rw)"

definition write_body :: "response_body \<Rightarrow> response_writer \<Rightarrow> response_writer" where
  "write_body b rw = (let rw1 = write_header 200 rw in rw1\<lparr>rw_written := rw_written rw1 @ [b]\<rparr>)"

definition statusForCode :: "int gomap" where
  "statusForCode =
     [(ErrBadRequest, 400), (ErrUnauthorized, 401), (ErrForbidden, 403), (ErrNotFound, 404),
      (ErrConflict, 409), (ErrValidationError, 422), (ErrRateLimited, 429), (ErrInternalError, 500),
      (ErrBackendUnavailable, 502), (ErrBackendTimeout, 504)]"

definition WriteJSON :: "int \<Rightarrow> response_body option \<Rightarrow> response_writer \<Rightarrow> response_writer" where
  "WriteJSON status body rw =
     (let rw1 = write_header status (set_header ''X-Content-Type-Options'' ''nosniff''
                  (set_header ''Content-Type'' ''application/json; charset=utf-8'' rw))
      in case body of None \<Rightarrow> rw1 | Some b \<Rightarrow> write_body b rw1)"

definition envelope_of :: "go_error \<Rightarrow> error_envelope" where
  "envelope_of err = (case as_envelope err of Some ee \<Rightarrow> ee | None \<Rightarrow> NewInternalError)"

definition with_trace :: "layer list \<Rightarrow> error_envelope \<Rightarrow> error_envelope" where
  "with_trace layers ee =
     (case layers of
        TraceLayer (Some tid) # _ \<Rightarrow> if env_trace_id ee = [] then ee\<lparr>env_trace_id := tid\<rparr> else ee
      | _ \<Rightarrow> ee)"

definition status_for :: "string \<Rightarrow> int" where
  "status_for code = (case gget statusForCode code of None \<Rightarrow> 500 | Some st \<Rightarrow> if st = 0 then 500 else st)"

lemma status_codes:
  "status_for ErrBadRequest = 400" "status_for ErrUnauthorized = 401" "status_for ErrForbidden = 403"
  "status_for ErrNotFound = 404" "status_for ErrConflict = 409" "status_for ErrValidationError = 422"
  "status_for ErrRateLimited = 429" "status_for ErrInternalError = 500"
  "status_for ErrBackendUnavailable = 502" "status_for ErrBackendTimeout = 504"
  by (simp_all add: status_for_def statusForCode_def error_code_defs)

definition WriteError :: "layer list \<Rightarrow> go_error \<Rightarrow> response_writer \<Rightarrow> response_writer" where
  "WriteError layers err rw =
     (let ee = with_trace layers (envelope_of err)
      in WriteJSON (status_for (env_code ee)) (Some (BdError ee)) rw)"

definition WriteNotFound :: "layer list \<Rightarrow> string \<Rightarrow> response_writer \<Rightarrow> response_writer" where
  "WriteNotFound layers msg rw = WriteError layers (Envelope (NewNotFoundError msg)) rw"

definition WriteForbidden :: "layer list \<Rightarrow> string \<Rightarrow> response_writer \<Rightarrow> response_writer" where
  "WriteForbidden layers msg rw = WriteError layers (Envelope (NewForbiddenError msg)) rw"

definition WriteValidationError :: "layer list \<Rightarrow> field_error list \<Rightarrow> response_writer \<Rightarrow> response_writer" where
  "WriteValidationError layers details rw = WriteError layers (Envelope (NewValidationError details)) rw"

subsection \<open>What is sent stays sent\<close>

text \<open>
  \<open>keeps K\<close> says that the headers \<open>K\<close> are in the header map and, once the header has been sent,
  in the header that was sent.
\<close>

definition keeps :: "(string \<times> string) set \<Rightarrow> response_writer \<Rightarrow> bool" where
  "keeps K rw \<longleftrightarrow> (\<forall>(k, v)\<in>K. gget (rw_header rw) k = Some v) \<and>
     (\<forall>c h. rw_sent rw = Some (c, h) \<longrightarrow> (\<forall>(k, v)\<in>K. gget h k = Some v))"

lemma keeps_write_header: "keeps K rw \<Longrightarrow> keeps K (write_header c rw)"
  by (auto simp: keeps_def write_header_def split: option.splits)

lemma keeps_write_body: "keeps K rw \<Longrightarrow> keeps K (write_body b rw)"
  using keeps_write_header [of K rw 200] by (auto simp: keeps_def write_body_def Let_def)

lemma keeps_set_header:
  "keeps K rw \<Longrightarrow> (\<And>v'. (k, v') \<in> K \<Longrightarrow> v' = v) \<Longrightarrow> keeps K (set_header k v rw)"
  by (fastforce simp: keeps_def set_header_def gget_gput)

lemma written_sent: "rw_sent (write_header c rw) \<noteq> None" "rw_sent (write_body b rw) \<noteq> None"
  by (auto simp: write_header_def write_body_def Let_def split: option.splits)

lemma sent_WriteJSON: "rw_sent (WriteJSON st body rw) \<noteq> None"
  by (cases body) (simp_all add: WriteJSON_def Let_def written_sent)

lemma fresh_WriteError:
  "rw_sent rw = None \<Longrightarrow>
   fst (the (rw_sent (WriteError layers err rw))) = status_for (env_code (envelope_of err))"
  by (auto simp: WriteError_def WriteJSON_def write_body_def write_header_def set_header_def with_trace_def Let_def
      split: list.splits layer.splits option.splits)

end
