(* ===== verification/Middleware.thy ===== *)
theory Middleware imports Response begin

section \<open>Middleware (pkg/transport/middleware.go, response.go)\<close>

text \<open>
  A handler is a function of the layers around the response writer, the request, the writer and
  the state of the server; it returns whether it panicked, the writer and the next state. A middleware
  is a function between handlers. The values that requests carry in their context are the record
  \<open>req_context\<close>. \<open>rq_path\<close> is the escaped path of the URL, \<open>rq_values\<close> the values of its wildcards, and
  \<open>rq_clock\<close> gives the readings of the clock made while the request is served, by position in the code.
\<close>

record auth_claims =
  cl_profile :: string
  cl_tenant :: string
  cl_partition :: string
  cl_roles :: "string list"
  cl_session :: string
  cl_ext :: "gany gomap option"

record req_context =
  gc_correlation :: "string option"
  gc_claims :: "auth_claims option"
  gc_jwt :: string
  gc_request :: "request_context option"
  gc_caps :: "capability_set option"
  gc_deadline :: "int option"
  gc_trace :: "string option"

record request =
  rq_method :: string
  rq_path :: string
  rq_values :: "string gomap"
  rq_query :: "string list gomap"
  rq_header :: "string \<Rightarrow> string"
  rq_body :: string
  rq_fresh_id :: string
  rq_clock :: "nat \<Rightarrow> int"
  rq_context :: req_context

type_synonym 's handler = "layer list \<Rightarrow> request \<Rightarrow> response_writer \<Rightarrow> 's \<Rightarrow> bool \<times> response_writer \<times> 's"

definition in_context :: "(req_context \<Rightarrow> req_context) \<Rightarrow> request \<Rightarrow> request" where
  "in_context f r = r\<lparr>rq_context := f (rq_context r)\<rparr>"

subsection \<open>The context (model/context.go, model/capability.go)\<close>

definition WithRequestContext :: "request_context \<Rightarrow> req_context \<Rightarrow> req_context" where
  "WithRequestContext rctx c = c\<lparr>gc_request := Some rctx\<rparr>"

definition RequestContextFrom :: "req_context \<Rightarrow> request_context option" where
  "RequestContextFrom c = gc_request c"

definition WithCapabilities :: "capability_set \<Rightarrow> req_context \<Rightarrow> req_context" where
  "WithCapabilities caps c = c\<lparr>gc_caps := Some caps\<rparr>"

definition CapabilitiesFrom :: "req_context \<Rightarrow> capability_set" where
  "CapabilitiesFrom c = (case gc_caps c of None \<Rightarrow> [] | Some caps \<Rightarrow> caps)"

definition CorrelationIDFrom :: "req_context \<Rightarrow> string" where
  "CorrelationIDFrom c = (case gc_correlation c of None \<Rightarrow> [] | Some i \<Rightarrow> i)"

subsection \<open>Global middleware\<close>

definition Recovery :: "'s handler \<Rightarrow> 's handler" where
  "Recovery next layers r rw s =
     (case next layers r rw s of (panicked, rw1, s1) \<Rightarrow>
        if panicked then (False, WriteError layers (Envelope NewInternalError) rw1, s1)
        else (False, rw1, s1))"

definition RequestID :: "'s handler \<Rightarrow> 's handler" where
  "RequestID next layers r rw s =
     (let i = (if rq_header r ''X-Correlation-Id'' = [] then rq_fresh_id r
               else rq_header r ''X-Correlation-Id'')
      in next layers (in_context (\<lambda>c. c\<lparr>gc_correlation := Some i\<rparr>) r)
           (set_header ''X-Correlation-Id'' i rw) s)"

definition security_headers :: "(string \<times> string) list" where
  "security_headers =
     [(''Strict-Transport-Security'', ''max-age=31536000; includeSubDomains''),
      (''X-Content-Type-Options'', ''nosniff''), (''X-Frame-Options'', ''DENY''),
      (''X-XSS-Protection'', ''0''), (''Cache-Control'', ''no-store''),
      (''Referrer-Policy'', ''strict-origin-when-cross-origin'')]"

definition SecurityHeaders :: "'s handler \<Rightarrow> 's handler" where
  "SecurityHeaders next layers r rw s =
     next layers r (fold (\<lambda>(k, v). set_header k v) security_headers rw) s"

definition InjectTraceContext :: "'s handler \<Rightarrow> 's handler" where
  "InjectTraceContext next layers r rw s = next (TraceLayer (gc_trace (rq_context r)) # layers) r rw s"

text \<open>Built from the configuration and used by no route.\<close>

definition CORS :: "cors_config \<Rightarrow> 's handler \<Rightarrow> 's handler" where
  "CORS cfg next layers r rw s =
     (let origin = rq_header r ''Origin'';
          rw1 = (if origin \<noteq> [] \<and> origin \<in> set (co_allowed_origins cfg)
                 then set_header ''Vary'' ''Origin''
                   (set_header ''Access-Control-Expose-Headers'' ''X-Correlation-Id''
                   (set_header ''Access-Control-Max-Age'' (dec_int (co_max_age cfg))
                   (set_header ''Access-Control-Allow-Headers'' (join '', '' (co_allowed_headers cfg))
                   (set_header ''Access-Control-Allow-Methods'' (join '', '' (co_allowed_methods cfg))
                   (set_header ''Access-Control-Allow-Origin'' origin rw)))))
                 else rw)
      in if rq_method r = ''OPTIONS'' then (False, write_header 204 rw1, s) else next layers r rw1 s)"

subsection \<open>Middleware of the authenticated routes\<close>

definition email_of :: "gany gomap option \<Rightarrow> string" where
  "email_of ext =
     (case ext of None \<Rightarrow> [] | Some m \<Rightarrow>
        (case as_str (index_any m ''email'') of None \<Rightarrow> [] | Some e \<Rightarrow> e))"

definition built_context :: "request \<Rightarrow> request_context" where
  "built_context r =
     (let rctx = \<lparr>SubjectID = [], Email = [], TenantID = [], PartitionID = [], Roles = [], Claims = None,
                  SessionID = [], DeviceID = rq_header r ''X-Device-Id'',
                  CorrelationID = CorrelationIDFrom (rq_context r), TraceID = [], SpanID = [],
                  Locale = rq_header r ''Accept-Language'', Timezone = rq_header r ''X-Timezone'',
                  Token = gc_jwt (rq_context r)\<rparr>
      in case gc_claims (rq_context r) of
           None \<Rightarrow> rctx
         | Some cl \<Rightarrow>
             rctx\<lparr>SubjectID := cl_profile cl, TenantID := cl_tenant cl, PartitionID := cl_partition cl,
                  Roles := cl_roles cl, SessionID := cl_session cl, Email := email_of (cl_ext cl),
                  Claims := cl_ext cl\<rparr>)"

definition BuildRequestContextMiddleware :: "'s handler \<Rightarrow> 's handler" where
  "BuildRequestContextMiddleware next layers r rw s =
     next layers (in_context (WithRequestContext (built_context r)) r) rw s"

text \<open>\<open>resolve\<close> is the resolver's method on the state of the server; a nil resolver is \<open>None\<close>.\<close>

definition ResolveCapabilities ::
  "((nat \<Rightarrow> int) \<Rightarrow> request_context \<Rightarrow> 's \<Rightarrow> (go_error + capability_set) \<times> 's) option \<Rightarrow>
   's handler \<Rightarrow> 's handler" where
  "ResolveCapabilities resolver next layers r rw s =
     (case resolver of
        None \<Rightarrow> next layers r rw s
      | Some resolve \<Rightarrow>
          (case RequestContextFrom (rq_context r) of
             None \<Rightarrow> next layers r rw s
           | Some rctx \<Rightarrow>
               (case resolve (rq_clock r) rctx s of
                  (Inl err, s1) \<Rightarrow> (False, WriteError layers (Envelope NewBackendUnavailableError) rw, s1)
                | (Inr caps, s1) \<Rightarrow> next layers (in_context (WithCapabilities caps) r) rw s1)))"

definition HandlerTimeout :: "int \<Rightarrow> 's handler \<Rightarrow> 's handler" where
  "HandlerTimeout d next =
     (if d \<le> 0 then next
      else (\<lambda>layers r rw s.
        let t = rq_clock r 2 + d;
            dl = (case gc_deadline (rq_context r) of None \<Rightarrow> t | Some t' \<Rightarrow> min t t')
        in next layers (in_context (\<lambda>c. c\<lparr>gc_deadline := Some dl\<rparr>) r) rw s))"

text \<open>What is logged is left out; the writer is wrapped.\<close>

definition RequestLogging :: "'s handler \<Rightarrow> 's handler" where
  "RequestLogging next layers r rw s = next (StatusLayer # layers) r rw s"

definition chainMiddleware :: "('s handler \<Rightarrow> 's handler) list \<Rightarrow> 's handler \<Rightarrow> 's handler" where
  "chainMiddleware middlewares final = foldr (\<lambda>m h. m h) middlewares final"

subsection \<open>Headers survive the middleware\<close>

text \<open>
  \<open>safe K h\<close>: once the headers \<open>K\<close> are in the header map, the handler neither removes nor changes
  them, whether it panics or not.
\<close>

definition safe :: "(string \<times> string) set \<Rightarrow> 's handler \<Rightarrow> bool" where
  "safe K h \<longleftrightarrow> (\<forall>layers r rw s. keeps K rw \<longrightarrow> keeps K (fst (snd (h layers r rw s))))"

definition answers :: "'s handler \<Rightarrow> bool" where
  "answers h \<longleftrightarrow> (\<forall>layers r rw s. case h layers r rw s of (p, rw1, s1) \<Rightarrow> p \<or> rw_sent rw1 \<noteq> None)"

lemma keeps_WriteJSON:
  "keeps K rw \<Longrightarrow> (\<And>v. (''Content-Type'', v) \<notin> K) \<Longrightarrow>
   (\<And>v. (''X-Content-Type-Options'', v) \<in> K \<Longrightarrow> v = ''nosniff'') \<Longrightarrow> keeps K (WriteJSON st body rw)"
  unfolding WriteJSON_def Let_def
  by (cases body) (auto intro!: keeps_write_body keeps_write_header keeps_set_header)

lemma keeps_WriteError:
  "keeps K rw \<Longrightarrow> (\<And>v. (''Content-Type'', v) \<notin> K) \<Longrightarrow>
   (\<And>v. (''X-Content-Type-Options'', v) \<in> K \<Longrightarrow> v = ''nosniff'') \<Longrightarrow> keeps K (WriteError layers err rw)"
  by (simp add: WriteError_def keeps_WriteJSON Let_def)

lemma safe_BuildRequestContext: "safe K h \<Longrightarrow> safe K (BuildRequestContextMiddleware h)"
  by (simp add: safe_def BuildRequestContextMiddleware_def)

lemma safe_HandlerTimeout: "safe K h \<Longrightarrow> safe K (HandlerTimeout d h)"
  by (simp add: safe_def HandlerTimeout_def Let_def)

lemma safe_RequestLogging: "safe K h \<Longrightarrow> safe K (RequestLogging h)"
  by (simp add: safe_def RequestLogging_def)

lemma safe_InjectTraceContext: "safe K h \<Longrightarrow> safe K (InjectTraceContext h)"
  by (simp add: safe_def InjectTraceContext_def)

lemma safe_ResolveCapabilities:
  "safe K h \<Longrightarrow> (\<And>v. (''Content-Type'', v) \<notin> K) \<Longrightarrow>
   (\<And>v. (''X-Content-Type-Options'', v) \<in> K \<Longrightarrow> v = ''nosniff'') \<Longrightarrow> safe K (ResolveCapabilities res h)"
  unfolding safe_def ResolveCapabilities_def
  by (simp add: keeps_WriteError split: option.split sum.split prod.split)

lemma answers_BuildRequestContext: "answers h \<Longrightarrow> answers (BuildRequestContextMiddleware h)"
  by (simp add: answers_def BuildRequestContextMiddleware_def)

lemma answers_HandlerTimeout: "answers h \<Longrightarrow> answers (HandlerTimeout d h)"
  by (simp add: answers_def HandlerTimeout_def Let_def)

lemma answers_RequestLogging: "answers h \<Longrightarrow> answers (RequestLogging h)"
  by (simp add: answers_def RequestLogging_def)

lemma answers_InjectTraceContext: "answers h \<Longrightarrow> answers (InjectTraceContext h)"
  by (simp add: answers_def InjectTraceContext_def)

lemma sent_WriteError: "rw_sent (WriteError layers err rw) \<noteq> None"
  unfolding WriteError_def Let_def by (rule sent_WriteJSON)

lemma answers_ResolveCapabilities:
  assumes h: "answers h"
  shows "answers (ResolveCapabilities res h)"
proof -
  have step: "case ResolveCapabilities res h layers r rw s of (p, rw1, s1) \<Rightarrow> p \<or> rw_sent rw1 \<noteq> None"
    for layers r rw s
  proof -
    have h': "case h l' r' w' s' of (p, rw1, s1) \<Rightarrow> p \<or> rw_sent rw1 \<noteq> None" for l' r' w' s'
      using h by (simp add: answers_def)
    show ?thesis
    proof (cases "ResolveCapabilities res h layers r rw s")
      case (fields p rw1 s1)
      then show ?thesis
        using h' sent_WriteError
        unfolding ResolveCapabilities_def
        by (fastforce split: option.splits sum.splits prod.splits)
    qed
  qed
  then show ?thesis by (simp add: answers_def)
qed

end
