(* ===== verification/Handlers.thy ===== *)
theory Handlers imports Middleware begin

section \<open>The handlers (pkg/transport/handler_*.go, pkg/analytics/handler.go)\<close>

text \<open>
  A handler decides a reply and the next state of the server; \<open>send\<close> writes the reply. The state
  is what the shared components keep: the capability resolver, the lookup cache, the analytics engine
  and the world behind the invokers. The other dependencies are fixed once the server is built.
\<close>

record json_decoders =
  jd_command :: "string \<Rightarrow> command_input option"
  jd_action :: "string \<Rightarrow> gany gomap option option"
  jd_checks :: "string \<Rightarrow> go_error + (string \<times> string list) list"
  jd_analytics :: "string \<Rightarrow> analytics_request option"

record search_timing =
  sg_arrive :: "provider_result list \<Rightarrow> provider_result list"
  sg_sort :: "search_result list \<Rightarrow> search_result list"
  sg_elapsed :: int

record ('p, 'w) bff_state =
  bs_resolver :: resolver
  bs_lookups :: "'w lookup_provider"
  bs_engine :: "'p engine"
  bs_world :: 'w

record ('p, 'w) dependencies =
  dn_config :: config
  dn_authenticate :: "(('p, 'w) bff_state handler \<Rightarrow> ('p, 'w) bff_state handler) option"
  dn_evaluate :: "(request_context \<Rightarrow> go_error + capability_set) option"
  dn_registry :: snapshot
  dn_menu :: "'w menu_provider"
  dn_pages :: "'w provider"
  dn_forms :: "'w provider"
  dn_resources :: "'w resource_provider"
  dn_executor :: "'w command_executor"
  dn_search :: search_provider
  dn_analytics :: "(api_env \<times> ('p, 'w) engine_setup) option"
  dn_version :: string
  dn_json :: json_decoders
  dn_http :: "'w http_env"
  dn_timing :: "request \<Rightarrow> search_timing"

datatype reply =
    RJson int response_body
  | RFail go_error
  | RApi api_response
  | RStream "string list" http_response
  | RPanic

type_synonym ('p, 'w) core = "request \<Rightarrow> ('p, 'w) bff_state \<Rightarrow> reply \<times> ('p, 'w) bff_state"

subsection \<open>Writing the reply\<close>

text \<open>The headers of an answer that a proxied response has are passed on.\<close>

definition copy_headers :: "string list \<Rightarrow> http_response \<Rightarrow> response_writer \<Rightarrow> response_writer" where
  "copy_headers ks resp rw =
     fold (\<lambda>k rw. if rp_header resp k \<noteq> [] then set_header k (rp_header resp k) rw else rw) ks rw"

text \<open>\<open>http.Error\<close>.\<close>

definition http_error :: "string \<Rightarrow> int \<Rightarrow> response_writer \<Rightarrow> response_writer" where
  "http_error msg code rw =
     write_body (BdText msg) (write_header code (set_header ''X-Content-Type-Options'' ''nosniff''
       (set_header ''Content-Type'' ''text/plain; charset=utf-8'' rw)))"

definition write_api :: "api_response \<Rightarrow> response_writer \<Rightarrow> response_writer" where
  "write_api resp rw =
     (let rw1 = set_header ''Content-Type'' ''application/json'' rw in
      case as_body resp of
        ApiText msg \<Rightarrow> http_error msg (as_status resp) rw1
      | b \<Rightarrow> write_body (BdAnalytics b) (write_header (as_status resp) rw1))"

text \<open>\<open>WriteHeader\<close> panics on a status that is not three digits long.\<close>

fun send :: "reply \<Rightarrow> layer list \<Rightarrow> response_writer \<Rightarrow> bool \<times> response_writer" where
  "send (RJson status b) layers rw = (False, WriteJSON status (Some b) rw)"
| "send (RFail err) layers rw = (False, WriteError layers err rw)"
| "send (RApi resp) layers rw = (False, write_api resp rw)"
| "send (RStream ks resp) layers rw =
     (let rw1 = copy_headers ks resp rw in
      if rp_status resp < 100 \<or> rp_status resp > 999 then (True, rw1)
      else (False, write_body (BdStream resp) (write_header (rp_status resp) rw1)))"
| "send RPanic layers rw = (True, rw)"

definition handler_of :: "('p, 'w) core \<Rightarrow> ('p, 'w) bff_state handler" where
  "handler_of core layers r rw s =
     (case core r s of (rep, s1) \<Rightarrow> (case send rep layers rw of (p, rw1) \<Rightarrow> (p, rw1, s1)))"

subsection \<open>Parameters\<close>

definition query_get :: "request \<Rightarrow> string \<Rightarrow> string" where
  "query_get r key = (case gget (rq_query r) key of Some (v # vs) \<Rightarrow> v | _ \<Rightarrow> [])"

definition path_value :: "request \<Rightarrow> string \<Rightarrow> string" where
  "path_value r key = (case gget (rq_values r) key of None \<Rightarrow> [] | Some v \<Rightarrow> v)"

definition queryInt :: "request \<Rightarrow> string \<Rightarrow> int \<Rightarrow> int" where
  "queryInt r key def =
     (if query_get r key = [] then def
      else case atoi (query_get r key) of None \<Rightarrow> def | Some v \<Rightarrow> v)"

definition bracketed :: "string \<Rightarrow> string \<Rightarrow> string option" where
  "bracketed pre key =
     (if length key > length pre + 2 \<and> take (length pre + 1) key = pre @ ''['' \<and> last key = CHR '']''
      then Some (butlast (drop (length pre + 1) key)) else None)"

definition queryMap :: "request \<Rightarrow> string \<Rightarrow> string gomap" where
  "queryMap r pre =
     fold (\<lambda>(key, vs) m. case (bracketed pre key, vs) of (Some f, v # _) \<Rightarrow> gput f v m | _ \<Rightarrow> m)
       (rq_query r) []"

definition first_values :: "request \<Rightarrow> string gomap" where
  "first_values r = fold (\<lambda>(key, vs) m. case vs of [] \<Rightarrow> m | v # _ \<Rightarrow> gput key v m) (rq_query r) []"

definition with_context :: "(request_context \<Rightarrow> ('p, 'w) core) \<Rightarrow> ('p, 'w) core" where
  "with_context f r s =
     (case RequestContextFrom (rq_context r) of
        None \<Rightarrow> (RFail (Envelope (NewUnauthorizedError ''missing request context'')), s)
      | Some rctx \<Rightarrow> f rctx r s)"

definition reply_of :: "('a \<Rightarrow> response_body) \<Rightarrow> go_error + 'a \<Rightarrow> reply" where
  "reply_of body res = (case res of Inl err \<Rightarrow> RFail err | Inr x \<Rightarrow> RJson 200 (body x))"

definition bad_body :: reply where
  "bad_body = RFail (Envelope (NewBadRequestError ''invalid JSON body''))"

subsection \<open>Navigation, pages, forms, schemas\<close>

definition handleNavigation :: "('p, 'w) dependencies \<Rightarrow> ('p, 'w) core" where
  "handleNavigation d = with_context (\<lambda>rctx r s.
     case GetMenu (dn_menu d) (Some rctx) (CapabilitiesFrom (rq_context r)) (bs_world s) of
       (tree, w) \<Rightarrow> (RJson 200 (BdNavigation tree), s\<lparr>bs_world := w\<rparr>))"

definition handleGetPage :: "('p, 'w) dependencies \<Rightarrow> ('p, 'w) core" where
  "handleGetPage d = with_context (\<lambda>rctx r s.
     (reply_of BdPage (GetPage (dn_pages d) (CapabilitiesFrom (rq_context r)) (path_value r ''pageId'')), s))"

definition page_params :: "request \<Rightarrow> data_params" where
  "page_params r =
     \<lparr>dp_page = queryInt r ''page'' 1, dp_page_size = queryInt r ''page_size'' 25,
      dp_sort = query_get r ''sort'', dp_sort_dir = query_get r ''sort_dir'',
      dp_filters = queryMap r ''filter'', dp_query = query_get r ''q''\<rparr>"

definition handleGetPageData :: "('p, 'w) dependencies \<Rightarrow> ('p, 'w) core" where
  "handleGetPageData d = with_context (\<lambda>rctx r s.
     case GetPageData (dn_pages d) (Some rctx) (CapabilitiesFrom (rq_context r)) (path_value r ''pageId'')
            (page_params r) (bs_world s) of
       (res, w) \<Rightarrow> (reply_of BdData res, s\<lparr>bs_world := w\<rparr>))"

definition handleGetForm :: "('p, 'w) dependencies \<Rightarrow> ('p, 'w) core" where
  "handleGetForm d = with_context (\<lambda>rctx r s.
     (reply_of BdForm (GetForm (dn_forms d) (CapabilitiesFrom (rq_context r)) (path_value r ''formId'')), s))"

definition handleGetFormData :: "('p, 'w) dependencies \<Rightarrow> ('p, 'w) core" where
  "handleGetFormData d = with_context (\<lambda>rctx r s.
     case GetFormData (dn_forms d) (Some rctx) (CapabilitiesFrom (rq_context r)) (path_value r ''formId'')
            (first_values r) (bs_world s) of
       (res, w) \<Rightarrow> (reply_of BdFormData res, s\<lparr>bs_world := w\<rparr>))"

definition handleGetSchema :: "('p, 'w) dependencies \<Rightarrow> ('p, 'w) core" where
  "handleGetSchema d r s =
     (reply_of BdSchema (GetSchema (pv_lib (dn_pages d)) (dn_registry d) (path_value r ''schemaId'')), s)"

subsection \<open>Commands and actions\<close>

definition run_command ::
  "('p, 'w) dependencies \<Rightarrow> request_context \<Rightarrow> string \<Rightarrow> command_input \<Rightarrow> ('p, 'w) core" where
  "run_command d rctx commandID input r s =
     (case Execute (dn_executor d) (Some rctx) (CapabilitiesFrom (rq_context r)) commandID input (bs_world s) of
        ((resp, None), w) \<Rightarrow> (RJson 200 (BdCommand resp), s\<lparr>bs_world := w\<rparr>)
      | ((resp, Some err), w) \<Rightarrow> (RFail err, s\<lparr>bs_world := w\<rparr>))"

definition handleCommand :: "('p, 'w) dependencies \<Rightarrow> ('p, 'w) core" where
  "handleCommand d = with_context (\<lambda>rctx r s.
     case jd_command (dn_json d) (rq_body r) of
       None \<Rightarrow> (bad_body, s)
     | Some input \<Rightarrow> run_command d rctx (path_value r ''commandId'') input r s)"

definition findActionInRegistry :: "snapshot \<Rightarrow> string \<Rightarrow> action_definition option" where
  "findActionInRegistry reg actionID =
     find (\<lambda>a. ad_id a = actionID)
       (concat (List.map (\<lambda>dom. concat (List.map pd_actions (dd_pages dom))) (AllDomains reg)))"

definition handleAction :: "('p, 'w) dependencies \<Rightarrow> ('p, 'w) core" where
  "handleAction d = with_context (\<lambda>rctx r s.
     let actionID = path_value r ''actionId'' in
     case jd_action (dn_json d) (rq_body r) of
       None \<Rightarrow> (bad_body, s)
     | Some input \<Rightarrow>
         (case findActionInRegistry (dn_registry d) actionID of
            None \<Rightarrow> (RFail (Envelope (NewNotFoundError (''action '' @ actionID @ '' not found''))), s)
          | Some a \<Rightarrow>
              if ad_type a = ''command'' then
                (if ad_command_id a = []
                 then (RFail (Envelope (NewBadRequestError ''action has no command_id'')), s)
                 else run_command d rctx (ad_command_id a) \<lparr>ci_input = input, ci_route = None\<rparr> r s)
              else
                (RJson 200 (BdAction \<lparr>aa_action_id = ad_id a, aa_type = ad_type a,
                   aa_navigate_to = ad_navigate_to a, aa_form_id = ad_form_id a, aa_params = ad_params a\<rparr>), s)))"

subsection \<open>Resources, search, lookups\<close>

definition resource_params :: "request \<Rightarrow> data_params" where
  "resource_params r =
     \<lparr>dp_page = queryInt r ''page'' 1, dp_page_size = queryInt r ''page_size'' 25,
      dp_sort = (if query_get r ''sort_field'' = [] then query_get r ''sort'' else query_get r ''sort_field''),
      dp_sort_dir = (if query_get r ''sort_direction'' = [] then query_get r ''sort_dir''
                     else query_get r ''sort_direction''),
      dp_filters = queryMap r ''filter'', dp_query = query_get r ''q''\<rparr>"

definition handleGetResource :: "('p, 'w) dependencies \<Rightarrow> ('p, 'w) core" where
  "handleGetResource d = with_context (\<lambda>rctx r s.
     case GetResourceList (dn_resources d) (Some rctx) (CapabilitiesFrom (rq_context r))
            (path_value r ''resourceType'') (resource_params r) (bs_world s) of
       (res, w) \<Rightarrow> (reply_of BdData res, s\<lparr>bs_world := w\<rparr>))"

definition handleGetResourceItem :: "('p, 'w) dependencies \<Rightarrow> ('p, 'w) core" where
  "handleGetResourceItem d = with_context (\<lambda>rctx r s.
     case GetResourceItem (dn_resources d) (Some rctx) (CapabilitiesFrom (rq_context r))
            (path_value r ''resourceType'') (path_value r ''id'') (bs_world s) of
       (res, w) \<Rightarrow> (reply_of BdItem res, s\<lparr>bs_world := w\<rparr>))"

definition run_search ::
  "('p, 'w) dependencies \<Rightarrow> request_context \<Rightarrow> pagination \<Rightarrow> request \<Rightarrow> reply" where
  "run_search d rctx pag r =
     (let tm = dn_timing d r in
      case SearchAll (dn_search d) (sg_arrive tm) (sg_sort tm) (sg_elapsed tm) (Some rctx)
             (CapabilitiesFrom (rq_context r)) (query_get r ''q'') pag of
        None \<Rightarrow> RPanic
      | Some res \<Rightarrow> reply_of BdSearch res)"

definition handleResourceSearch :: "('p, 'w) dependencies \<Rightarrow> ('p, 'w) core" where
  "handleResourceSearch d = with_context (\<lambda>rctx r s.
     (run_search d rctx \<lparr>pag_page = 1, pag_page_size = queryInt r ''limit'' 20,
        pag_domain = path_value r ''resourceType''\<rparr> r, s))"

definition handleSearch :: "('p, 'w) dependencies \<Rightarrow> ('p, 'w) core" where
  "handleSearch d = with_context (\<lambda>rctx r s.
     (run_search d rctx \<lparr>pag_page = queryInt r ''page'' 1, pag_page_size = queryInt r ''page_size'' 20,
        pag_domain = query_get r ''domain''\<rparr> r, s))"

definition handleLookup :: "('p, 'w) dependencies \<Rightarrow> ('p, 'w) core" where
  "handleLookup d = with_context (\<lambda>rctx r s.
     case GetLookup (rq_clock r 3) (rq_clock r 4) (rq_clock r 5) rctx (path_value r ''lookupId'')
            (query_get r ''q'') (bs_lookups s) (bs_world s) of
       (res, lp, w) \<Rightarrow> (reply_of BdLookup res, s\<lparr>bs_lookups := lp, bs_world := w\<rparr>))"

subsection \<open>Capabilities\<close>

text \<open>A nil resolver is called without a check, which panics.\<close>

definition resolve_with ::
  "(request_context \<Rightarrow> go_error + capability_set) \<Rightarrow> int \<Rightarrow> int \<Rightarrow> request_context \<Rightarrow> ('p, 'w) bff_state \<Rightarrow>
   (go_error + capability_set) \<times> ('p, 'w) bff_state" where
  "resolve_with eval t0 t1 rctx s =
     (case Resolve eval t0 t1 rctx (bs_resolver s) of (res, rv) \<Rightarrow> (res, s\<lparr>bs_resolver := rv\<rparr>))"

definition capabilities_of :: "string \<Rightarrow> request_context \<Rightarrow> capability_set \<Rightarrow> capabilities_response" where
  "capabilities_of version rctx caps =
     \<lparr>cb_capabilities = List.map (\<lambda>(k, v). (k, \<lparr>cv_enabled = v\<rparr>)) caps, cb_roles = [],
      cb_permissions = List.map fst (filter snd caps), cb_user_features = [],
      cb_tenant_id = TenantID rctx, cb_tenant_features = [], cb_version = version\<rparr>"

definition handleCapabilities :: "('p, 'w) dependencies \<Rightarrow> ('p, 'w) core" where
  "handleCapabilities d = with_context (\<lambda>rctx r s.
     case dn_evaluate d of
       None \<Rightarrow> (RPanic, s)
     | Some eval \<Rightarrow>
         (case resolve_with eval (rq_clock r 3) (rq_clock r 4) rctx s of
            (res, s1) \<Rightarrow> (reply_of (\<lambda>caps. BdCapabilities (capabilities_of (dn_version d) rctx caps)) res, s1)))"

definition granted_of :: "capability_set \<Rightarrow> (string \<times> string list) list \<Rightarrow> string list" where
  "granted_of caps checks =
     concat (List.map (\<lambda>(ns, perms). filter (\<lambda>perm. Has caps perm \<or> Has caps (ns @ '':'' @ perm)) perms)
       checks)"

definition handleBatchCheck :: "('p, 'w) dependencies \<Rightarrow> ('p, 'w) core" where
  "handleBatchCheck d = with_context (\<lambda>rctx r s.
     case jd_checks (dn_json d) (rq_body r) of
       Inl err \<Rightarrow>
         (RFail (Envelope (NewBadRequestError (''invalid request body: '' @ error_message err))), s)
     | Inr checks \<Rightarrow>
         (case dn_evaluate d of
            None \<Rightarrow> (RPanic, s)
          | Some eval \<Rightarrow>
              (case resolve_with eval (rq_clock r 3) (rq_clock r 4) rctx s of
                 (res, s1) \<Rightarrow> (reply_of (\<lambda>caps. BdGranted (granted_of caps checks)) res, s1))))"

subsection \<open>Files\<close>

definition files_base :: "config \<Rightarrow> string" where
  "files_base cfg =
     (case gget (cfg_services cfg) ''files-svc'' of None \<Rightarrow> [] | Some sc \<Rightarrow> sc_base_url sc)"

definition proxy_headers ::
  "'w http_env \<Rightarrow> request_context \<Rightarrow> string gomap \<Rightarrow> string gomap" where
  "proxy_headers e rctx h0 =
     (let h1 = (if Token rctx \<noteq> [] then header_set e ''Authorization'' (''Bearer '' @ Token rctx) h0 else h0)
      in header_set e ''X-Correlation-Id'' (CorrelationID rctx)
           (header_set e ''X-Partition-Id'' (PartitionID rctx)
             (header_set e ''X-Tenant-Id'' (TenantID rctx) h1)))"

definition proxy ::
  "'w http_env \<Rightarrow> http_request \<Rightarrow> string list \<Rightarrow> ('p, 'w) bff_state \<Rightarrow> reply \<times> ('p, 'w) bff_state" where
  "proxy e req ks s =
     (if he_new_request_error e (hr_method req) (hr_url req) \<noteq> None
      then (RFail (Envelope NewInternalError), s)
      else case he_do e req (bs_world s) of
             (Inl err, w) \<Rightarrow> (RFail (Envelope NewBackendUnavailableError), s\<lparr>bs_world := w\<rparr>)
           | (Inr resp, w) \<Rightarrow> (RStream ks resp, s\<lparr>bs_world := w\<rparr>))"

definition no_files :: reply where
  "no_files = RFail (Envelope (NewBadRequestError ''file service not configured''))"

definition upload_request :: "('p, 'w) dependencies \<Rightarrow> request_context \<Rightarrow> request \<Rightarrow> http_request" where
  "upload_request d rctx r =
     \<lparr>hr_method = ''POST'', hr_url = files_base (dn_config d) @ ''/upload'',
      hr_header = proxy_headers (dn_http d) rctx
        (header_set (dn_http d) ''Content-Type'' (rq_header r ''Content-Type'') []),
      hr_body = Some (rq_body r)\<rparr>"

definition handleUpload :: "('p, 'w) dependencies \<Rightarrow> ('p, 'w) core" where
  "handleUpload d = with_context (\<lambda>rctx r s.
     if files_base (dn_config d) = [] then (no_files, s)
     else proxy (dn_http d) (upload_request d rctx r) [''Content-Type'', ''Content-Length''] s)"

definition download_request :: "('p, 'w) dependencies \<Rightarrow> request_context \<Rightarrow> request \<Rightarrow> http_request" where
  "download_request d rctx r =
     \<lparr>hr_method = ''GET'',
      hr_url = files_base (dn_config d) @ ''/download/'' @ path_value r ''fileId'',
      hr_header = proxy_headers (dn_http d) rctx [], hr_body = None\<rparr>"

definition handleDownload :: "('p, 'w) dependencies \<Rightarrow> ('p, 'w) core" where
  "handleDownload d = with_context (\<lambda>rctx r s.
     if files_base (dn_config d) = [] then (no_files, s)
     else proxy (dn_http d) (download_request d rctx r)
            [''Content-Type'', ''Content-Length'', ''Content-Disposition''] s)"

subsection \<open>Analytics\<close>

definition engine_readings :: "request \<Rightarrow> readings" where
  "engine_readings r =
     \<lparr>at_lookup = rq_clock r 4, at_make_room = rq_clock r 5, at_store = rq_clock r 6,
      at_get = rq_clock r 7, at_evict = rq_clock r 8, at_put = rq_clock r 9\<rparr>"

definition analytics_call :: "('p, 'w) dependencies \<Rightarrow> string \<Rightarrow> request \<Rightarrow> api_call" where
  "analytics_call d route r =
     \<lparr>ac_route = route, ac_readings = engine_readings r, ac_now = rq_clock r 3,
      ac_context = RequestContextFrom (rq_context r), ac_caps = CapabilitiesFrom (rq_context r),
      ac_body = jd_analytics (dn_json d) (rq_body r)\<rparr>"

definition handleAnalytics ::
  "('p, 'w) dependencies \<Rightarrow> api_env \<Rightarrow> ('p, 'w) engine_setup \<Rightarrow> string \<Rightarrow> ('p, 'w) core" where
  "handleAnalytics d env setup0 route r s =
     (case serve_call env setup0 (analytics_call d route r) (bs_engine s) (bs_world s) of
        None \<Rightarrow> (RPanic, s)
      | Some (resp, e, w) \<Rightarrow> (RApi resp, s\<lparr>bs_engine := e, bs_world := w\<rparr>))"

end
