(* ===== verification/Router.thy ===== *)
theory Router imports Handlers begin

section \<open>The router (pkg/transport/router.go)\<close>

text \<open>
  The part of \<open>http.ServeMux\<close> that the patterns of the router use: a pattern is a method and segments,
  literal or wildcard; the escaped path is cleaned, each of its segments is unescaped, and literals
  are preferred to wildcards from the left. Then the table of routes and the middleware around it, and
  what holds of every request.
\<close>

datatype segment = Lit string | Wild string

record 's route =
  rt_method :: string
  rt_segments :: "segment list"
  rt_handler :: "'s handler"

subsection \<open>Paths\<close>

definition hex_val :: "char \<Rightarrow> nat option" where
  "hex_val c =
     (let n = of_char c :: nat in
      if 48 \<le> n \<and> n \<le> 57 then Some (n - 48)
      else if 97 \<le> n \<and> n \<le> 102 then Some (n - 87)
      else if 65 \<le> n \<and> n \<le> 70 then Some (n - 55) else None)"

fun percent_decode :: "string \<Rightarrow> string option" where
  "percent_decode [] = Some []"
| "percent_decode (c # cs) =
     (if c = CHR ''%'' then
        (case cs of
           a # b # rest \<Rightarrow>
             (case (hex_val a, hex_val b) of
                (Some x, Some y) \<Rightarrow> map_option (Cons (char_of (16 * x + y))) (percent_decode rest)
              | _ \<Rightarrow> None)
         | _ \<Rightarrow> None)
      else map_option (Cons c) (percent_decode cs))"

definition pathUnescape :: "string \<Rightarrow> string" where
  "pathUnescape s = (case percent_decode s of None \<Rightarrow> s | Some u \<Rightarrow> u)"

fun clean_stack :: "string list \<Rightarrow> string list \<Rightarrow> string list" where
  "clean_stack [] acc = rev acc"
| "clean_stack (p # ps) acc =
     (if p = [] \<or> p = ''.'' then clean_stack ps acc
      else if p = ''..'' then clean_stack ps (drop 1 acc) else clean_stack ps (p # acc))"

definition cleanPath :: "string \<Rightarrow> string" where
  "cleanPath p =
     (let rooted = (if p \<noteq> [] \<and> hd p = CHR ''/'' then p else CHR ''/'' # p);
          np = CHR ''/'' # join ''/'' (clean_stack (split_on CHR ''/'' rooted) [])
      in if last rooted = CHR ''/'' \<and> np \<noteq> ''/'' then np @ ''/'' else np)"

text \<open>A trailing slash is the last segment \<open>/\<close>, which no wildcard matches.\<close>

definition path_segments :: "string \<Rightarrow> string list" where
  "path_segments path =
     (let raw = tl (split_on CHR ''/'' path) in
      if raw \<noteq> [] \<and> last raw = [] then List.map pathUnescape (butlast raw) @ [''/'']
      else List.map pathUnescape raw)"

subsection \<open>Matching\<close>

fun match_segments :: "segment list \<Rightarrow> string list \<Rightarrow> string gomap option" where
  "match_segments [] [] = Some []"
| "match_segments (Lit l # ps) (s # ss) = (if l = s then match_segments ps ss else None)"
| "match_segments (Wild n # ps) (s # ss) =
     (if s \<noteq> ''/'' then map_option (gput n s) (match_segments ps ss) else None)"
| "match_segments _ _ = None"

fun prefers :: "segment list \<Rightarrow> segment list \<Rightarrow> bool" where
  "prefers (Lit _ # ps) (Wild _ # qs) = True"
| "prefers (Wild _ # ps) (Lit _ # qs) = False"
| "prefers (_ # ps) (_ # qs) = prefers ps qs"
| "prefers _ _ = False"

fun best_match :: "'s route list \<Rightarrow> string \<Rightarrow> string list \<Rightarrow> ('s route \<times> string gomap) option" where
  "best_match [] meth ss = None"
| "best_match (rt # rts) meth ss =
     (case (if rt_method rt = meth then match_segments (rt_segments rt) ss else None) of
        None \<Rightarrow> best_match rts meth ss
      | Some vals \<Rightarrow>
          (case best_match rts meth ss of
             None \<Rightarrow> Some (rt, vals)
           | Some (rt', vals') \<Rightarrow>
               if prefers (rt_segments rt') (rt_segments rt) then Some (rt', vals') else Some (rt, vals)))"

definition find_route :: "'s route list \<Rightarrow> string \<Rightarrow> string list \<Rightarrow> ('s route \<times> string gomap) option" where
  "find_route rts meth ss =
     (case best_match rts meth ss of
        Some x \<Rightarrow> Some x
      | None \<Rightarrow> if meth = ''HEAD'' then best_match rts ''GET'' ss else None)"

definition allowed_methods :: "'s route list \<Rightarrow> string list \<Rightarrow> string list" where
  "allowed_methods rts ss =
     (let ms = List.map rt_method (filter (\<lambda>rt. match_segments (rt_segments rt) ss \<noteq> None) rts) in
      sort (remdups (ms @ (if ''GET'' \<in> set ms then [''HEAD''] else []))))"

definition redirect_to :: "string \<Rightarrow> request \<Rightarrow> response_writer \<Rightarrow> response_writer" where
  "redirect_to location r rw =
     (let had = gget (rw_header rw) ''Content-Type'' \<noteq> None;
          rw1 = set_header ''Location'' location rw;
          rw2 = (if \<not> had \<and> rq_method r \<in> {''GET'', ''HEAD''}
                 then set_header ''Content-Type'' ''text/html; charset=utf-8'' rw1 else rw1);
          rw3 = write_header 301 rw2
      in if \<not> had \<and> rq_method r = ''GET''
         then write_body (BdText (''Moved Permanently: '' @ location)) rw3 else rw3)"

definition mux_serve :: "(request \<Rightarrow> string) \<Rightarrow> 's route list \<Rightarrow> 's handler" where
  "mux_serve location rts layers r rw s =
     (let path = (if rq_method r = ''CONNECT'' then rq_path r else cleanPath (rq_path r));
          ss = path_segments path
      in if path \<noteq> rq_path r then (False, redirect_to (location r) r rw, s)
         else case find_route rts (rq_method r) ss of
                Some (rt, vals) \<Rightarrow> rt_handler rt layers (r\<lparr>rq_values := vals\<rparr>) rw s
              | None \<Rightarrow>
                  (False,
                   if allowed_methods rts ss \<noteq> []
                   then http_error ''Method Not Allowed'' 405
                          (set_header ''Allow'' (join '', '' (allowed_methods rts ss)) rw)
                   else http_error ''404 page not found'' 404 rw, s))"

subsection \<open>Routes\<close>

definition parse_segment :: "string \<Rightarrow> segment" where
  "parse_segment s = (if s \<noteq> [] \<and> hd s = CHR ''{'' then Wild (butlast (tl s)) else Lit s)"

definition handle :: "string \<Rightarrow> 's handler \<Rightarrow> 's route" where
  "handle pat h =
     \<lparr>rt_method = takeWhile (\<lambda>c. c \<noteq> CHR '' '') pat,
      rt_segments = List.map parse_segment (tl (split_on CHR ''/'' (drop 1 (dropWhile (\<lambda>c. c \<noteq> CHR '' '') pat)))),
      rt_handler = h\<rparr>"

definition resolve_caps ::
  "('p, 'w) dependencies \<Rightarrow> ((nat \<Rightarrow> int) \<Rightarrow> request_context \<Rightarrow> ('p, 'w) bff_state \<Rightarrow>
     (go_error + capability_set) \<times> ('p, 'w) bff_state) option" where
  "resolve_caps d = map_option (\<lambda>eval clock. resolve_with eval (clock 0) (clock 1)) (dn_evaluate d)"

definition authChain :: "('p, 'w) dependencies \<Rightarrow> ('p, 'w) bff_state handler \<Rightarrow> ('p, 'w) bff_state handler" where
  "authChain d =
     chainMiddleware
       [case dn_authenticate d of None \<Rightarrow> (\<lambda>next. next) | Some auth \<Rightarrow> auth,
        BuildRequestContextMiddleware,
        ResolveCapabilities (resolve_caps d),
        HandlerTimeout (sv_handler_timeout (cfg_server (dn_config d))),
        RequestLogging]"

definition core_routes :: "('p, 'w) dependencies \<Rightarrow> (string \<times> ('p, 'w) core) list" where
  "core_routes d =
     [(''GET /ui/capabilities'', handleCapabilities d),
      (''POST /ui/capabilities/batch-check'', handleBatchCheck d),
      (''GET /ui/navigation'', handleNavigation d),
      (''GET /ui/pages/{pageId}'', handleGetPage d),
      (''GET /ui/pages/{pageId}/data'', handleGetPageData d),
      (''GET /ui/forms/{formId}'', handleGetForm d),
      (''GET /ui/forms/{formId}/data'', handleGetFormData d),
      (''GET /ui/schemas/{schemaId}'', handleGetSchema d),
      (''POST /ui/commands/{commandId}'', handleCommand d),
      (''POST /ui/actions/{actionId}'', handleAction d),
      (''GET /ui/resources/{resourceType}/search'', handleResourceSearch d),
      (''GET /ui/resources/{resourceType}/{id}'', handleGetResourceItem d),
      (''GET /ui/resources/{resourceType}'', handleGetResource d),
      (''GET /ui/search'', handleSearch d),
      (''GET /ui/lookups/{lookupId}'', handleLookup d),
      (''POST /ui/upload'', handleUpload d),
      (''GET /ui/download/{fileId}'', handleDownload d)]"

definition RegisterRoutes :: "('p, 'w) dependencies \<Rightarrow> (string \<times> ('p, 'w) core) list" where
  "RegisterRoutes d =
     (case dn_analytics d of
        None \<Rightarrow> []
      | Some (env, es) \<Rightarrow> List.map (\<lambda>(route, _). (route, handleAnalytics d env es route)) (analytics_routes env es))"

definition router_routes :: "('p, 'w) dependencies \<Rightarrow> ('p, 'w) bff_state route list" where
  "router_routes d =
     List.map (\<lambda>(pat, core). handle pat (authChain d (handler_of core))) (core_routes d @ RegisterRoutes d)"

definition NewRouter :: "(request \<Rightarrow> string) \<Rightarrow> ('p, 'w) dependencies \<Rightarrow> ('p, 'w) bff_state handler" where
  "NewRouter location d =
     Recovery (RequestID (SecurityHeaders (InjectTraceContext (mux_serve location (router_routes d)))))"

text \<open>A request is served on a fresh writer, with no wrapper around it.\<close>

definition serve_request ::
  "(request \<Rightarrow> string) \<Rightarrow> ('p, 'w) dependencies \<Rightarrow> request \<Rightarrow> ('p, 'w) bff_state \<Rightarrow>
   response_writer \<times> ('p, 'w) bff_state" where
  "serve_request location d r s = snd (NewRouter location d [] r new_writer s)"

end
