(* ===== verification/RouterGuard.thy ===== *)
theory RouterGuard imports Router begin

section \<open>What holds of every response\<close>

text \<open>
  Lemmas on the whole pipeline: headers that are set before a handler runs reach the client, every
  request is answered, authentication comes before every handler, and what the handlers do with the
  capabilities that the middleware resolved.
\<close>

subsection \<open>Headers that no handler touches\<close>

text \<open>A set of headers that the handlers and the multiplexer do not overwrite with other values.\<close>

locale header_guard =
  fixes K :: "(string \<times> string) set"
  assumes untouched: "(k, v) \<in> K \<Longrightarrow>
      k \<notin> {''Content-Type'', ''Content-Length'', ''Content-Disposition'', ''Allow'', ''Location''}"
    and nosniff: "(''X-Content-Type-Options'', v) \<in> K \<Longrightarrow> v = ''nosniff''"
begin

lemma not_in_K:
  "(''Content-Type'', v) \<notin> K" "(''Content-Length'', v) \<notin> K" "(''Content-Disposition'', v) \<notin> K"
  "(''Allow'', v) \<notin> K" "(''Location'', v) \<notin> K"
  by (rule notI, drule untouched, simp)+

lemma keeps_json: "keeps K rw \<Longrightarrow> keeps K (WriteJSON st b rw)"
  by (rule keeps_WriteJSON) (use not_in_K nosniff in blast)+

lemma keeps_error: "keeps K rw \<Longrightarrow> keeps K (WriteError layers err rw)"
  by (rule keeps_WriteError) (use not_in_K nosniff in blast)+

lemma keeps_http_error: "keeps K rw \<Longrightarrow> keeps K (http_error msg code rw)"
  unfolding http_error_def
  by (intro keeps_write_body keeps_write_header keeps_set_header) (use not_in_K nosniff in blast)+

lemma keeps_content: "keeps K rw \<Longrightarrow> keeps K (set_header ''Content-Type'' v rw)"
  by (rule keeps_set_header) (use not_in_K in blast)+

lemma keeps_api: "keeps K rw \<Longrightarrow> keeps K (write_api resp rw)"
  unfolding write_api_def Let_def
  by (cases "as_body resp") (simp_all add: keeps_http_error keeps_write_body keeps_write_header keeps_content)

lemma keeps_copy:
  "set ks \<subseteq> {''Content-Type'', ''Content-Length'', ''Content-Disposition''} \<Longrightarrow> keeps K rw \<Longrightarrow>
   keeps K (copy_headers ks resp rw)"
proof (induction ks arbitrary: rw)
  case Nil
  then show ?case by (simp add: copy_headers_def)
next
  case (Cons k ks)
  have "keeps K (set_header k (rp_header resp k) rw)"
    by (rule keeps_set_header [OF Cons.prems(2)]) (use Cons.prems(1) not_in_K in auto)
  with Cons show ?case by (simp add: copy_headers_def)
qed

lemma keeps_redirect: "keeps K rw \<Longrightarrow> keeps K (redirect_to loc r rw)"
  unfolding redirect_to_def Let_def
  by (auto intro!: keeps_write_body keeps_write_header keeps_set_header simp: not_in_K)

end

definition polite :: "reply \<Rightarrow> bool" where
  "polite rep \<longleftrightarrow> (case rep of
     RStream ks resp \<Rightarrow> set ks \<subseteq> {''Content-Type'', ''Content-Length'', ''Content-Disposition''}
   | _ \<Rightarrow> True)"

lemma polite_simps [simp]:
  "polite (RJson st b)" "polite (RFail err)" "polite (RApi a)" "polite RPanic"
  "polite (RStream ks resp) = (set ks \<subseteq> {''Content-Type'', ''Content-Length'', ''Content-Disposition''})"
  by (simp_all add: polite_def)

lemma polite_reply_of [simp]: "polite (reply_of b res)"
  by (cases res) (simp_all add: reply_of_def)

lemma polite_with_context: "(\<And>rctx. polite (fst (f rctx r s))) \<Longrightarrow> polite (fst (with_context f r s))"
  by (simp add: with_context_def split: option.split)

lemma polite_run_command [simp]: "polite (fst (run_command d rctx cid input r s))"
  by (simp add: run_command_def split: prod.split option.split)

lemma polite_run_search [simp]: "polite (run_search d rctx pag r)"
  by (simp add: run_search_def Let_def split: option.split)

lemma polite_proxy:
  "set ks \<subseteq> {''Content-Type'', ''Content-Length'', ''Content-Disposition''} \<Longrightarrow> polite (fst (proxy e req ks s))"
  by (simp add: proxy_def split: prod.split sum.split)

lemma polite_core:
  "polite (fst (handleNavigation d r s))" "polite (fst (handleGetPage d r s))"
  "polite (fst (handleGetPageData d r s))" "polite (fst (handleGetForm d r s))"
  "polite (fst (handleGetFormData d r s))" "polite (fst (handleGetSchema d r s))"
  "polite (fst (handleGetResource d r s))" "polite (fst (handleGetResourceItem d r s))"
  "polite (fst (handleResourceSearch d r s))" "polite (fst (handleSearch d r s))"
  "polite (fst (handleLookup d r s))" "polite (fst (handleCapabilities d r s))"
  "polite (fst (handleAnalytics d env es route r s))"
  unfolding handleNavigation_def handleGetPage_def handleGetPageData_def handleGetForm_def
    handleGetFormData_def handleGetSchema_def handleGetResource_def handleGetResourceItem_def
    handleResourceSearch_def handleSearch_def handleLookup_def handleCapabilities_def handleAnalytics_def
  by (simp_all add: polite_with_context split: prod.split option.split)

lemma polite_guarded:
  "polite (fst (handleCommand d r s))" "polite (fst (handleAction d r s))"
  "polite (fst (handleBatchCheck d r s))" "polite (fst (handleUpload d r s))"
  "polite (fst (handleDownload d r s))"
  unfolding handleCommand_def handleAction_def handleBatchCheck_def handleUpload_def handleDownload_def
  by (simp_all add: polite_with_context polite_proxy bad_body_def no_files_def Let_def
      split: prod.split option.split sum.split)

lemma polite_routes:
  assumes "core \<in> snd ` set (core_routes d @ RegisterRoutes d)"
  shows "polite (fst (core r s))"
proof -
  have "\<forall>core\<in>set (List.map snd (core_routes d)). polite (fst (core r s))"
    by (simp add: core_routes_def polite_core polite_guarded)
  moreover have "\<forall>core\<in>set (List.map snd (RegisterRoutes d)). polite (fst (core r s))"
    by (auto simp: RegisterRoutes_def polite_core split: option.split)
  ultimately show ?thesis using assms by auto
qed

lemma router_routes_cores:
  "rt \<in> set (router_routes d) \<Longrightarrow>
   \<exists>pc\<in>set (core_routes d @ RegisterRoutes d). rt_handler rt = authChain d (handler_of (snd pc))"
  unfolding router_routes_def set_map handle_def by (auto simp del: set_append intro: bexI [rotated])

text \<open>What is asked of the authentication middleware: it keeps a property of the handlers it wraps.\<close>

definition auth_keeps :: "('s handler \<Rightarrow> bool) \<Rightarrow> ('s handler \<Rightarrow> 's handler) option \<Rightarrow> bool" where
  "auth_keeps P auth \<longleftrightarrow> (case auth of None \<Rightarrow> True | Some a \<Rightarrow> (\<forall>h. P h \<longrightarrow> P (a h)))"

lemma auth_keepsD: "auth_keeps P auth \<Longrightarrow> P h \<Longrightarrow> P ((case auth of None \<Rightarrow> (\<lambda>next. next) | Some a \<Rightarrow> a) h)"
  by (simp add: auth_keeps_def split: option.splits)

context header_guard
begin

lemma keeps_send: "polite rep \<Longrightarrow> keeps K rw \<Longrightarrow> keeps K (snd (send rep layers rw))"
  by (cases rep) (simp_all add: keeps_json keeps_error keeps_api keeps_copy keeps_write_body keeps_write_header Let_def)

lemma safe_handler_of: "(\<And>r s. polite (fst (core r s))) \<Longrightarrow> safe K (handler_of core)"
  unfolding safe_def handler_of_def
  by (simp add: split_beta keeps_send)

lemma safe_mux:
  assumes "\<And>rt. rt \<in> set rts \<Longrightarrow> safe K (rt_handler rt)"
  shows "safe K (mux_serve loc rts)"
proof -
  have mem: "best_match rts m ss = Some (rt, vals) \<Longrightarrow> rt \<in> set rts" for m ss rt vals
    by (induction rts m ss arbitrary: rt vals rule: best_match.induct) (auto split: option.splits if_splits)
  have found: "find_route rts m ss = Some (rt, vals) \<Longrightarrow> safe K (rt_handler rt)" for m ss rt vals
    using mem assms by (auto simp: find_route_def split: option.splits if_splits)
  have allow: "keeps K rw \<Longrightarrow> keeps K (set_header ''Allow'' v rw)" for v rw
    by (rule keeps_set_header) (use not_in_K in blast)+
  show ?thesis
    unfolding safe_def mux_serve_def Let_def
    using found by (auto simp: keeps_redirect keeps_http_error allow safe_def split: option.split)
qed

lemma safe_authChain:
  assumes "safe K h" and "auth_keeps (safe K) (dn_authenticate d)"
  shows "safe K (authChain d h)"
proof -
  have "safe K (BuildRequestContextMiddleware (ResolveCapabilities (resolve_caps d)
      (HandlerTimeout (sv_handler_timeout (cfg_server (dn_config d))) (RequestLogging h))))"
    by (intro safe_BuildRequestContext safe_ResolveCapabilities safe_HandlerTimeout safe_RequestLogging assms(1))
       (use not_in_K nosniff in blast)+
  from auth_keepsD [OF assms(2) this] show ?thesis
    by (simp add: authChain_def chainMiddleware_def)
qed

lemma safe_routes:
  assumes "auth_keeps (safe K) (dn_authenticate d)" and "rt \<in> set (router_routes d)"
  shows "safe K (rt_handler rt)"
proof -
  obtain pc where "pc \<in> set (core_routes d @ RegisterRoutes d)"
    and rt: "rt_handler rt = authChain d (handler_of (snd pc))"
    using router_routes_cores [OF assms(2)] by blast
  then have "snd pc \<in> snd ` set (core_routes d @ RegisterRoutes d)" by blast
  from polite_routes [OF this] have "safe K (handler_of (snd pc))" by (rule safe_handler_of)
  then show ?thesis unfolding rt using assms(1) by (rule safe_authChain)
qed

end

subsection \<open>Every request is answered\<close>

lemma sent_http_error: "rw_sent (http_error msg code rw) \<noteq> None"
  by (simp add: http_error_def written_sent)

lemma sent_redirect: "rw_sent (redirect_to loc r rw) \<noteq> None"
  unfolding redirect_to_def Let_def by (simp add: written_sent del: not_None_eq)

lemma answers_handler_of: "answers (handler_of core)"
proof -
  have api: "rw_sent (write_api a rw) \<noteq> None" for a rw
    by (cases "as_body a") (simp_all add: write_api_def sent_http_error written_sent)
  have "fst (send rep layers rw) \<or> rw_sent (snd (send rep layers rw)) \<noteq> None" for rep layers rw
    using api by (cases rep) (simp_all add: sent_WriteJSON sent_WriteError written_sent Let_def del: not_None_eq)
  then show ?thesis by (auto simp: answers_def handler_of_def split: prod.split) (metis fst_conv option.distinct(1) snd_conv)
qed

lemma answers_authChain:
  assumes "answers h" and "auth_keeps answers (dn_authenticate d)"
  shows "answers (authChain d h)"
  using auth_keepsD [OF assms(2)] assms(1)
  by (simp add: authChain_def chainMiddleware_def answers_BuildRequestContext answers_ResolveCapabilities
      answers_HandlerTimeout answers_RequestLogging)

lemma answers_mux:
  assumes "\<And>rt. rt \<in> set rts \<Longrightarrow> answers (rt_handler rt)"
  shows "answers (mux_serve loc rts)"
proof -
  have mem: "best_match rts m ss = Some (rt, vals) \<Longrightarrow> rt \<in> set rts" for m ss rt vals
    by (induction rts m ss arbitrary: rt vals rule: best_match.induct) (auto split: option.splits if_splits)
  have found: "find_route rts m ss = Some (rt, vals) \<Longrightarrow> answers (rt_handler rt)" for m ss rt vals
    using mem assms by (auto simp: find_route_def split: option.splits if_splits)
  have step: "case mux_serve loc rts layers r rw s of (p, rw1, s1) \<Rightarrow> p \<or> rw_sent rw1 \<noteq> None" for layers r rw s
    using found sent_http_error sent_redirect
    by (auto simp: mux_serve_def Let_def answers_def split: option.split)
  then show ?thesis by (simp add: answers_def)
qed

lemma answers_routes:
  assumes "auth_keeps answers (dn_authenticate d)" and "rt \<in> set (router_routes d)"
  shows "answers (rt_handler rt)"
proof -
  obtain pc where "pc \<in> set (core_routes d @ RegisterRoutes d)"
    and rt: "rt_handler rt = authChain d (handler_of (snd pc))"
    using router_routes_cores [OF assms(2)] by blast
  show ?thesis unfolding rt by (rule answers_authChain [OF answers_handler_of assms(1)])
qed

text \<open>The identifier of a request, and the headers of its response that the pipeline promises.\<close>

definition correlation_of :: "request \<Rightarrow> string" where
  "correlation_of r =
     (if rq_header r ''X-Correlation-Id'' = [] then rq_fresh_id r else rq_header r ''X-Correlation-Id'')"

definition guarded_headers :: "string \<Rightarrow> (string \<times> string) set" where
  "guarded_headers i =
     {(''X-Correlation-Id'', i), (''Strict-Transport-Security'', ''max-age=31536000; includeSubDomains''),
      (''X-Content-Type-Options'', ''nosniff''), (''X-Frame-Options'', ''DENY''), (''X-XSS-Protection'', ''0''),
      (''Cache-Control'', ''no-store''), (''Referrer-Policy'', ''strict-origin-when-cross-origin'')}"

interpretation guarded: header_guard "guarded_headers i" for i
  by unfold_locales (auto simp: guarded_headers_def)

text \<open>The request and the writer that reach the multiplexer.\<close>

definition tagged :: "request \<Rightarrow> request" where
  "tagged r = in_context (\<lambda>c. c\<lparr>gc_correlation := Some (correlation_of r)\<rparr>) r"

definition headed :: "request \<Rightarrow> response_writer \<Rightarrow> response_writer" where
  "headed r rw = fold (\<lambda>(k, v). set_header k v) security_headers
     (set_header ''X-Correlation-Id'' (correlation_of r) rw)"

lemma keeps_headed: "rw_sent rw = None \<Longrightarrow> keeps (guarded_headers (correlation_of r)) (headed r rw)"
  by (simp add: keeps_def guarded_headers_def headed_def security_headers_def set_header_def gget_gput)

lemma headed_fresh: "rw_sent (headed r rw) = rw_sent rw"
  by (simp add: headed_def security_headers_def set_header_def)

lemma tagged_simps [simp]:
  "rq_header (tagged r) = rq_header r" "rq_method (tagged r) = rq_method r" "rq_path (tagged r) = rq_path r"
  "rq_query (tagged r) = rq_query r" "rq_body (tagged r) = rq_body r" "rq_clock (tagged r) = rq_clock r"
  by (simp_all add: tagged_def in_context_def)

lemma NewRouter_unfold:
  "NewRouter loc d layers r rw s =
     (let res = mux_serve loc (router_routes d) (TraceLayer (gc_trace (rq_context r)) # layers) (tagged r)
                  (headed r rw) s
      in if fst res then (False, WriteError layers (Envelope NewInternalError) (fst (snd res)), snd (snd res))
         else (False, snd res))"
  by (simp add: NewRouter_def Recovery_def RequestID_def SecurityHeaders_def InjectTraceContext_def
      correlation_of_def Let_def tagged_def headed_def in_context_def split: prod.split)

abbreviation inner ::
  "(request \<Rightarrow> string) \<Rightarrow> ('p, 'w) dependencies \<Rightarrow> request \<Rightarrow> ('p, 'w) bff_state \<Rightarrow>
   bool \<times> response_writer \<times> ('p, 'w) bff_state" where
  "inner loc d r s \<equiv> mux_serve loc (router_routes d) [TraceLayer (gc_trace (rq_context r))] (tagged r)
     (headed r new_writer) s"

lemma serve_request_unfold:
  "serve_request loc d r s =
     (let res = inner loc d r s
      in if fst res then (WriteError [] (Envelope NewInternalError) (fst (snd res)), snd (snd res)) else snd res)"
  by (simp add: serve_request_def NewRouter_unfold Let_def)

lemma router_answers_helper:
  assumes "auth_keeps answers (dn_authenticate d)"
  shows "case NewRouter loc d layers r rw s of (panicked, rw', s') \<Rightarrow> \<not> panicked \<and> rw_sent rw' \<noteq> None"
proof -
  have mux: "answers (mux_serve loc (router_routes d))"
    by (rule answers_mux) (rule answers_routes [OF assms])
  have "fst (mux_serve loc (router_routes d) l r' w s) \<or>
      rw_sent (fst (snd (mux_serve loc (router_routes d) l r' w s))) \<noteq> None" for l r' w
    using mux by (simp add: answers_def split_beta del: not_None_eq)
  then show ?thesis
    unfolding NewRouter_unfold Let_def
    by (auto simp: sent_WriteError split_beta simp del: not_None_eq)
qed

text \<open>
  C12. Every request is answered: whatever is sent to the router, it returns without a panic and with a
  committed response, as long as the authentication middleware answers when its next handler does.
\<close>

theorem router_always_answers:
  assumes "auth_keeps answers (dn_authenticate d)"
  shows "case NewRouter loc d layers r rw s of (panicked, rw', s') \<Rightarrow> \<not> panicked \<and> rw_sent rw' \<noteq> None"
  using assms by (rule router_answers_helper)

text \<open>
  C13. Every response is hardened: routed or not, successful, failed or recovered from a panic, what is
  sent carries the correlation id of the request and the six security headers with the values written
  here, as long as the authentication middleware does not remove them.
\<close>

theorem responses_hardened:
  assumes "auth_keeps (safe (guarded_headers (correlation_of r))) (dn_authenticate d)"
    and "rw_sent (fst (serve_request loc d r s)) = Some (code, hdrs)"
  shows "{(''X-Correlation-Id'', correlation_of r), (''Strict-Transport-Security'', ''max-age=31536000; includeSubDomains''),
      (''X-Content-Type-Options'', ''nosniff''), (''X-Frame-Options'', ''DENY''), (''X-XSS-Protection'', ''0''),
      (''Cache-Control'', ''no-store''), (''Referrer-Policy'', ''strict-origin-when-cross-origin'')}
    \<subseteq> {(k, v). gget hdrs k = Some v}"
proof -
  let ?i = "correlation_of r"
  have mux: "safe (guarded_headers ?i) (mux_serve loc (router_routes d))"
    by (rule guarded.safe_mux) (rule guarded.safe_routes [OF assms(1)])
  have "keeps (guarded_headers ?i) (fst (snd (inner loc d r s)))"
    using mux keeps_headed [of new_writer r] by (simp add: safe_def new_writer_def)
  then have "keeps (guarded_headers ?i) (fst (serve_request loc d r s))"
    unfolding serve_request_unfold Let_def by (simp add: guarded.keeps_error)
  with assms(2) have "guarded_headers ?i \<subseteq> {(k, v). gget hdrs k = Some v}" by (auto simp: keeps_def)
  then show ?thesis by (simp add: guarded_headers_def)
qed

end
