(* ===== verification/ServerGuard.thy ===== *)
theory ServerGuard imports RouterGuard AnalyticsGuard begin

section \<open>The state of the server under any sequence of requests\<close>

text \<open>
  Authentication and capability resolution come before every handler; the caches of the components
  keep their invariants under whatever is sent to the router, so what one component guarantees to its
  caller holds for the answers of the server.
\<close>

subsection \<open>The outcomes of the multiplexer\<close>

lemma code_http_error: "rw_sent rw = None \<Longrightarrow> fst (the (rw_sent (http_error msg code rw))) = code"
  by (simp add: http_error_def write_body_def write_header_def set_header_def Let_def)

lemma code_redirect: "rw_sent rw = None \<Longrightarrow> fst (the (rw_sent (redirect_to loc r rw))) = 301"
  by (simp add: redirect_to_def write_body_def write_header_def set_header_def Let_def)

lemma found_route:
  "find_route rts m ss = Some (rt, vals) \<Longrightarrow> rt \<in> set rts"
proof -
  have "best_match rts m ss = Some (rt, vals) \<Longrightarrow> rt \<in> set rts" for m ss rt vals
    by (induction rts m ss arbitrary: rt vals rule: best_match.induct) (auto split: option.splits if_splits)
  then show "find_route rts m ss = Some (rt, vals) \<Longrightarrow> rt \<in> set rts"
    by (auto simp: find_route_def split: option.splits if_splits)
qed

text \<open>A request either ends in the multiplexer or runs the middleware chain around one handler.\<close>

lemma mux_cases:
  obtains (local) rw1 where "mux_serve loc (router_routes d) layers r rw s = (False, rw1, s)"
      "rw_sent rw = None \<Longrightarrow> fst (the (rw_sent rw1)) \<in> {301, 404, 405}"
  | (routed) pc vals where "pc \<in> set (core_routes d @ RegisterRoutes d)"
      "mux_serve loc (router_routes d) layers r rw s =
         authChain d (handler_of (snd pc)) layers (r\<lparr>rq_values := vals\<rparr>) rw s"
proof -
  let ?path = "if rq_method r = ''CONNECT'' then rq_path r else cleanPath (rq_path r)"
  let ?ss = "path_segments ?path"
  note mux = mux_serve_def [of loc "router_routes d" layers r rw s, unfolded Let_def]
  show ?thesis
  proof (cases "?path \<noteq> rq_path r")
    case True
    then have "mux_serve loc (router_routes d) layers r rw s = (False, redirect_to (loc r) r rw, s)"
      unfolding mux by (simp only: True if_True not_False_eq_True)
    then show ?thesis using code_redirect by (intro local) auto
  next
    case False
    show ?thesis
    proof (cases "find_route (router_routes d) (rq_method r) ?ss")
      case None
      let ?ms = "allowed_methods (router_routes d) ?ss"
      let ?rw1 = "if ?ms \<noteq> [] then http_error ''Method Not Allowed'' 405 (set_header ''Allow'' (join '', '' ?ms) rw)
        else http_error ''404 page not found'' 404 rw"
      have "mux_serve loc (router_routes d) layers r rw s = (False, ?rw1, s)"
        unfolding mux by (simp only: False None option.case if_False)
      moreover have "rw_sent (set_header k v rw) = rw_sent rw" for k v by (simp add: set_header_def)
      then have "rw_sent rw = None \<Longrightarrow> fst (the (rw_sent (if b then http_error m 405 (set_header k v rw)
          else http_error m' 404 rw))) \<in> {301, 404, 405}" for b m m' k v
        by (simp add: code_http_error)
      ultimately show ?thesis by (rule local)
    next
      case (Some x)
      obtain rt vals where x: "x = (rt, vals)" by (cases x)
      have "rt \<in> set (router_routes d)" using found_route Some x by metis
      from router_routes_cores [OF this] obtain pc where pc: "pc \<in> set (core_routes d @ RegisterRoutes d)"
        "rt_handler rt = authChain d (handler_of (snd pc))" by blast
      then have "mux_serve loc (router_routes d) layers r rw s =
          authChain d (handler_of (snd pc)) layers (r\<lparr>rq_values := vals\<rparr>) rw s"
        using False Some x unfolding mux by simp
      with pc(1) show ?thesis by (rule routed)
    qed
  qed
qed

subsection \<open>Authentication comes first\<close>

text \<open>
  C9. Nothing runs before authentication: if the authentication middleware refuses a request, whatever it
  wraps, then the request changes nothing, neither a cache nor the engine nor the world behind
  the invokers, on any path and with any method and body.
\<close>

theorem nothing_before_auth:
  assumes "dn_authenticate d = Some a"
    and "\<And>next layers r' rw t. rq_header r' = rq_header r \<Longrightarrow> a next layers r' rw t = (False, deny rw, t)"
  shows "snd (serve_request loc d r s) = s"
proof -
  have "snd (snd (mux_serve loc (router_routes d) l r' rw s)) = s \<and>
      fst (mux_serve loc (router_routes d) l r' rw s) = False" if "rq_header r' = rq_header r" for l r' rw
  proof (cases rule: mux_cases [of loc d l r' rw s])
    case (local rw1)
    then show ?thesis by simp
  next
    case (routed pc vals)
    with assms that show ?thesis by (simp add: authChain_def chainMiddleware_def)
  qed
  then show ?thesis unfolding serve_request_unfold Let_def by simp
qed

text \<open>
  A middleware that accepts the requests with some headers puts the claims and the token into their
  context.
\<close>

definition admits ::
  "('s handler \<Rightarrow> 's handler) option \<Rightarrow> auth_claims \<Rightarrow> string \<Rightarrow> (string \<Rightarrow> string) \<Rightarrow> bool" where
  "admits auth cl tok hdr \<longleftrightarrow> (case auth of None \<Rightarrow> False | Some a \<Rightarrow>
     (\<forall>next layers r rw s. rq_header r = hdr \<longrightarrow>
        a next layers r rw s = next layers (in_context (\<lambda>c. c\<lparr>gc_claims := Some cl, gc_jwt := tok\<rparr>) r) rw s))"

text \<open>What the chain does with an admitted request.\<close>

lemma authChain_admitted:
  assumes "admits (dn_authenticate d) cl tok (rq_header r)" and "dn_evaluate d = Some eval"
  shows "authChain d h layers r rw s =
    (let rctx = built_context (in_context (\<lambda>c. c\<lparr>gc_claims := Some cl, gc_jwt := tok\<rparr>) r) in
     case resolve_with eval (rq_clock r 0) (rq_clock r 1) rctx s of
       (Inl err, s1) \<Rightarrow> (False, WriteError layers (Envelope NewBackendUnavailableError) rw, s1)
     | (Inr caps, s1) \<Rightarrow>
         HandlerTimeout (sv_handler_timeout (cfg_server (dn_config d))) (RequestLogging h) layers
           (in_context (\<lambda>c. c\<lparr>gc_claims := Some cl, gc_jwt := tok, gc_request := Some rctx,
              gc_caps := Some caps\<rparr>) r) rw s1)"
  using assms
  by (auto simp: admits_def authChain_def chainMiddleware_def BuildRequestContextMiddleware_def
      ResolveCapabilities_def resolve_caps_def in_context_def WithRequestContext_def RequestContextFrom_def
      WithCapabilities_def comp_def Let_def split: option.splits sum.split prod.split)

text \<open>The context that is built for an admitted request.\<close>

definition admitted_context :: "auth_claims \<Rightarrow> string \<Rightarrow> request \<Rightarrow> request_context" where
  "admitted_context cl tok r = built_context (in_context (\<lambda>c. c\<lparr>gc_claims := Some cl, gc_jwt := tok\<rparr>) (tagged r))"

lemma built_context_values: "built_context (r\<lparr>rq_values := vals\<rparr>) = built_context r"
  by (simp add: built_context_def)

lemma in_context_values: "in_context f (r\<lparr>rq_values := vals\<rparr>) = (in_context f r)\<lparr>rq_values := vals\<rparr>"
  by (simp add: in_context_def)

text \<open>
  C11. Without capabilities nothing is served: when the policy evaluator fails for the context of an
  admitted request, and the cache holds no entry for the key of that context that is live when it is
  read, then no handler runs, the state is unchanged, and the status is 502, or one of the multiplexer's
  own; whatever the cache holds for others, or has held for this caller before.
\<close>

theorem evaluator_failure_stops:
  assumes "admits (dn_authenticate d) cl tok (rq_header r)" and "dn_evaluate d = Some eval"
    and "eval (admitted_context cl tok r) = Inl err"
    and "\<And>entry. gget (r_cache (bs_resolver s)) (cap_cache_key (admitted_context cl tok r)) = Some entry \<Longrightarrow>
      ce_expires entry \<le> rq_clock r 0"
  shows "snd (serve_request loc d r s) = s \<and>
    fst (the (rw_sent (fst (serve_request loc d r s)))) \<in> {301, 404, 405, 502}"
proof -
  have "cap_lookup (rq_clock r 0) (cap_cache_key (admitted_context cl tok r)) (r_cache (bs_resolver s)) = None"
    using assms(4) by (fastforce simp: cap_lookup_def simp del: map_of_eq_Some_iff split: option.splits)
  with assms(3) have fails: "resolve_with eval (rq_clock r 0) t1 (admitted_context cl tok r) s = (Inl err, s)" for t1
    by (simp add: resolve_with_def Resolve_def)
  let ?ls = "[TraceLayer (gc_trace (rq_context r))]" and ?rw = "headed r new_writer"
  have unsent: "rw_sent ?rw = None" by (simp add: headed_fresh new_writer_def)
  have chain: "authChain d h ?ls ((tagged r)\<lparr>rq_values := v\<rparr>) ?rw s =
      (False, WriteError ?ls (Envelope NewBackendUnavailableError) ?rw, s)" for h v
    using authChain_admitted [of d cl tok "(tagged r)\<lparr>rq_values := v\<rparr>" eval h ?ls ?rw s] assms(1,2)
    by (simp add: fails in_context_values built_context_values admitted_context_def [symmetric] Let_def)
  have bad: "fst (the (rw_sent (WriteError ?ls (Envelope NewBackendUnavailableError) ?rw))) = 502"
    using fresh_WriteError [OF unsent]
    by (simp add: envelope_of_def NewBackendUnavailableError_def envelope_def status_codes)
  show ?thesis
  proof (cases rule: mux_cases [of loc d ?ls "tagged r" ?rw s])
    case (local rw1)
    with unsent show ?thesis by (auto simp: serve_request_unfold Let_def)
  next
    case (routed pc vals)
    with chain bad show ?thesis by (simp add: serve_request_unfold Let_def)
  qed
qed

subsection \<open>Invariants of the state\<close>

definition preserves :: "('s \<Rightarrow> bool) \<Rightarrow> 's handler \<Rightarrow> bool" where
  "preserves I h \<longleftrightarrow> (\<forall>layers r rw s. I s \<longrightarrow> I (snd (snd (h layers r rw s))))"

text \<open>
  The contract of what the server is built from: resolving capabilities and every handler keep the
  invariant.
\<close>

locale server_invariant =
  fixes d :: "('p, 'w) dependencies" and I :: "('p, 'w) bff_state \<Rightarrow> bool"
  assumes resolve_keeps: "dn_evaluate d = Some eval \<Longrightarrow> I s \<Longrightarrow> I (snd (resolve_with eval t0 t1 rctx s))"
    and core_keeps: "core \<in> snd ` set (core_routes d @ RegisterRoutes d) \<Longrightarrow> I s \<Longrightarrow> I (snd (core r s))"
begin

lemma chain_keeps:
  assumes "auth_keeps (preserves I) (dn_authenticate d)"
    and "core \<in> snd ` set (core_routes d @ RegisterRoutes d)"
  shows "preserves I (authChain d (handler_of core))"
proof -
  have "preserves I (handler_of core)"
    using core_keeps [OF assms(2)] by (simp add: preserves_def handler_of_def split_beta)
  then have "preserves I (HandlerTimeout t (RequestLogging (handler_of core)))" for t
    by (simp add: preserves_def HandlerTimeout_def RequestLogging_def Let_def)
  then have "preserves I (ResolveCapabilities (resolve_caps d) (HandlerTimeout t (RequestLogging (handler_of core))))" for t
    using resolve_keeps unfolding preserves_def ResolveCapabilities_def resolve_caps_def
    by (auto split: option.splits sum.splits prod.splits) (metis snd_conv)+
  then have "preserves I (BuildRequestContextMiddleware (ResolveCapabilities (resolve_caps d)
      (HandlerTimeout t (RequestLogging (handler_of core)))))" for t
    by (simp add: preserves_def BuildRequestContextMiddleware_def)
  from auth_keepsD [OF assms(1) this] show ?thesis by (simp add: authChain_def chainMiddleware_def)
qed

lemma request_keeps:
  assumes "auth_keeps (preserves I) (dn_authenticate d)" and "I s"
  shows "I (snd (serve_request loc d r s))"
proof -
  have "I (snd (snd (inner loc d r s)))"
  proof (cases rule: mux_cases [of loc d "[TraceLayer (gc_trace (rq_context r))]" "tagged r" "headed r new_writer" s])
    case (local rw1)
    with assms(2) show ?thesis by simp
  next
    case (routed pc vals)
    then have "preserves I (authChain d (handler_of (snd pc)))"
      by (intro chain_keeps [OF assms(1)]) blast
    with routed(2) assms(2) show ?thesis by (simp add: preserves_def)
  qed
  then show ?thesis unfolding serve_request_unfold Let_def by simp
qed

end

text \<open>A server that has answered some requests.\<close>

definition run_requests ::
  "(request \<Rightarrow> string) \<Rightarrow> ('p, 'w) dependencies \<Rightarrow> request list \<Rightarrow> ('p, 'w) bff_state \<Rightarrow> ('p, 'w) bff_state" where
  "run_requests loc d rs s = fold (\<lambda>r s. snd (serve_request loc d r s)) rs s"

text \<open>
  What the caches hold: capability sets that the evaluator computed for a context with the key they
  are stored under, lookup options fetched for theirs, and metric values that the backend gave for a
  query, scope, time range and parameters with their key.
\<close>

definition evaluated_for :: "(request_context \<Rightarrow> go_error + capability_set) \<Rightarrow> string \<Rightarrow> capability_set \<Rightarrow> bool" where
  "evaluated_for eval key caps \<longleftrightarrow> (\<exists>rctx. cap_cache_key rctx = key \<and> eval rctx = Inr caps)"

definition resolver_inv :: "('p, 'w) dependencies \<Rightarrow> ('p, 'w) bff_state \<Rightarrow> bool" where
  "resolver_inv d s \<longleftrightarrow> gmap_ok (r_cache (bs_resolver s)) \<and>
     (\<forall>eval. dn_evaluate d = Some eval \<longrightarrow> capc.justified (evaluated_for eval) (r_cache (bs_resolver s)))"

definition analytics_inv :: "('p, 'w) dependencies \<Rightarrow> ('p, 'w) bff_state \<Rightarrow> bool" where
  "analytics_inv d s \<longleftrightarrow> (\<forall>env es. dn_analytics d = Some (env, es) \<longrightarrow> cache_inv es (bs_engine s))"

definition server_inv :: "('p, 'w) dependencies \<Rightarrow> ('p, 'w) bff_state \<Rightarrow> bool" where
  "server_inv d s \<longleftrightarrow> resolver_inv d s \<and> lookup_inv (bs_lookups s) \<and> analytics_inv d s"

lemma resolve_with_inv:
  assumes "dn_evaluate d = Some eval" and "resolver_inv d s"
  shows "resolver_inv d (snd (resolve_with eval t0 t1 rctx s)) \<and>
    (\<forall>caps. fst (resolve_with eval t0 t1 rctx s) = Inr caps \<longrightarrow> evaluated_for eval (cap_cache_key rctx) caps)"
proof (cases "cap_lookup t0 (cap_cache_key rctx) (r_cache (bs_resolver s))")
  case (Some caps)
  with assms capc.justified_hit show ?thesis
    by (auto simp: resolve_with_def Resolve_def resolver_inv_def Let_def)
next
  case None
  show ?thesis
  proof (cases "eval rctx")
    case (Inl err)
    with assms None show ?thesis by (auto simp: resolve_with_def Resolve_def resolver_inv_def Let_def)
  next
    case (Inr caps)
    then have "evaluated_for eval (cap_cache_key rctx) caps" by (auto simp: evaluated_for_def)
    moreover from this have "capc.justified (evaluated_for eval)
        (cap_store (r_ttl (bs_resolver s)) t1 (cap_cache_key rctx) caps (r_cache (bs_resolver s)))"
      using assms by (intro capc.justified_put) (auto simp: resolver_inv_def)
    ultimately show ?thesis using assms None Inr
      by (auto simp: resolve_with_def Resolve_def resolver_inv_def cap_store_def gmap_ok_gput Let_def)
  qed
qed

subsection \<open>The handlers keep the caches\<close>

definition same_caches :: "('p, 'w) bff_state \<Rightarrow> ('p, 'w) bff_state \<Rightarrow> bool" where
  "same_caches s s' \<longleftrightarrow>
     bs_resolver s' = bs_resolver s \<and> bs_lookups s' = bs_lookups s \<and> bs_engine s' = bs_engine s"

lemma same_caches_inv: "same_caches s s' \<Longrightarrow> server_inv d s \<Longrightarrow> server_inv d s'"
  by (simp add: same_caches_def server_inv_def resolver_inv_def analytics_inv_def)

lemma same_caches_refl [simp]: "same_caches s s" "same_caches s (s\<lparr>bs_world := w\<rparr>)"
  by (simp_all add: same_caches_def)

lemma same_caches_context:
  "(\<And>rctx. same_caches s (snd (f rctx r s))) \<Longrightarrow> same_caches s (snd (with_context f r s))"
  by (simp add: with_context_def split: option.split)

lemma same_caches_run_command [simp]: "same_caches s (snd (run_command d rctx cid input r s))"
  by (simp add: run_command_def split: prod.split option.split)

lemma same_caches_proxy [simp]: "same_caches s (snd (proxy e req ks s))"
  by (simp add: proxy_def split: prod.split sum.split)

lemma plain_cores:
  "same_caches s (snd (handleNavigation d r s))" "same_caches s (snd (handleGetPage d r s))"
  "same_caches s (snd (handleGetPageData d r s))" "same_caches s (snd (handleGetForm d r s))"
  "same_caches s (snd (handleGetFormData d r s))" "same_caches s (snd (handleGetSchema d r s))"
  "same_caches s (snd (handleGetResource d r s))" "same_caches s (snd (handleGetResourceItem d r s))"
  "same_caches s (snd (handleResourceSearch d r s))" "same_caches s (snd (handleSearch d r s))"
  "same_caches s (snd (handleUpload d r s))" "same_caches s (snd (handleDownload d r s))"
  unfolding handleNavigation_def handleGetPage_def handleGetPageData_def handleGetForm_def
    handleGetFormData_def handleGetSchema_def handleGetResource_def handleGetResourceItem_def
    handleResourceSearch_def handleSearch_def handleUpload_def handleDownload_def
  by (simp_all add: same_caches_context split: prod.split)

lemma command_cores:
  "same_caches s (snd (handleCommand d r s))" "same_caches s (snd (handleAction d r s))"
  unfolding handleCommand_def handleAction_def
  by (simp_all add: same_caches_context Let_def split: prod.split option.split)

lemma lookup_core: "lookup_inv (bs_lookups s) \<Longrightarrow> lookup_inv (bs_lookups (snd (handleLookup d r s)))"
proof (cases "RequestContextFrom (rq_context r)")
  case (Some rctx)
  assume inv: "lookup_inv (bs_lookups s)"
  obtain res lp w where g: "GetLookup (rq_clock r 3) (rq_clock r 4) (rq_clock r 5) rctx (path_value r ''lookupId'')
      (query_get r ''q'') (bs_lookups s) (bs_world s) = (res, lp, w)"
    by (metis prod_cases3)
  from GetLookup_inv [OF inv g] Some g show ?thesis by (simp add: handleLookup_def with_context_def)
qed (simp add: handleLookup_def with_context_def)

lemma lookup_core_only:
  "bs_resolver (snd (handleLookup d r s)) = bs_resolver s" "bs_engine (snd (handleLookup d r s)) = bs_engine s"
  by (simp_all add: handleLookup_def with_context_def split: option.split prod.split)

lemma resolve_with_only:
  "bs_lookups (snd (resolve_with eval t0 t1 rctx s)) = bs_lookups s"
  "bs_engine (snd (resolve_with eval t0 t1 rctx s)) = bs_engine s"
  by (simp_all add: resolve_with_def split: prod.split)

lemma resolve_with_server:
  "dn_evaluate d = Some eval \<Longrightarrow> server_inv d s \<Longrightarrow> server_inv d (snd (resolve_with eval t0 t1 rctx s))"
  using resolve_with_inv [of d eval s t0 t1 rctx]
  by (simp add: server_inv_def analytics_inv_def resolve_with_only)

lemma capability_cores:
  assumes "server_inv d s"
  shows "server_inv d (snd (handleCapabilities d r s))" and "server_inv d (snd (handleBatchCheck d r s))"
  unfolding handleCapabilities_def handleBatchCheck_def with_context_def
  using assms resolve_with_server [OF _ assms]
  by (auto simp: split_beta split: option.split sum.split)

lemma analytics_core:
  assumes "server_inv d s" and "dn_analytics d = Some (env, es)"
  shows "server_inv d (snd (handleAnalytics d env es route r s))"
proof (cases "serve_call env es (analytics_call d route r) (bs_engine s) (bs_world s)")
  case None
  with assms show ?thesis by (simp add: handleAnalytics_def)
next
  case (Some res)
  obtain resp e w where res: "res = (resp, e, w)" by (cases res) auto
  have "cache_inv es (bs_engine s)" using assms by (simp add: server_inv_def analytics_inv_def)
  from serve_call_cache [OF this Some [unfolded res]] have "cache_inv es e" .
  with Some res assms show ?thesis
    by (simp add: handleAnalytics_def server_inv_def resolver_inv_def analytics_inv_def)
qed

interpretation server: server_invariant d "server_inv d" for d :: "('p, 'w) dependencies"
proof
  show "dn_evaluate d = Some eval \<Longrightarrow> server_inv d s \<Longrightarrow> server_inv d (snd (resolve_with eval t0 t1 rctx s))"
    for eval s t0 t1 rctx by (rule resolve_with_server)
  show "server_inv d (snd (core r s))"
    if "core \<in> snd ` set (core_routes d @ RegisterRoutes d)" and inv: "server_inv d s" for core r s
  proof -
    note plain = same_caches_inv [OF plain_cores(1) inv] same_caches_inv [OF plain_cores(2) inv]
      same_caches_inv [OF plain_cores(3) inv] same_caches_inv [OF plain_cores(4) inv]
      same_caches_inv [OF plain_cores(5) inv] same_caches_inv [OF plain_cores(6) inv]
      same_caches_inv [OF plain_cores(7) inv] same_caches_inv [OF plain_cores(8) inv]
      same_caches_inv [OF plain_cores(9) inv] same_caches_inv [OF plain_cores(10) inv]
      same_caches_inv [OF plain_cores(11) inv] same_caches_inv [OF plain_cores(12) inv]
      same_caches_inv [OF command_cores(1) inv] same_caches_inv [OF command_cores(2) inv]
    have lk: "server_inv d (snd (handleLookup d r s))"
      using inv lookup_core [of s d r] lookup_core_only [of d r s]
      by (simp add: server_inv_def resolver_inv_def analytics_inv_def)
    have "\<forall>core\<in>set (List.map snd (core_routes d)). server_inv d (snd (core r s))"
      by (simp add: core_routes_def plain lk capability_cores [OF inv])
    moreover have "\<forall>core\<in>set (List.map snd (RegisterRoutes d)). server_inv d (snd (core r s))"
      using inv by (auto simp: RegisterRoutes_def analytics_core split: option.split)
    ultimately show ?thesis using that(1) by auto
  qed
qed

end
