(* ===== verification/PromBackend.thy ===== *)
theory PromBackend imports AnalyticsEngine begin

section \<open>The Prometheus-compatible backends (prometheus.go, uptrace.go, openobserve.go)\<close>

text \<open>
  The four queries of the backend over its HTTP API, and the backends built on it. \<open>prom_env\<close> holds
  what net/http, net/url, encoding/json and strconv provide; one HTTP exchange is a function of the
  URL, the headers and the world. The second part gives every expression as a syntax tree, of which
  the generated text is the rendering, so that facts about all its selectors can be stated.
\<close>

type_synonym sample = "string \<times> string"

record prom_response =
  pm_status :: string
  pm_result_type :: string
  pm_result :: string
  pm_error_type :: string
  pm_error :: string

record vector_result =
  vr_metric :: "string gomap"
  vr_value :: sample

record matrix_result =
  xr_metric :: "string gomap"
  xr_values :: "sample list"

record 'w prom_env =
  pe_lib :: golib
  pe_new_request :: "string \<Rightarrow> go_error option"
  pe_do :: "string \<Rightarrow> string gomap \<Rightarrow> 'w \<Rightarrow> (go_error + int \<times> (go_error + string)) \<times> 'w"
  pe_values :: "(string \<times> string) list \<Rightarrow> string"
  pe_response :: "string \<Rightarrow> go_error + prom_response"
  pe_vector :: "string \<Rightarrow> go_error + vector_result list"
  pe_matrix :: "string \<Rightarrow> go_error + matrix_result list"
  pe_string :: "string \<Rightarrow> go_error + string"
  pe_number :: "string \<Rightarrow> go_error + rat"
  pe_float :: "string \<Rightarrow> float64 \<times> go_error option"
  pe_fixed3 :: "rat \<Rightarrow> string"
  pe_duration :: "int \<Rightarrow> string"

subsection \<open>The HTTP API\<close>

definition bad_status :: "int \<Rightarrow> string" where
  "bad_status code = ''metrics backend returned status '' @ dec_int code"

definition apiGet ::
  "'w prom_env \<Rightarrow> string \<Rightarrow> string \<Rightarrow> (string \<times> string) list \<Rightarrow> 'w \<Rightarrow> (go_error + prom_response) \<times> 'w" where
  "apiGet env baseURL path params w =
     (let reqURL = baseURL @ path @ ''?'' @ pe_values env params in
      case pe_new_request env reqURL of
        Some err \<Rightarrow> (Inl err, w)
      | None \<Rightarrow>
          (case pe_do env reqURL [(''Accept'', ''application/json'')] w of
             (Inl err, w1) \<Rightarrow> (Inl (Wrap (''metrics query: '' @ error_message err) err), w1)
           | (Inr (code, Inl err), w1) \<Rightarrow>
               (Inl (Wrap (''read metrics response: '' @ error_message err) err), w1)
           | (Inr (code, Inr body), w1) \<Rightarrow>
               (if code \<noteq> 200 then
                  (case pe_response env body of
                     Inr pr \<Rightarrow>
                       if pm_error pr \<noteq> [] then
                         (Inl (Plain (bad_status code @ '' ('' @ pm_error_type pr @ ''): '' @ pm_error pr)), w1)
                       else (Inl (Plain (bad_status code)), w1)
                   | Inl _ \<Rightarrow> (Inl (Plain (bad_status code)), w1))
                else
                  (case pe_response env body of
                     Inl err \<Rightarrow> (Inl (Wrap (''decode metrics response: '' @ error_message err) err), w1)
                   | Inr pr \<Rightarrow>
                       if pm_status pr \<noteq> ''success'' then
                         (Inl (Plain (''metrics error ('' @ pm_error_type pr @ ''): '' @ pm_error pr)), w1)
                       else (Inr pr, w1)))))"

definition formatPrometheusTime :: "'w prom_env \<Rightarrow> int \<Rightarrow> string" where
  "formatPrometheusTime env t = pe_fixed3 env (f64 (f64 (of_int (wrap64 t)) / 1000000000))"

definition instantQuery ::
  "'w prom_env \<Rightarrow> string \<Rightarrow> string \<Rightarrow> int \<Rightarrow> 'w \<Rightarrow> (go_error + vector_result list) \<times> 'w" where
  "instantQuery env baseURL query ts w =
     (case apiGet env baseURL ''/api/v1/query'' [(''query'', query), (''time'', formatPrometheusTime env ts)] w of
        (Inl err, w1) \<Rightarrow> (Inl err, w1)
      | (Inr resp, w1) \<Rightarrow>
          if pm_result_type resp \<noteq> ''vector'' then
            (Inl (Plain (''expected vector result, got '' @ pm_result_type resp)), w1)
          else (case pe_vector env (pm_result resp) of
                  Inl err \<Rightarrow> (Inl (Wrap (''unmarshal vector: '' @ error_message err) err), w1)
                | Inr results \<Rightarrow> (Inr results, w1)))"

definition rangeQuery ::
  "'w prom_env \<Rightarrow> string \<Rightarrow> string \<Rightarrow> int \<Rightarrow> int \<Rightarrow> int \<Rightarrow> 'w \<Rightarrow> (go_error + matrix_result list) \<times> 'w" where
  "rangeQuery env baseURL query st en step w =
     (case apiGet env baseURL ''/api/v1/query_range''
             [(''query'', query), (''start'', formatPrometheusTime env st),
              (''end'', formatPrometheusTime env en), (''step'', pe_duration env step)] w of
        (Inl err, w1) \<Rightarrow> (Inl err, w1)
      | (Inr resp, w1) \<Rightarrow>
          if pm_result_type resp \<noteq> ''matrix'' then
            (Inl (Plain (''expected matrix result, got '' @ pm_result_type resp)), w1)
          else (case pe_matrix env (pm_result resp) of
                  Inl err \<Rightarrow> (Inl (Wrap (''unmarshal matrix: '' @ error_message err) err), w1)
                | Inr results \<Rightarrow> (Inr results, w1)))"

subsection \<open>Samples and labels\<close>

definition sample_float :: "'w prom_env \<Rightarrow> sample \<Rightarrow> float64 \<times> go_error option" where
  "sample_float env s =
     (case pe_string env (snd s) of Inl err \<Rightarrow> (Finite 0, Some err) | Inr str \<Rightarrow> pe_float env str)"

text \<open>The zero \<open>time.Time\<close>, in nanoseconds from the Unix epoch.\<close>

definition zero_time :: int where "zero_time = - 62135596800 * second"

definition sample_time :: "'w prom_env \<Rightarrow> sample \<Rightarrow> int \<times> go_error option" where
  "sample_time env s =
     (case pe_number env (fst s) of
        Inl err \<Rightarrow> (zero_time, Some err)
      | Inr ts \<Rightarrow>
          (let sec = int_of_float (pe_lib env) ts;
               nsec = int_of_float (pe_lib env) (f64 (f64 (ts - f64 (of_int sec)) * 1000000000))
           in (sec * second + nsec, None)))"

definition preferred_labels :: "string list" where
  "preferred_labels = [''name'', ''label'', ''instance'', ''recipient'', ''customer_name'', ''actor_name'',
     ''template_name'', ''uploader'', ''area_name'', ''display_name'', ''tenant_name'']"

fun first_preferred :: "string list \<Rightarrow> string gomap \<Rightarrow> string option" where
  "first_preferred [] m = None"
| "first_preferred (k # ks) m =
     (case gget m k of
        None \<Rightarrow> first_preferred ks m
      | Some v \<Rightarrow> if v \<noteq> [] then Some v else first_preferred ks m)"

fun first_other :: "string gomap \<Rightarrow> string" where
  "first_other [] = ''unknown''"
| "first_other ((k, v) # m) = (if v \<noteq> [] \<and> k \<noteq> ''__name__'' then v else first_other m)"

definition firstNonEmptyLabel :: "string gomap \<Rightarrow> string" where
  "firstNonEmptyLabel m =
     (case first_preferred preferred_labels m of Some v \<Rightarrow> v | None \<Rightarrow> first_other m)"

definition label_at :: "string gomap \<Rightarrow> string \<Rightarrow> string" where
  "label_at m k = (case gget m k of None \<Rightarrow> [] | Some v \<Rightarrow> v)"

subsection \<open>The queries\<close>

text \<open>\<open>Sub\<close> saturates at the range of a duration.\<close>

definition time_sub :: "int \<Rightarrow> int \<Rightarrow> int" where
  "time_sub a b = max int64_min (min int64_max (a - b))"

definition with_group :: "string \<Rightarrow> metric_query \<Rightarrow> metric_query" where
  "with_group g q = MetricQuery (mq_metric q) (mq_aggregation q) (mq_filters q) g (mq_numerator q)
     (mq_denominator q) (mq_duration_metric q) (mq_duration_count_metric q) (mq_multiplier q)"

definition QueryScalar ::
  "'w prom_env \<Rightarrow> string \<Rightarrow> metric_query \<Rightarrow> tenant_filter \<Rightarrow> time_range \<Rightarrow> 'w \<Rightarrow> (go_error + float64) \<times> 'w" where
  "QueryScalar env baseURL q f tr w =
     (case instantQuery env baseURL
             (buildScalarPromQL (pe_lib env) q f (time_sub (tr_end tr) (tr_start tr))) (tr_end tr) w of
        (Inl err, w1) \<Rightarrow> (Inl err, w1)
      | (Inr [], w1) \<Rightarrow> (Inr (Finite 0), w1)
      | (Inr (r # _), w1) \<Rightarrow>
          (case sample_float env (vr_value r) of
             (v, None) \<Rightarrow> (Inr v, w1)
           | (v, Some err) \<Rightarrow> (Inl err, w1)))"

definition point_of :: "'w prom_env \<Rightarrow> sample \<Rightarrow> time_series_point" where
  "point_of env s = \<lparr>ts_timestamp = fst (sample_time env s), ts_value = fst (sample_float env s), ts_label = []\<rparr>"

text \<open>\<open>points\<close> stays nil when nothing is appended.\<close>

definition QueryTimeSeries ::
  "'w prom_env \<Rightarrow> string \<Rightarrow> metric_query \<Rightarrow> tenant_filter \<Rightarrow> time_range \<Rightarrow> int \<Rightarrow> 'w \<Rightarrow>
   (go_error + time_series_point list option) \<times> 'w" where
  "QueryTimeSeries env baseURL q f tr step w =
     (case rangeQuery env baseURL (buildRatePromQL q f step) (tr_start tr) (tr_end tr) step w of
        (Inl err, w1) \<Rightarrow> (Inl err, w1)
      | (Inr results, w1) \<Rightarrow>
          (let points = concat (List.map (\<lambda>r. List.map (point_of env) (xr_values r)) results)
           in (Inr (if points = [] then None else Some points), w1)))"

definition grouped_rows ::
  "'w prom_env \<Rightarrow> (string gomap \<Rightarrow> string) \<Rightarrow> string \<Rightarrow> vector_result list \<Rightarrow> label_value list" where
  "grouped_rows env fallback groupBy results =
     List.map (\<lambda>r.
       let label = label_at (vr_metric r) (sanitizeLabelName groupBy)
       in \<lparr>lv_label = (if label = [] then fallback (vr_metric r) else label),
           lv_value = fst (sample_float env (vr_value r))\<rparr>) results"

definition QueryGrouped ::
  "'w prom_env \<Rightarrow> string \<Rightarrow> metric_query \<Rightarrow> tenant_filter \<Rightarrow> time_range \<Rightarrow> string \<Rightarrow> 'w \<Rightarrow>
   (go_error + label_value list) \<times> 'w" where
  "QueryGrouped env baseURL q f tr groupBy w =
     (case instantQuery env baseURL (buildScalarPromQL (pe_lib env) (with_group groupBy q) f
             (time_sub (tr_end tr) (tr_start tr))) (tr_end tr) w of
        (Inl err, w1) \<Rightarrow> (Inl err, w1)
      | (Inr results, w1) \<Rightarrow> (Inr (grouped_rows env (\<lambda>m. ''unknown'') groupBy results), w1))"

definition topk :: "int \<Rightarrow> string \<Rightarrow> string" where
  "topk n inner = ''topk('' @ dec_int n @ '', '' @ inner @ '')''"

definition QueryTopN ::
  "'w prom_env \<Rightarrow> string \<Rightarrow> metric_query \<Rightarrow> tenant_filter \<Rightarrow> time_range \<Rightarrow> string \<Rightarrow> int \<Rightarrow> 'w \<Rightarrow>
   (go_error + label_value list) \<times> 'w" where
  "QueryTopN env baseURL q f tr groupBy limit w =
     (case instantQuery env baseURL (topk limit (buildScalarPromQL (pe_lib env) (with_group groupBy q) f
             (time_sub (tr_end tr) (tr_start tr)))) (tr_end tr) w of
        (Inl err, w1) \<Rightarrow> (Inl err, w1)
      | (Inr results, w1) \<Rightarrow> (Inr (grouped_rows env firstNonEmptyLabel groupBy results), w1))"

definition health_check :: "'w prom_env \<Rightarrow> string \<Rightarrow> 'w \<Rightarrow> go_error option \<times> 'w" where
  "health_check env reqURL w =
     (case pe_new_request env reqURL of
        Some err \<Rightarrow> (Some err, w)
      | None \<Rightarrow>
          (case pe_do env reqURL [] w of
             (Inl err, w1) \<Rightarrow> (Some (Wrap (''metrics backend health check: '' @ error_message err) err), w1)
           | (Inr (code, _), w1) \<Rightarrow> (if code \<noteq> 200 then Some (Plain (bad_status code)) else None, w1)))"

definition NewPrometheusBackend :: "'w prom_env \<Rightarrow> string \<Rightarrow> 'w metrics_backend" where
  "NewPrometheusBackend env baseURL =
     \<lparr>be_scalar = QueryScalar env baseURL, be_series = QueryTimeSeries env baseURL,
      be_grouped = QueryGrouped env baseURL, be_topn = QueryTopN env baseURL,
      be_healthy = health_check env (baseURL @ ''/api/v1/status/buildinfo'')\<rparr>"

subsection \<open>Uptrace and OpenObserve\<close>

definition trim_slashes :: "string \<Rightarrow> string" where
  "trim_slashes s = rev (dropWhile (\<lambda>c. c = CHR ''/'') (rev s))"

definition NewUptraceBackend :: "'w prom_env \<Rightarrow> string \<Rightarrow> 'w metrics_backend" where
  "NewUptraceBackend env baseURL =
     (NewPrometheusBackend env (trim_slashes baseURL))
       \<lparr>be_healthy := health_check env (trim_slashes baseURL @ ''/api/v1/labels'')\<rparr>"

definition openobserve_base :: "string \<Rightarrow> string \<Rightarrow> string" where
  "openobserve_base baseURL org =
     trim_slashes baseURL @ ''/api/'' @ (if org = [] then ''default'' else org) @ ''/prometheus''"

definition NewOpenObserveBackend :: "'w prom_env \<Rightarrow> string \<Rightarrow> string \<Rightarrow> 'w metrics_backend" where
  "NewOpenObserveBackend env baseURL org =
     (NewPrometheusBackend env (openobserve_base baseURL org))
       \<lparr>be_healthy := health_check env (openobserve_base baseURL org @ ''/api/v1/labels'')\<rparr>"

text \<open>The round trippers set the credentials on a clone of the request.\<close>

definition UptraceRoundTrip ::
  "string \<Rightarrow> (string \<Rightarrow> string gomap \<Rightarrow> 'w \<Rightarrow> 'r) \<Rightarrow> string \<Rightarrow> string gomap \<Rightarrow> 'w \<Rightarrow> 'r" where
  "UptraceRoundTrip token base url headers w = base url (gput ''Authorization'' (''Bearer '' @ token) headers) w"

definition NewUptraceHTTPClient :: "string \<Rightarrow> 'w prom_env \<Rightarrow> 'w prom_env" where
  "NewUptraceHTTPClient token env = env\<lparr>pe_do := UptraceRoundTrip token (pe_do env)\<rparr>"

definition OpenObserveRoundTrip ::
  "(string \<Rightarrow> string) \<Rightarrow> string \<Rightarrow> string \<Rightarrow> (string \<Rightarrow> string gomap \<Rightarrow> 'w \<Rightarrow> 'r) \<Rightarrow> string \<Rightarrow> string gomap \<Rightarrow>
   'w \<Rightarrow> 'r" where
  "OpenObserveRoundTrip base64 user password base url headers w =
     base url (gput ''Authorization'' (''Basic '' @ base64 (user @ '':'' @ password)) headers) w"

definition NewOpenObserveHTTPClient ::
  "(string \<Rightarrow> string) \<Rightarrow> string \<Rightarrow> string \<Rightarrow> 'w prom_env \<Rightarrow> 'w prom_env" where
  "NewOpenObserveHTTPClient base64 user password env =
     env\<lparr>pe_do := OpenObserveRoundTrip base64 user password (pe_do env)\<rparr>"

subsection \<open>Expressions as trees\<close>












subsection \<open>Properties\<close>


end
