(* ===== verification/Policy.thy ===== *)
theory Policy imports Capability Config Definitions begin

section \<open>Policy evaluators (pkg/capability/keto_policy.go, static_policy.go)\<close>

text \<open>
  \<open>KetoPolicyEvaluator\<close> asks the authorizer about every known capability, in batches of at most
  ten, and falls back to single checks for the rest once a batch fails. The authorizer (a third
  party library) is the pair of arguments \<open>batch\<close> and \<open>check\<close>. An index out of range, a panic in
  Go, is \<open>None\<close>. \<open>CollectCapabilityChecks\<close> derives the checks from the definitions.
\<close>

subsection \<open>The static evaluator\<close>

text \<open>The policy file as decoded: roles to capabilities.\<close>

definition static_caps :: "string list gomap \<Rightarrow> string list \<Rightarrow> capability_set" where
  "static_caps policy roles =
     fold (\<lambda>role caps.
        fold (\<lambda>cap caps. gput cap True caps)
          (case gget policy role of None \<Rightarrow> [] | Some cs \<Rightarrow> cs) caps)
       roles []"

definition StaticResolveCapabilities ::
  "string list gomap \<Rightarrow> request_context \<Rightarrow> go_error + capability_set" where
  "StaticResolveCapabilities policy rctx = Inr (static_caps policy (Roles rctx))"

text \<open>Sync: the new policy, or the error that leaves the old one in place.\<close>

definition Sync ::
  "(string \<Rightarrow> go_error + string) \<Rightarrow> (string \<Rightarrow> go_error + string list gomap) \<Rightarrow> string \<Rightarrow>
   string list gomap \<Rightarrow> go_error option \<times> string list gomap" where
  "Sync read unmarshal path policy =
     (case read path of
        Inl err \<Rightarrow>
          (Some (Wrap (''capability: reading policy file '' @ path @ '': '' @ error_message err) err),
           policy)
      | Inr data \<Rightarrow>
          (case unmarshal data of
             Inl err \<Rightarrow>
               (Some (Wrap (''capability: parsing policy file '' @ path @ '': '' @ error_message err)
                  err), policy)
           | Inr p \<Rightarrow> (None, p)))"

lemma gget_fold_true:
  "gget (fold (\<lambda>cap caps. gput cap True caps) cs m) c =
     (if c \<in> set cs then Some True else gget m c)"
  by (induction cs arbitrary: m) (auto simp: gget_gput)

lemma gget_static_caps:
  "gget (static_caps policy roles) c =
     (if \<exists>role\<in>set roles. \<exists>cs. gget policy role = Some cs \<and> c \<in> set cs then Some True else None)"
proof -
  have "gget (fold (\<lambda>role caps. fold (\<lambda>cap caps. gput cap True caps)
          (case gget policy role of None \<Rightarrow> [] | Some cs \<Rightarrow> cs) caps) rs m) c =
        (if \<exists>role\<in>set rs. \<exists>cs. gget policy role = Some cs \<and> c \<in> set cs then Some True
         else gget m c)" for rs m
    by (induction rs arbitrary: m) (auto simp: gget_fold_true split: option.splits)
  then show ?thesis by (simp add: static_caps_def)
qed

subsection \<open>Capability names and Keto permissions\<close>

definition CapabilityToPermission :: "string \<Rightarrow> string" where
  "CapabilityToPermission capability = replace_all '':'' ''_'' capability"

definition PermissionToCapability :: "string \<Rightarrow> string" where
  "PermissionToCapability permission = replace_all ''_'' '':'' permission"

lemma CapabilityToPermission_map:
  "CapabilityToPermission c = List.map (\<lambda>x. if x = CHR '':'' then CHR ''_'' else x) c"
  by (simp add: CapabilityToPermission_def replace_all_char)

lemma PermissionToCapability_map:
  "PermissionToCapability c = List.map (\<lambda>x. if x = CHR ''_'' then CHR '':'' else x) c"
  by (simp add: PermissionToCapability_def replace_all_char)

subsection \<open>The Keto evaluator\<close>

definition maxBatchSize :: nat where "maxBatchSize = 10"

record capability_check =
  ck_capability :: string
  ck_namespace :: string

record check_request =
  rq_object_ns :: string
  rq_object_id :: string
  rq_permission :: string
  rq_subject_ns :: string
  rq_subject_id :: string

text \<open>\<open>profile_ns\<close> is the constant \<open>security.NamespaceProfile\<close> of the Frame library.\<close>

definition request_for :: "string \<Rightarrow> request_context \<Rightarrow> capability_check \<Rightarrow> check_request" where
  "request_for profile_ns rctx chk =
     \<lparr>rq_object_ns = ck_namespace chk,
      rq_object_id = TenantID rctx @ ''/'' @ PartitionID rctx,
      rq_permission = CapabilityToPermission (ck_capability chk),
      rq_subject_ns = profile_ns,
      rq_subject_id = SubjectID rctx\<rparr>"

fun grant_results ::
  "capability_check list \<Rightarrow> nat \<Rightarrow> bool list \<Rightarrow> capability_set \<Rightarrow> capability_set option" where
  "grant_results checks idx [] caps = Some caps"
| "grant_results checks idx (allowed # rs) caps =
     (if allowed then
        (if idx < length checks
         then grant_results checks (Suc idx) rs (gput (ck_capability (checks ! idx)) True caps)
         else None)
      else grant_results checks (Suc idx) rs caps)"

fun fallbackIndividualChecks ::
  "(check_request \<Rightarrow> go_error + bool) \<Rightarrow> capability_check list \<Rightarrow> check_request list \<Rightarrow> nat \<Rightarrow>
   capability_set \<Rightarrow> capability_set option" where
  "fallbackIndividualChecks check checks [] offset caps = Some caps"
| "fallbackIndividualChecks check checks (req # reqs) offset caps =
     (case check req of
        Inl err \<Rightarrow> fallbackIndividualChecks check checks reqs (Suc offset) caps
      | Inr allowed \<Rightarrow>
          if allowed then
            (if offset < length checks
             then fallbackIndividualChecks check checks reqs (Suc offset)
                    (gput (ck_capability (checks ! offset)) True caps)
             else None)
          else fallbackIndividualChecks check checks reqs (Suc offset) caps)"

text \<open>\<open>for capName := range fallback { caps[capName] = true }\<close>\<close>

definition merge_caps :: "capability_set \<Rightarrow> capability_set \<Rightarrow> capability_set" where
  "merge_caps fallback caps = fold (\<lambda>(capName, _) m. gput capName True m) fallback caps"

function keto_chunks ::
  "(check_request list \<Rightarrow> go_error + bool list) \<Rightarrow> (check_request \<Rightarrow> go_error + bool) \<Rightarrow>
   capability_check list \<Rightarrow> check_request list \<Rightarrow> nat \<Rightarrow> capability_set \<Rightarrow>
   capability_set option" where
  "keto_chunks batch check checks requests start caps =
     (if start < length requests then
        (let chunk = take maxBatchSize (drop start requests) in
         case batch chunk of
           Inl err \<Rightarrow>
             (case fallbackIndividualChecks check checks (drop start requests) start [] of
                None \<Rightarrow> None
              | Some fallback \<Rightarrow> Some (merge_caps fallback caps))
         | Inr results \<Rightarrow>
             (case grant_results checks start results caps of
                None \<Rightarrow> None
              | Some caps' \<Rightarrow>
                  keto_chunks batch check checks requests (start + maxBatchSize) caps'))
      else Some caps)"
  by pat_completeness auto
termination
  by (relation "measure (\<lambda>(b, c, cs, requests, start, caps). length requests - start)")
     (auto simp: maxBatchSize_def)

declare keto_chunks.simps [simp del]

definition KetoResolveCapabilities ::
  "string \<Rightarrow> (check_request list \<Rightarrow> go_error + bool list) \<Rightarrow> (check_request \<Rightarrow> go_error + bool) \<Rightarrow>
   capability_check list \<Rightarrow> request_context \<Rightarrow> capability_set option" where
  "KetoResolveCapabilities profile_ns batch check checks rctx =
     (if length checks = 0 then Some []
      else keto_chunks batch check checks (List.map (request_for profile_ns rctx) checks) 0 [])"

subsection \<open>Exactness of the chunked evaluation\<close>

definition names_where :: "(check_request \<Rightarrow> bool) \<Rightarrow> capability_check list \<Rightarrow> check_request list \<Rightarrow> string set" where
  "names_where allowed checks requests =
     {ck_capability chk | chk req. (chk, req) \<in> set (zip checks requests) \<and> allowed req}"

definition true_keys :: "capability_set \<Rightarrow> string set" where
  "true_keys caps = {c. gget caps c = Some True}"

lemma true_keys_gput: "true_keys (gput c True m) = insert c (true_keys m)"
  by (auto simp: true_keys_def gget_gput)

lemma names_where_step:
  assumes "i < length checks" and "length requests = length checks"
  shows "names_where P (drop i checks) (drop i requests) =
    (if P (requests ! i) then {ck_capability (checks ! i)} else {}) \<union>
    names_where P (drop (Suc i) checks) (drop (Suc i) requests)"
  using assms by (auto simp: names_where_def Cons_nth_drop_Suc [symmetric])

lemma names_where_split:
  "names_where P checks requests =
     names_where P (take n checks) (take n requests) \<union>
     names_where P (drop n checks) (drop n requests)"
proof -
  have "zip checks requests =
        zip (take n checks) (take n requests) @ zip (drop n checks) (drop n requests)"
    by (metis append_take_drop_id drop_zip take_zip)
  then show ?thesis by (auto simp: names_where_def)
qed

lemma zip_take_right: "zip xs (take n ys) = take n (zip xs ys)"
  by (rule nth_equalityI) auto

lemma zip_take_both: "zip (take n xs) (take n ys) = zip xs (take n ys)"
  by (simp only: zip_take_right [of xs n ys] take_zip)

lemma grant_results_spec:
  assumes "idx + length reqs \<le> length checks"
  shows "\<exists>caps'. grant_results checks idx (List.map P reqs) caps = Some caps' \<and>
     true_keys caps' = true_keys caps \<union> names_where P (drop idx checks) reqs"
  using assms
proof (induction reqs arbitrary: idx caps)
  case Nil
  then show ?case by (simp add: names_where_def)
next
  case (Cons r reqs)
  then have lt: "idx < length checks" and le: "Suc idx + length reqs \<le> length checks" by auto
  have dr: "drop idx checks = checks ! idx # drop (Suc idx) checks"
    using lt by (simp add: Cons_nth_drop_Suc)
  have nw: "names_where P (drop idx checks) (r # reqs) =
    (if P r then {ck_capability (checks ! idx)} else {}) \<union>
    names_where P (drop (Suc idx) checks) reqs"
    by (auto simp: names_where_def dr)
  show ?case
    using Cons.IH [OF le, of caps]
      Cons.IH [OF le, of "gput (ck_capability (checks ! idx)) True caps"] lt
    by (auto simp: nw true_keys_gput)
qed

lemma fallback_spec:
  assumes "offset + length reqs \<le> length checks"
    and "\<And>r b. check r = Inr b \<Longrightarrow> b = P r"
  shows "\<exists>caps'. fallbackIndividualChecks check checks reqs offset caps = Some caps' \<and>
     true_keys caps' =
       true_keys caps \<union> names_where (\<lambda>r. P r \<and> is_ok (check r)) (drop offset checks) reqs"
  using assms(1)
proof (induction reqs arbitrary: offset caps)
  case Nil
  then show ?case by (simp add: names_where_def)
next
  case (Cons r reqs)
  then have lt: "offset < length checks" and le: "Suc offset + length reqs \<le> length checks" by auto
  have dr: "drop offset checks = checks ! offset # drop (Suc offset) checks"
    using lt by (simp add: Cons_nth_drop_Suc)
  have nw: "names_where Q (drop offset checks) (r # reqs) =
    (if Q r then {ck_capability (checks ! offset)} else {}) \<union>
    names_where Q (drop (Suc offset) checks) reqs" for Q
    by (auto simp: names_where_def dr)
  show ?case
    using Cons.IH [OF le, of caps]
      Cons.IH [OF le, of "gput (ck_capability (checks ! offset)) True caps"] lt assms(2) [of r]
    by (auto simp: nw true_keys_gput is_ok_def split: sum.splits)
qed

definition all_true :: "capability_set \<Rightarrow> bool" where
  "all_true caps \<longleftrightarrow> (\<forall>k v. gget caps k = Some v \<longrightarrow> v)"

lemma true_keys_merge:
  "true_keys (merge_caps fallback caps) = true_keys caps \<union> set (gkeys fallback)"
proof -
  have "true_keys (fold (\<lambda>(n, _) m. gput n True m) f m) = true_keys m \<union> set (gkeys f)"
    for f m :: capability_set
    by (induction f arbitrary: m) (auto simp: true_keys_gput)
  then show ?thesis by (simp add: merge_caps_def)
qed

lemma fallback_keys:
  "fallbackIndividualChecks check checks reqs offset caps = Some caps' \<Longrightarrow>
   set (gkeys caps) \<subseteq> true_keys caps \<Longrightarrow> set (gkeys caps') \<subseteq> true_keys caps'"
proof (induction reqs arbitrary: offset caps)
  case Nil
  then show ?case by simp
next
  case (Cons r reqs)
  have grow: "set (gkeys (gput c True caps)) \<subseteq> true_keys (gput c True caps)" for c
    using Cons.prems(2) by (auto simp: true_keys_gput dom_update)
  show ?case
    using Cons.prems Cons.IH [OF _ Cons.prems(2)] Cons.IH [OF _ grow]
    by (simp split: sum.splits if_splits)
qed

lemma true_keys_subset: "true_keys m \<subseteq> set (gkeys m)"
  by (force simp: true_keys_def dest: map_of_SomeD)

lemma keto_chunks_spec:
  assumes len: "length requests = length checks"
    and batch: "\<And>ch rs. batch ch = Inr rs \<Longrightarrow> rs = List.map P ch"
    and check: "\<And>r b. check r = Inr b \<Longrightarrow> b = P r"
  shows "\<exists>caps'. keto_chunks batch check checks requests start caps = Some caps' \<and>
     true_keys caps' \<subseteq> true_keys caps \<union> names_where P (drop start checks) (drop start requests) \<and>
     true_keys caps \<union> names_where (\<lambda>r. P r \<and> is_ok (check r)) (drop start checks) (drop start requests)
       \<subseteq> true_keys caps'"
proof (induction "length requests - start" arbitrary: start caps rule: less_induct)
  case less
  let ?Q = "\<lambda>r. P r \<and> is_ok (check r)"
  have sub: "names_where ?Q cs rs \<subseteq> names_where P cs rs" for cs rs
    by (auto simp: names_where_def)
  show ?case
  proof (cases "start < length requests")
    case False
    then show ?thesis using len by (simp add: keto_chunks.simps [of _ _ _ _ start] names_where_def)
  next
    case True
    let ?chunk = "take maxBatchSize (drop start requests)"
    show ?thesis
    proof (cases "batch ?chunk")
      case (Inl err)
      obtain fb where fb: "fallbackIndividualChecks check checks (drop start requests) start [] = Some fb"
        and tk: "true_keys fb = names_where ?Q (drop start checks) (drop start requests)"
        using fallback_spec [of start "drop start requests" checks check P "[]"] check len True
        by (auto simp: true_keys_def)
      have "set (gkeys fb) \<subseteq> true_keys fb" using fallback_keys [OF fb] by simp
      with true_keys_subset [of fb] have "set (gkeys fb) = true_keys fb" by blast
      with Inl fb tk True sub show ?thesis
        by (auto simp: keto_chunks.simps [of _ _ _ _ start] true_keys_merge)
    next
      case (Inr rs)
      then have rs: "rs = List.map P ?chunk" using batch by blast
      have "start + length ?chunk \<le> length checks" using len True by auto
      from grant_results_spec [OF this, of P caps] obtain caps1 where
        g: "grant_results checks start rs caps = Some caps1"
        and tk: "true_keys caps1 = true_keys caps \<union> names_where P (drop start checks) ?chunk"
        using rs by blast
      have "length requests - (start + maxBatchSize) < length requests - start"
        using True by (simp add: maxBatchSize_def)
      from less.hyps [OF this, of caps1] obtain caps2 where
        r: "keto_chunks batch check checks requests (start + maxBatchSize) caps1 = Some caps2"
        and r2: "true_keys caps2 \<subseteq> true_keys caps1 \<union>
          names_where P (drop (start + maxBatchSize) checks) (drop (start + maxBatchSize) requests)"
        and r3: "true_keys caps1 \<union>
          names_where ?Q (drop (start + maxBatchSize) checks) (drop (start + maxBatchSize) requests)
          \<subseteq> true_keys caps2"
        by blast
      have zt: "names_where R (take maxBatchSize (drop start checks)) ?chunk =
                names_where R (drop start checks) ?chunk" for R
        by (simp only: names_where_def zip_take_both)
      have sp: "names_where R (drop start checks) (drop start requests) =
        names_where R (drop start checks) ?chunk \<union>
        names_where R (drop (start + maxBatchSize) checks) (drop (start + maxBatchSize) requests)" for R
        using names_where_split [of R "drop start checks" "drop start requests" maxBatchSize]
        by (simp add: zt add.commute)
      show ?thesis
        using Inr g r r2 r3 True sub [of "drop start checks" ?chunk]
        by (auto simp: keto_chunks.simps [of _ _ _ _ start] sp tk)
    qed
  qed
qed

lemma names_where_map:
  "names_where P checks (List.map f checks) = {ck_capability chk | chk. chk \<in> set checks \<and> P (f chk)}"
  by (auto simp: names_where_def zip_map2 zip_same_conv_map)

subsection \<open>Collecting the checks from the definitions\<close>

fun first_nonempty :: "string list \<Rightarrow> string option" where
  "first_nonempty [] = None"
| "first_nonempty (s # ss) = (if s \<noteq> [] then Some s else first_nonempty ss)"

definition findDomainService :: "domain_definition \<Rightarrow> string" where
  "findDomainService d =
     (case first_nonempty (List.map (\<lambda>page. case pd_table page of
              Some t \<Rightarrow> ds_service_id (td_data_source t) | None \<Rightarrow> []) (dd_pages d)) of
        Some s \<Rightarrow> s
      | None \<Rightarrow>
          (case first_nonempty (List.map (\<lambda>c. ob_service_id (cm_operation c)) (dd_commands d)) of
             Some s \<Rightarrow> s
           | None \<Rightarrow>
               (case first_nonempty
                       (List.map (\<lambda>s. ob_service_id (se_operation s)) (dd_searches d)) of
                  Some s \<Rightarrow> s
                | None \<Rightarrow>
                    (case first_nonempty (List.map (\<lambda>f. case fm_load_source f of
                             Some ds \<Rightarrow> ds_service_id ds | None \<Rightarrow> []) (dd_forms d)) of
                       Some s \<Rightarrow> s
                     | None \<Rightarrow> dd_domain d @ ''-svc''))))"

text \<open>The lists \<open>addCaps\<close> is called with for one domain, in the order of the calls.\<close>

definition page_cap_lists :: "page_definition \<Rightarrow> string list list" where
  "page_cap_lists p =
     [pd_capabilities p] @
     List.map sd_capabilities (pd_sections p) @
     List.map ad_capabilities (pd_actions p) @
     (case pd_table p of
        Some t \<Rightarrow> List.map ad_capabilities (td_row_actions t) @
                  List.map ad_capabilities (td_bulk_actions t)
      | None \<Rightarrow> [])"

definition domain_cap_lists :: "domain_definition \<Rightarrow> string list list" where
  "domain_cap_lists d =
     [nd_capabilities (dd_navigation d)] @
     List.map nc_capabilities (nd_children (dd_navigation d)) @
     concat (List.map page_cap_lists (dd_pages d)) @
     concat (List.map (\<lambda>f. fm_capabilities f # List.map sd_capabilities (fm_sections f)) (dd_forms d)) @
     List.map cm_capabilities (dd_commands d) @
     List.map se_capabilities (dd_searches d)"

definition check_key :: "string \<Rightarrow> string \<Rightarrow> string" where
  "check_key cap ns = cap @ [CHR 0x00] @ ns"

fun addCaps :: "string \<Rightarrow> string list \<Rightarrow> string list \<times> capability_check list \<Rightarrow>
                string list \<times> capability_check list" where
  "addCaps ns [] st = st"
| "addCaps ns (cap # caps) (seen, checks) =
     (if check_key cap ns \<notin> set seen
      then addCaps ns caps (check_key cap ns # seen,
                            checks @ [\<lparr>ck_capability = cap, ck_namespace = ns\<rparr>])
      else addCaps ns caps (seen, checks))"

definition namespaceByService :: "service_config gomap \<Rightarrow> string \<Rightarrow> string" where
  "namespaceByService services svcID =
     (case gget services svcID of
        Some svc \<Rightarrow> sc_authorization_namespace svc   \<comment> \<open>stored only when non-empty\<close>
      | None \<Rightarrow> [])"

fun collect_domains ::
  "service_config gomap \<Rightarrow> domain_definition list \<Rightarrow> string list \<times> capability_check list \<Rightarrow>
   string list \<times> capability_check list" where
  "collect_domains services [] st = st"
| "collect_domains services (d # ds) st =
     (let namespace = namespaceByService services (findDomainService d) in
      if namespace = [] then collect_domains services ds st
      else collect_domains services ds (fold (addCaps namespace) (domain_cap_lists d) st))"

definition CollectCapabilityChecks ::
  "domain_definition list \<Rightarrow> service_config gomap \<Rightarrow> capability_check list" where
  "CollectCapabilityChecks domains services = snd (collect_domains services domains ([], []))"

text \<open>The pairs the definitions ask for.\<close>

definition wanted_checks ::
  "domain_definition list \<Rightarrow> service_config gomap \<Rightarrow> capability_check set" where
  "wanted_checks domains services =
     {\<lparr>ck_capability = cap, ck_namespace = ns\<rparr> | cap ns.
        \<exists>d\<in>set domains. ns = namespaceByService services (findDomainService d) \<and> ns \<noteq> [] \<and>
          cap \<in> set (concat (domain_cap_lists d))}"

definition nul_free :: "string \<Rightarrow> bool" where
  "nul_free s \<longleftrightarrow> CHR 0x00 \<notin> set s"

lemma check_key_inj:
  assumes "nul_free cap" and "nul_free cap'" and "check_key cap ns = check_key cap' ns'"
  shows "cap = cap' \<and> ns = ns'"
proof -
  have "split_on (CHR 0x00) (cap @ CHR 0x00 # ns) = split_on (CHR 0x00) (cap' @ CHR 0x00 # ns')"
    using assms(3) by (simp add: check_key_def)
  then have "cap = cap'" using assms(1,2) by (simp add: split_on_append nul_free_def)
  with assms(3) show ?thesis by (simp add: check_key_def)
qed

definition collect_inv :: "string list \<times> capability_check list \<Rightarrow> bool" where
  "collect_inv st \<longleftrightarrow>
     set (fst st) = (\<lambda>c. check_key (ck_capability c) (ck_namespace c)) ` set (snd st) \<and>
     distinct (snd st) \<and> (\<forall>c\<in>set (snd st). nul_free (ck_capability c))"

lemma addCaps_spec:
  assumes "\<forall>c\<in>set caps. nul_free c" and "collect_inv st"
  shows "collect_inv (addCaps ns caps st) \<and>
    set (snd (addCaps ns caps st)) =
      set (snd st) \<union> {\<lparr>ck_capability = c, ck_namespace = ns\<rparr> | c. c \<in> set caps}"
  using assms
proof (induction ns caps st rule: addCaps.induct)
  case (1 ns st)
  then show ?case by simp
next
  case (2 ns cap caps seen checks)
  let ?new = "\<lparr>ck_capability = cap, ck_namespace = ns\<rparr>"
  have nf: "nul_free cap" and rest: "\<forall>c\<in>set caps. nul_free c" using "2.prems"(1) by auto
  show ?case
  proof (cases "check_key cap ns \<in> set seen")
    case False
    have "?new \<notin> set checks" using False "2.prems"(2) by (force simp: collect_inv_def)
    then have inv: "collect_inv (check_key cap ns # seen, checks @ [?new])"
      using "2.prems"(2) nf by (auto simp: collect_inv_def)
    from "2.IH"(1) [OF False rest inv] False show ?thesis by auto
  next
    case True
    then obtain c where c: "c \<in> set checks"
      "check_key cap ns = check_key (ck_capability c) (ck_namespace c)"
      using "2.prems"(2) by (auto simp: collect_inv_def)
    then have "c = ?new"
      using check_key_inj [OF nf _ c(2)] "2.prems"(2) by (auto simp: collect_inv_def)
    with c(1) have "?new \<in> set checks" by simp
    with "2.IH"(2) [OF _ rest "2.prems"(2)] True show ?thesis by auto
  qed
qed

lemma fold_addCaps_spec:
  assumes "\<forall>c\<in>set (concat css). nul_free c" and "collect_inv st"
  shows "collect_inv (fold (addCaps ns) css st) \<and>
    set (snd (fold (addCaps ns) css st)) =
      set (snd st) \<union> {\<lparr>ck_capability = c, ck_namespace = ns\<rparr> | c. c \<in> set (concat css)}"
  using assms
proof (induction css arbitrary: st)
  case Nil
  then show ?case by simp
next
  case (Cons cs css)
  have 1: "collect_inv (addCaps ns cs st)" "set (snd (addCaps ns cs st)) =
      set (snd st) \<union> {\<lparr>ck_capability = c, ck_namespace = ns\<rparr> | c. c \<in> set cs}"
    using addCaps_spec [of cs st ns] Cons.prems by auto
  from Cons.IH [of "addCaps ns cs st"] Cons.prems(1) 1 show ?case by auto
qed

lemma collect_domains_spec:
  assumes "\<forall>d\<in>set ds. \<forall>c\<in>set (concat (domain_cap_lists d)). nul_free c" and "collect_inv st"
  shows "collect_inv (collect_domains services ds st) \<and>
    set (snd (collect_domains services ds st)) = set (snd st) \<union> wanted_checks ds services"
  using assms
proof (induction ds arbitrary: st)
  case Nil
  then show ?case by (simp add: wanted_checks_def)
next
  case (Cons d ds)
  let ?ns = "namespaceByService services (findDomainService d)"
  show ?case
  proof (cases "?ns = []")
    case True
    have "wanted_checks (d # ds) services = wanted_checks ds services"
      using True unfolding wanted_checks_def by fastforce
    with True Cons show ?thesis by simp
  next
    case False
    have 1: "collect_inv (fold (addCaps ?ns) (domain_cap_lists d) st)"
      "set (snd (fold (addCaps ?ns) (domain_cap_lists d) st)) = set (snd st) \<union>
        {\<lparr>ck_capability = c, ck_namespace = ?ns\<rparr> | c. c \<in> set (concat (domain_cap_lists d))}"
      using fold_addCaps_spec [of "domain_cap_lists d" st ?ns] Cons.prems by auto
    have "wanted_checks (d # ds) services =
      {\<lparr>ck_capability = c, ck_namespace = ?ns\<rparr> | c. c \<in> set (concat (domain_cap_lists d))} \<union>
      wanted_checks ds services"
      using False by (auto simp: wanted_checks_def)
    with False Cons.IH [OF _ 1(1)] Cons.prems(1) 1(2) show ?thesis by (simp add: Un_assoc)
  qed
qed

lemma keto_no_more:
  assumes "\<And>ch rs. batch ch = Inr rs \<Longrightarrow> rs = List.map allowed ch"
    and "\<And>r b. check r = Inr b \<Longrightarrow> b = allowed r"
  shows "\<exists>caps. KetoResolveCapabilities ns batch check checks rctx = Some caps \<and>
           {c. gget caps c = Some True} \<subseteq>
             {ck_capability chk | chk. chk \<in> set checks \<and> allowed (request_for ns rctx chk)}"
proof (cases "length checks = 0")
  case True
  then show ?thesis by (simp add: KetoResolveCapabilities_def)
next
  case False
  obtain caps where
    "keto_chunks batch check checks (List.map (request_for ns rctx) checks) 0 [] = Some caps"
    and "true_keys caps \<subseteq> names_where allowed checks (List.map (request_for ns rctx) checks)"
    using keto_chunks_spec [of "List.map (request_for ns rctx) checks" checks batch allowed check 0 "[]"]
      assms by (auto simp: true_keys_def)
  with False show ?thesis
    by (auto simp: KetoResolveCapabilities_def names_where_map true_keys_def)
qed

subsection \<open>Properties\<close>

text \<open>
  C17. Chunking and fallback do not change the answer: if every batch call that succeeds reports
  the authorizer's decision for each of its requests and every single check succeeds, then the
  evaluator returns, without a panic, exactly the capabilities for which some configured check is
  allowed, no matter which batches fail.
\<close>

theorem keto_exact:
  assumes "\<And>ch rs. batch ch = Inr rs \<Longrightarrow> rs = List.map allowed ch"
    and "\<And>r. check r = Inr (allowed r)"
  shows "\<exists>caps. KetoResolveCapabilities ns batch check checks rctx = Some caps \<and>
           (\<forall>c. gget caps c = Some True \<longleftrightarrow>
                (\<exists>chk\<in>set checks. ck_capability chk = c \<and> allowed (request_for ns rctx chk)))"
proof (cases "length checks = 0")
  case True
  then show ?thesis by (simp add: KetoResolveCapabilities_def)
next
  case False
  have ok: "allowed r \<and> is_ok (check r) \<longleftrightarrow> allowed r" for r
    by (simp add: assms(2) is_ok_def)
  obtain caps where
    "keto_chunks batch check checks (List.map (request_for ns rctx) checks) 0 [] = Some caps"
    and "true_keys caps = names_where allowed checks (List.map (request_for ns rctx) checks)"
    using keto_chunks_spec [of "List.map (request_for ns rctx) checks" checks batch allowed check 0 "[]"]
      assms by (auto simp: ok true_keys_def)
  with False show ?thesis
    by (auto simp: KetoResolveCapabilities_def names_where_map true_keys_def set_eq_iff)
qed

definition demo_checks :: "capability_check list" where
  "demo_checks = [\<lparr>ck_capability = ''users:view'', ck_namespace = ''svc''\<rparr>,
                  \<lparr>ck_capability = ''users:edit'', ck_namespace = ''svc''\<rparr>]"

definition demo_ctx :: request_context where
  "demo_ctx = \<lparr>SubjectID = ''u'', Email = [], TenantID = ''t'', PartitionID = ''p'', Roles = [],
      Claims = None, SessionID = [], DeviceID = [], CorrelationID = [], TraceID = [],
      SpanID = [], Locale = [], Timezone = [], Token = []\<rparr>"

theorem keto_exact_witness:
  "\<exists>caps. KetoResolveCapabilities ''profile'' (\<lambda>_. Inl (Plain ''down''))
            (\<lambda>r. Inr (rq_permission r = ''users_view'')) demo_checks demo_ctx = Some caps \<and>
     (\<forall>c. gget caps c = Some True \<longleftrightarrow>
        (\<exists>chk\<in>set demo_checks. ck_capability chk = c \<and>
           rq_permission (request_for ''profile'' demo_ctx chk) = ''users_view''))"
  by (rule keto_exact) simp_all

text \<open>
  The evaluator fails closed: whatever calls fail, a capability it grants is one that the
  authorizer allows.
\<close>

theorem keto_fail_closed:
  assumes "\<And>ch rs. batch ch = Inr rs \<Longrightarrow> rs = List.map allowed ch"
    and "\<And>r b. check r = Inr b \<Longrightarrow> b = allowed r"
  shows "\<exists>caps. KetoResolveCapabilities ns batch check checks rctx = Some caps \<and>
           {c. gget caps c = Some True} \<subseteq>
             {ck_capability chk | chk. chk \<in> set checks \<and> allowed (request_for ns rctx chk)}"
  using assms by (rule keto_no_more)

theorem keto_fail_closed_witness:
  "\<exists>caps. KetoResolveCapabilities ''profile'' (\<lambda>_. Inl (Plain ''down'')) (\<lambda>_. Inl (Plain ''down''))
            demo_checks demo_ctx = Some caps \<and>
     {c. gget caps c = Some True} \<subseteq>
       {ck_capability chk | chk. chk \<in> set demo_checks \<and>
          rq_permission (request_for ''profile'' demo_ctx chk) = ''users_view''}"
  by (rule keto_fail_closed) simp_all

text \<open>
  No call to the authorizer carries more than ten requests: two authorizers that agree on
  batches of at most ten requests give the same capabilities.
\<close>

theorem keto_batch_limit:
  assumes "\<And>ch. length ch \<le> 10 \<Longrightarrow> batch ch = batch' ch"
  shows "KetoResolveCapabilities ns batch check checks rctx =
         KetoResolveCapabilities ns batch' check checks rctx"
proof -
  have "keto_chunks batch check checks reqs start caps = keto_chunks batch' check checks reqs start caps"
    for reqs start caps
  proof (induction "length reqs - start" arbitrary: start caps rule: less_induct)
    case less
    have "batch (take maxBatchSize (drop start reqs)) = batch' (take maxBatchSize (drop start reqs))"
      by (rule assms) (simp add: maxBatchSize_def)
    moreover have "start < length reqs \<Longrightarrow>
      keto_chunks batch check checks reqs (start + maxBatchSize) c =
      keto_chunks batch' check checks reqs (start + maxBatchSize) c" for c
      by (rule less.hyps) (simp add: maxBatchSize_def)
    ultimately show ?case
      by (simp add: keto_chunks.simps [of _ _ _ _ start] Let_def split: sum.splits option.splits)
  qed
  then show ?thesis by (simp add: KetoResolveCapabilities_def)
qed

theorem keto_batch_limit_witness:
  "KetoResolveCapabilities ''profile'' (\<lambda>ch. Inr (List.map (\<lambda>_. True) ch))
     (\<lambda>_. Inr True) demo_checks demo_ctx =
   KetoResolveCapabilities ''profile''
     (\<lambda>ch. if length ch \<le> 10 then Inr (List.map (\<lambda>_. True) ch) else Inl (Plain ''too large''))
     (\<lambda>_. Inr True) demo_checks demo_ctx"
  by (rule keto_batch_limit) simp

text \<open>
  \<open>CollectCapabilityChecks\<close> returns each wanted pair of a capability and a namespace exactly
  once: the pairs are those that some definition of a domain with a configured namespace names
  (navigation, pages, their sections, actions and table actions, forms, commands and searches).
\<close>

theorem collect_exact:
  assumes "\<forall>d\<in>set domains. \<forall>c\<in>set (concat (domain_cap_lists d)). nul_free c"
  shows "distinct (CollectCapabilityChecks domains services) \<and>
         set (CollectCapabilityChecks domains services) = wanted_checks domains services"
  using collect_domains_spec [OF assms, of "([], [])" services]
  by (simp add: CollectCapabilityChecks_def collect_inv_def)

definition demo_domain :: domain_definition where
  "demo_domain = \<lparr>dd_domain = ''users'', dd_version = ''1'',
     dd_navigation = \<lparr>nd_label = ''Users'', nd_icon = [], nd_order = 1,
       nd_capabilities = [''users:view'', ''users:view''], nd_children = []\<rparr>,
     dd_pages = [], dd_forms = [], dd_commands = [], dd_searches = [], dd_lookups = [],
     dd_checksum = [], dd_source_file = []\<rparr>"

definition demo_services :: "service_config gomap" where
  "demo_services = [(''users-svc'', \<lparr>sc_base_url = [], sc_timeout = 0,
     sc_retry = \<lparr>rt_max_attempts = 0, rt_backoff_initial = 0, rt_backoff_multiplier = 0,
       rt_backoff_max = 0, rt_idempotent_only = True\<rparr>,
     sc_authorization_namespace = ''service_users''\<rparr>)]"

theorem collect_exact_witness:
  "distinct (CollectCapabilityChecks [demo_domain] demo_services) \<and>
   set (CollectCapabilityChecks [demo_domain] demo_services) = wanted_checks [demo_domain] demo_services"
  by (rule collect_exact) (simp add: demo_domain_def domain_cap_lists_def nul_free_def)

text \<open>
  The two conversions between capability and permission names are inverse exactly on
  capabilities without an underscore.
\<close>

theorem permission_roundtrip:
  "PermissionToCapability (CapabilityToPermission c) = c \<longleftrightarrow> CHR ''_'' \<notin> set c"
  by (induction c) (auto simp: CapabilityToPermission_map PermissionToCapability_map)

end
