(* ===== verification/Startup.thy ===== *)
theory Startup imports Router PromBackend Validator Policy begin

section \<open>Startup (apps/default/cmd/bff/main.go)\<close>

text \<open>
  What \<open>main\<close> builds, in its order: configuration, OpenAPI index, definitions and their validation,
  capability resolver, invokers, providers, the analytics engine, the router and the readiness checks.
  A fatal error ends the process and is \<open>Inl\<close>. \<open>platform\<close> holds what the operating system, the decoders
  and the Frame library provide; \<open>pf_concurrent\<close> says how the concurrent calls of a search turn out.
\<close>

record 'w platform =
  pf_lib :: golib
  pf_env :: "string \<Rightarrow> string"
  pf_read :: "string \<Rightarrow> go_error + string"
  pf_decode_config :: "string \<Rightarrow> config \<Rightarrow> go_error + config"
  pf_fill_env :: "go_error option"
  pf_oauth2_uri :: string
  pf_oidc :: "go_error option"
  pf_join :: "string \<Rightarrow> string \<Rightarrow> string"
  pf_load_spec :: "string \<Rightarrow> go_error + oa_doc"
  pf_validate_spec :: "oa_doc \<Rightarrow> go_error option"
  pf_sha :: "string \<Rightarrow> string"
  pf_walk :: "string \<Rightarrow> walk_entry list"
  pf_decode_definition :: "string \<Rightarrow> go_error + domain_definition"
  pf_profile_ns :: string
  pf_batch :: "check_request list \<Rightarrow> go_error + bool list"
  pf_check :: "check_request \<Rightarrow> go_error + bool"
  pf_http :: "'w http_env"
  pf_concurrent :: "'w invoke_fn \<Rightarrow> request_context option \<Rightarrow> operation_binding \<Rightarrow> invocation_input \<Rightarrow>
    (go_error + invocation_result) \<times> bool"
  pf_sort :: pair_sorter
  pf_content_get :: "oa_content \<Rightarrow> string \<Rightarrow> oa_media option"
  pf_prom :: "'w prom_env"
  pf_base64 :: "string \<Rightarrow> string"
  pf_compile :: "string \<Rightarrow> go_error + (string \<Rightarrow> bool)"
  pf_fingerprint :: "cache_payload \<Rightarrow> string"
  pf_duration :: "int \<Rightarrow> string"
  pf_api :: api_env
  pf_authenticate :: "((unit, 'w) bff_state handler \<Rightarrow> (unit, 'w) bff_state handler) option"
  pf_json :: json_decoders
  pf_timing :: "request \<Rightarrow> search_timing"
  pf_version :: string

subsection \<open>Specifications and definitions\<close>

definition spec_path :: "(string \<Rightarrow> string \<Rightarrow> string) \<Rightarrow> specs_config \<Rightarrow> string \<Rightarrow> string" where
  "spec_path join_path specsCfg specFile =
     (if sp_directory specsCfg \<noteq> [] \<and> \<not> has_prefix specFile ''/''
      then join_path (sp_directory specsCfg) specFile else specFile)"

definition buildSpecSources :: "(string \<Rightarrow> string \<Rightarrow> string) \<Rightarrow> specs_config \<Rightarrow> spec_source list" where
  "buildSpecSources join_path specsCfg =
     List.map (\<lambda>s. \<lparr>sp_service_id = ss_service_id s, sp_base_url = [],
                    sp_spec_path = spec_path join_path specsCfg (ss_spec_file s)\<rparr>) (sp_sources specsCfg)"

definition buildSpecServiceIDs :: "spec_source list \<Rightarrow> string list" where
  "buildSpecServiceIDs sources = List.map sp_service_id sources"

definition boot_config :: "'w platform \<Rightarrow> string \<Rightarrow> go_error + config" where
  "boot_config pf path =
     LoadConfig (pf_lib pf) (pf_env pf) (pf_read pf) (pf_decode_config pf) (pf_fill_env pf) (pf_oauth2_uri pf)
       (pf_oidc pf) path"

definition boot_definitions :: "'w platform \<Rightarrow> config \<Rightarrow> go_error + index \<times> domain_definition list" where
  "boot_definitions pf cfg =
     (case LoadSpecs (pf_load_spec pf) (pf_validate_spec pf)
             (buildSpecSources (pf_join pf) (cfg_specs cfg)) NewIndex of
        (idx, Some err) \<Rightarrow> Inl err
      | (idx, None) \<Rightarrow>
          (case LoadAll (pf_lib pf) (pf_walk pf) (LoadFile (pf_sha pf) (pf_read pf) (pf_decode_definition pf))
                  (dc_directories (cfg_definitions cfg)) of
             Inl err \<Rightarrow> Inl err
           | Inr defs \<Rightarrow>
               if length (ValidateDefs (pf_lib pf) defs (Some idx)) > 0
               then Inl (Plain ''definition validation failed'') else Inr (idx, defs)))"

subsection \<open>Capabilities and invokers\<close>

text \<open>
  An answer of the authorizer with more results than checks, which Frame never gives, would be a panic;
  here it is an error.
\<close>

definition keto_evaluate ::
  "'w platform \<Rightarrow> capability_check list \<Rightarrow> request_context \<Rightarrow> go_error + capability_set" where
  "keto_evaluate pf checks rctx =
     (case KetoResolveCapabilities (pf_profile_ns pf) (pf_batch pf) (pf_check pf) checks rctx of
        None \<Rightarrow> Inl (Plain ''index out of range'')
      | Some caps \<Rightarrow> Inr caps)"

definition boot_evaluator ::
  "'w platform \<Rightarrow> config \<Rightarrow> domain_definition list \<Rightarrow> request_context \<Rightarrow> go_error + capability_set" where
  "boot_evaluator pf cfg defs = keto_evaluate pf (CollectCapabilityChecks defs (cfg_services cfg))"

text \<open>No SDK handler is registered.\<close>

definition boot_invokers :: "'w platform \<Rightarrow> config \<Rightarrow> index \<Rightarrow> 'w invoke_fn" where
  "boot_invokers pf cfg idx =
     InvokeRegistry (pf_lib pf)
       (RegisterInvoker (sdk_invoker (pf_lib pf) [])
         (RegisterInvoker (openapi_invoker (pf_lib pf) (pf_http pf) idx (cfg_services cfg)) []))"

subsection \<open>Analytics\<close>

definition boot_backend :: "'w platform \<Rightarrow> analytics_config \<Rightarrow> 'w metrics_backend" where
  "boot_backend pf a =
     (if an_backend_type a = ''openobserve'' then
        NewOpenObserveBackend (NewOpenObserveHTTPClient (pf_base64 pf) (an_username a) (an_password a) (pf_prom pf))
          (an_backend_url a) (an_org a)
      else if an_backend_type a = ''uptrace'' then
        NewUptraceBackend (NewUptraceHTTPClient (an_token a) (pf_prom pf)) (an_backend_url a)
      else NewPrometheusBackend (pf_prom pf) (an_backend_url a))"

text \<open>The partition resolver is nil; the health check at startup is reported and otherwise ignored.\<close>

definition boot_analytics ::
  "'w platform \<Rightarrow> analytics_config \<Rightarrow> 'w \<Rightarrow>
   go_error + (api_env \<times> (unit, 'w) engine_setup) option \<times> unit engine \<times> 'w" where
  "boot_analytics pf a w =
     (if an_enabled a \<and> an_backend_url a \<noteq> [] then
        (case NewEngine (pf_lib pf) (pf_compile pf) (pf_fingerprint pf) (pf_duration pf) (boot_backend pf a) None ()
                [WithCacheTTL (an_cache_ttl a), WithAllowedMetrics (an_allowed_metrics a)] of
           Inl err \<Rightarrow> Inl err
         | Inr (es, e) \<Rightarrow> Inr (Some (pf_api pf, es), e, snd (EngineHealthy es w)))
      else Inr (None, \<lparr>eg_partitions = (), eg_cache = None\<rparr>, w))"

subsection \<open>Wiring\<close>

definition boot_registry :: "'w platform \<Rightarrow> domain_definition list \<Rightarrow> snapshot" where
  "boot_registry pf defs = Replace (pf_sha pf) defs"

definition boot_pages :: "'w platform \<Rightarrow> config \<Rightarrow> index \<Rightarrow> domain_definition list \<Rightarrow> 'w provider" where
  "boot_pages pf cfg idx defs =
     \<lparr>pv_lib = pf_lib pf, pv_registry = boot_registry pf defs, pv_invokers = boot_invokers pf cfg idx\<rparr>"

definition boot_dependencies ::
  "'w platform \<Rightarrow> config \<Rightarrow> index \<Rightarrow> domain_definition list \<Rightarrow>
   (api_env \<times> (unit, 'w) engine_setup) option \<Rightarrow> (unit, 'w) dependencies" where
  "boot_dependencies pf cfg idx defs an =
     \<lparr>dn_config = cfg, dn_authenticate = pf_authenticate pf,
      dn_evaluate = Some (boot_evaluator pf cfg defs), dn_registry = boot_registry pf defs,
      dn_menu = \<lparr>mp_lib = pf_lib pf, mp_registry = boot_registry pf defs,
                 mp_invokers = Some (boot_invokers pf cfg idx), mp_sort = pf_sort pf\<rparr>,
      dn_pages = boot_pages pf cfg idx defs, dn_forms = boot_pages pf cfg idx defs,
      dn_resources = \<lparr>pv_lib = pf_lib pf, pv_registry = boot_registry pf defs,
                      pv_invokers = boot_invokers pf cfg idx, rp_index = idx\<rparr>,
      dn_executor = \<lparr>ce_lib = pf_lib pf, ce_registry = boot_registry pf defs,
                     ce_invokers = boot_invokers pf cfg idx, ce_index = Some idx,
                     ce_content_get = pf_content_get pf\<rparr>,
      dn_search = NewSearchProvider (pf_lib pf) (boot_registry pf defs)
                    (pf_concurrent pf (boot_invokers pf cfg idx))
                    (sr_timeout_per_provider (cfg_search cfg)) (sr_max_results_per_provider (cfg_search cfg)),
      dn_analytics = an, dn_version = pf_version pf, dn_json = pf_json pf, dn_http = pf_http pf,
      dn_timing = pf_timing pf\<rparr>"

definition boot_state ::
  "'w platform \<Rightarrow> config \<Rightarrow> index \<Rightarrow> domain_definition list \<Rightarrow> unit engine \<Rightarrow> 'w \<Rightarrow> (unit, 'w) bff_state" where
  "boot_state pf cfg idx defs e w =
     \<lparr>bs_resolver = NewResolver (cs_ttl (cfg_capability cfg)),
      bs_lookups = NewLookupProvider (pf_lib pf) (boot_registry pf defs) (boot_invokers pf cfg idx)
                     (cs_ttl (cfg_lookup cfg)) (cs_max_entries (cfg_lookup cfg)),
      bs_engine = e, bs_world = w\<rparr>"

definition boot :: "'w platform \<Rightarrow> string \<Rightarrow> 'w \<Rightarrow> go_error + (unit, 'w) dependencies \<times> (unit, 'w) bff_state" where
  "boot pf path w =
     (case boot_config pf path of
        Inl err \<Rightarrow> Inl err
      | Inr cfg \<Rightarrow>
          (case boot_definitions pf cfg of
             Inl err \<Rightarrow> Inl err
           | Inr (idx, defs) \<Rightarrow>
               (case boot_analytics pf (cfg_analytics cfg) w of
                  Inl err \<Rightarrow> Inl err
                | Inr (an, e, w1) \<Rightarrow>
                    Inr (boot_dependencies pf cfg idx defs an, boot_state pf cfg idx defs e w1))))"

subsection \<open>Readiness\<close>

definition definitions_ready :: "snapshot \<Rightarrow> go_error option" where
  "definitions_ready reg =
     (if length (AllDomains reg) = 0 then Some (Plain ''no definitions loaded'') else None)"

definition specs_ready :: "spec_source list \<Rightarrow> index \<Rightarrow> go_error option" where
  "specs_ready sources idx =
     (if \<exists>i\<in>set (buildSpecServiceIDs sources). length (AllOperationIDs idx i) > 0 then None
      else if length sources = 0 then None
      else Some (Plain ''no OpenAPI specs loaded''))"

end
