(* ===== verification/DemoServer.thy ===== *)
theory DemoServer imports ServerGuard Startup begin

section \<open>A small deployment\<close>

text \<open>
  A concrete platform, its definitions and a bearer-token middleware, on which the statements about
  the whole program are instantiated.
\<close>

definition shop_operation :: operation_binding where
  "shop_operation = \<lparr>ob_type = ''openapi'', ob_operation_id = ''getOrder'', ob_service_id = ''orders-svc'',
     ob_handler = []\<rparr>"

definition shop_lookup :: lookup_definition where
  "shop_lookup = (demo_lookup ''tenant'')\<lparr>lu_operation := shop_operation\<rparr>"

definition shop_domain :: domain_definition where
  "shop_domain = (valid_domain ''orders'' [demo_form ''edit'' ''save'']
     [demo_command ''save'' shop_operation [''orders:edit'']])\<lparr>dd_lookups := [shop_lookup]\<rparr>"

definition shop_config :: config where
  "shop_config = Defaults\<lparr>
     cfg_specs := \<lparr>sp_directory = [], sp_sources = [\<lparr>ss_service_id = ''orders-svc'', ss_spec_file = ''orders.yaml''\<rparr>]\<rparr>,
     cfg_services := [(''orders-svc'', (demo_service 1 True)\<lparr>sc_authorization_namespace := ''orders''\<rparr>),
       (''files-svc'', (demo_service 1 True)\<lparr>sc_base_url := ''http://files''\<rparr>)],
     cfg_analytics := \<lparr>an_enabled = True, an_backend_type = [], an_backend_url = ''http://prom'', an_org = [],
       an_username = [], an_password = [], an_token = [], an_cache_ttl = 120 * second,
       an_allowed_metrics = [''loans_total'']\<rparr>\<rparr>"

text \<open>The world is the list of the URLs that were asked for.\<close>

definition shop_http :: "string list http_env" where
  "shop_http = \<lparr>he_new_request_error = (\<lambda>_ _. None),
     he_do = (\<lambda>req w. (Inr \<lparr>rp_status = 200, rp_header = (\<lambda>_. []), rp_read = (\<lambda>_. Inr ''x'')\<rparr>, w @ [hr_url req])),
     he_ctx_err = (\<lambda>_. None), he_wait = (\<lambda>_ w. (None, w)), he_marshal = (\<lambda>_. Inr ''{}''),
     he_unmarshal = (\<lambda>_. Inr (GSlice [GMap [(''id'', GStr ''1''), (''name'', GStr ''Main'')]])),
     he_path_escape = (\<lambda>s. s), he_encode_values = (\<lambda>_. []), he_canonical = (\<lambda>s. s)\<rparr>"

definition shop_prom :: "string list prom_env" where
  "shop_prom = \<lparr>pe_lib = strict_lib, pe_new_request = (\<lambda>_. None), pe_do = (\<lambda>_ _ w. (Inr (200, Inr ''x''), w)),
     pe_values = (\<lambda>_. []),
     pe_response = (\<lambda>_. Inr \<lparr>pm_status = ''success'', pm_result_type = ''vector'', pm_result = [],
       pm_error_type = [], pm_error = []\<rparr>),
     pe_vector = (\<lambda>_. Inr []), pe_matrix = (\<lambda>_. Inr []), pe_string = (\<lambda>s. Inr s), pe_number = (\<lambda>_. Inr 0),
     pe_float = (\<lambda>_. (Finite 0, None)), pe_fixed3 = (\<lambda>_. ''0''), pe_duration = (\<lambda>_. ''1h'')\<rparr>"

text \<open>The token is the user; everybody is of the tenant acme.\<close>

definition bearer_claims :: "string \<Rightarrow> auth_claims" where
  "bearer_claims user = \<lparr>cl_profile = user, cl_tenant = ''acme'', cl_partition = ''p'', cl_roles = [],
     cl_session = [], cl_ext = None\<rparr>"

definition deny_request :: "response_writer \<Rightarrow> response_writer" where
  "deny_request rw = http_error ''unauthorized'' 401 rw"

definition bearer_auth :: "'s handler \<Rightarrow> 's handler" where
  "bearer_auth next layers r rw s =
     (if rq_header r ''Authorization'' = [] then (False, deny_request rw, s)
      else next layers (in_context (\<lambda>c. c\<lparr>gc_claims := Some (bearer_claims (rq_header r ''Authorization'')),
             gc_jwt := rq_header r ''Authorization''\<rparr>) r) rw s)"

definition shop_platform :: "((unit, string list) bff_state handler \<Rightarrow> (unit, string list) bff_state handler) option \<Rightarrow> string list platform" where
  "shop_platform auth = \<lparr>pf_lib = strict_lib, pf_env = (\<lambda>_. []), pf_read = (\<lambda>_. Inr []),
     pf_decode_config = (\<lambda>_ _. Inr shop_config), pf_fill_env = None, pf_oauth2_uri = [], pf_oidc = None,
     pf_join = (\<lambda>d f. d @ ''/'' @ f), pf_load_spec = (\<lambda>_. Inr demo_doc), pf_validate_spec = (\<lambda>_. None),
     pf_sha = (\<lambda>s. s),
     pf_walk = (\<lambda>_. [\<lparr>we_path = ''/definitions/orders.yaml'', we_is_dir = False, we_err = None\<rparr>]),
     pf_decode_definition = (\<lambda>_. Inr shop_domain), pf_profile_ns = ''profile'',
     pf_batch = (\<lambda>ch. Inr (List.map (\<lambda>q. rq_subject_id q = ''ann'') ch)),
     pf_check = (\<lambda>q. Inr (rq_subject_id q = ''ann'')), pf_http = shop_http,
     pf_concurrent = (\<lambda>_ _ _ _. (Inl (Plain ''down''), False)), pf_sort = sort_key fst,
     pf_content_get = (\<lambda>_ _. None), pf_prom = shop_prom, pf_base64 = (\<lambda>s. s), pf_compile = (\<lambda>p. Inr (\<lambda>n. n = p)),
     pf_fingerprint = demo_fingerprint, pf_duration = (\<lambda>_. ''1h''), pf_api = demo_env, pf_authenticate = auth,
     pf_json = \<lparr>jd_command = (\<lambda>_. Some \<lparr>ci_input = Some [], ci_route = None\<rparr>), jd_action = (\<lambda>_. Some None),
       jd_checks = (\<lambda>_. Inr []), jd_analytics = (\<lambda>_. Some (demo_request_body ''loans_total''))\<rparr>,
     pf_timing = (\<lambda>_. \<lparr>sg_arrive = (\<lambda>xs. xs), sg_sort = (\<lambda>xs. xs), sg_elapsed = 0\<rparr>), pf_version = ''1''\<rparr>"

definition shop_defs :: "domain_definition list" where
  "shop_defs = [shop_domain\<lparr>dd_checksum := [], dd_source_file := ''/definitions/orders.yaml''\<rparr>]"

definition shop_analytics :: "(unit, string list) engine_setup" where
  "shop_analytics = \<lparr>en_lib = strict_lib, en_backend = NewPrometheusBackend shop_prom ''http://prom'',
     en_resolver = DefaultPartitionResolver, en_allowlist = [\<lambda>n. n = ''loans_total''],
     en_fingerprint = demo_fingerprint, en_duration = (\<lambda>_. ''1h'')\<rparr>"

definition shop_deps ::
  "((unit, string list) bff_state handler \<Rightarrow> (unit, string list) bff_state handler) option \<Rightarrow> (unit, string list) dependencies" where
  "shop_deps auth = boot_dependencies (shop_platform auth) shop_config demo_index shop_defs
     (Some (demo_env, shop_analytics))"

definition shop_state ::
  "((unit, string list) bff_state handler \<Rightarrow> (unit, string list) bff_state handler) option \<Rightarrow> (unit, string list) bff_state" where
  "shop_state auth = boot_state (shop_platform auth) shop_config demo_index shop_defs
     \<lparr>eg_partitions = (), eg_cache = Some (newQueryCache (120 * second))\<rparr> []"

subsection \<open>It starts\<close>

lemma shop_config_loads: "boot_config (shop_platform auth) path = Inr shop_config"
  by (simp add: boot_config_def LoadConfig_def shop_platform_def applyEnvOverrides_def override_port_def
      override_string_def override_cache_ttl_def override_allowed_metrics_def ValidateConfig_def
      shop_config_def Defaults_def Let_def)

lemma shop_specs_load:
  "LoadSpecs (\<lambda>_. Inr demo_doc) (\<lambda>_. None) (buildSpecSources j (cfg_specs shop_config)) NewIndex = (demo_index, None)"
proof -
  have "buildSpecSources j (cfg_specs shop_config) = [demo_src]"
    by (simp add: buildSpecSources_def spec_path_def shop_config_def demo_src_def)
  then show ?thesis by (simp only: demo_load)
qed

lemma shop_definitions_load:
  "LoadAll strict_lib (pf_walk (shop_platform auth)) (LoadFile (\<lambda>s. s) (\<lambda>_. Inr []) (\<lambda>_. Inr shop_domain))
     (dc_directories (cfg_definitions shop_config)) = Inr shop_defs"
  by (simp add: LoadAll_def load_dir_def visit_entry_def LoadFile_def shop_platform_def shop_config_def Defaults_def
      filepath_ext_def to_lower_def is_ascii_def lower_char_def bind_result_def shop_defs_def)

lemma shop_definitions_valid: "ValidateDefs strict_lib shop_defs (Some demo_index) = []"
  by (simp add: shop_defs_def shop_domain_def demo_defs ValidateDefs_def validateDomain_def validateForm_def
      validateCommand_def operation_errors_def shop_operation_def has_id_id_set contains_def demo_index_defs Let_def)

lemma shop_boots:
  "boot (shop_platform auth) path [] = Inr (shop_deps auth, shop_state auth)"
proof -
  have defs: "boot_definitions (shop_platform auth) shop_config = Inr (demo_index, shop_defs)"
    using shop_specs_load shop_definitions_load [of auth] shop_definitions_valid
    by (simp add: boot_definitions_def shop_platform_def)
  have "boot_analytics (shop_platform auth) (cfg_analytics shop_config) [] =
      Inr (Some (demo_env, shop_analytics),
        \<lparr>eg_partitions = (), eg_cache = Some (newQueryCache (120 * second))\<rparr>, [])"
    by (simp add: boot_analytics_def shop_config_def shop_platform_def NewEngine_def WithCacheTTL_def
        WithAllowedMetrics_def newMetricAllowlist_def boot_backend_def shop_analytics_def duration_defs
        EngineHealthy_def NewPrometheusBackend_def health_check_def shop_prom_def)
  with defs shop_config_loads [of auth path] show ?thesis
    by (simp add: boot_def shop_deps_def shop_state_def)
qed

subsection \<open>It serves\<close>

definition ann :: request_context where
  "ann = \<lparr>SubjectID = ''ann'', Email = [], TenantID = ''acme'', PartitionID = ''p'', Roles = [], Claims = None,
     SessionID = [], DeviceID = [], CorrelationID = [], TraceID = [], SpanID = [], Locale = [], Timezone = [],
     Token = []\<rparr>"

definition shop_request :: "string \<Rightarrow> string \<Rightarrow> request" where
  "shop_request meth path =
     \<lparr>rq_method = meth, rq_path = path, rq_values = [(''lookupId'', ''branches'')], rq_query = [],
      rq_header = (\<lambda>h. if h = ''Authorization'' then ''ann'' else []), rq_body = [], rq_fresh_id = ''id'',
      rq_clock = (\<lambda>_. 0),
      rq_context = \<lparr>gc_correlation = None, gc_claims = None, gc_jwt = [], gc_request = Some ann, gc_caps = None,
        gc_deadline = None, gc_trace = None\<rparr>\<rparr>"

lemma shop_registry:
  "GetLookupDef (boot_registry (shop_platform auth) shop_defs) ''branches'' = Some shop_lookup"
  by (simp add: boot_registry_def GetLookupDef_def Replace_fields shop_defs_def shop_domain_def shop_lookup_def
      demo_lookup_def demo_defs)

lemma shop_lookups:
  "GetLookupDef (boot_registry (shop_platform auth) shop_defs) k = Some l \<Longrightarrow> CHR '':'' \<notin> set k"
  by (auto simp: boot_registry_def GetLookupDef_def Replace_fields shop_defs_def shop_domain_def shop_lookup_def
      demo_lookup_def demo_defs split: if_splits)

lemma shop_fetch:
  "boot_invokers (shop_platform auth) shop_config demo_index (Some rctx) shop_operation empty_input [] =
     (Inr \<lparr>res_status = 200, res_body = GSlice [GMap [(''id'', GStr ''1''), (''name'', GStr ''Main'')]],
           res_headers = []\<rparr>, [''http://orders/orders/{id}''])"
  by (simp add: boot_invokers_def RegisterInvoker_def openapi_invoker_def OpenAPISupports_def shop_operation_def
      OpenAPIInvoke_def demo_index_defs shop_config_def demo_service_def empty_input_def executeWithRetry_def
      max_attempts_def executeOnce_def shop_platform_def shop_http_def buildRequestURL_def read_limit_def
      extractResponseHeaders_def isRetryableStatus_def Let_def)

lemma shop_lookup_served:
  "handleLookup (shop_deps auth) (shop_request meth path) (shop_state auth) =
     (RJson 200 (BdLookup (lookup_answer strict_lib [\<lparr>op_label = ''Main'', op_value = ''1'', op_icon = []\<rparr>] [] False)),
      snd (handleLookup (shop_deps auth) (shop_request meth path) (shop_state auth)))"
proof -
  have reg: "lp_registry (bs_lookups (shop_state auth)) = boot_registry (shop_platform auth) shop_defs"
    "lp_invokers (bs_lookups (shop_state auth)) = boot_invokers (shop_platform auth) shop_config demo_index"
    "lp_cache (bs_lookups (shop_state auth)) = []" "lp_lib (bs_lookups (shop_state auth)) = strict_lib"
    "bs_world (shop_state auth) = []"
    by (simp_all add: shop_state_def boot_state_def NewLookupProvider_def shop_platform_def)
  have get: "rq_values (shop_request meth path) = [(''lookupId'', ''branches'')]"
    "rq_query (shop_request meth path) = []" "gc_request (rq_context (shop_request meth path)) = Some ann"
    by (simp_all add: shop_request_def)
  have op: "lu_operation shop_lookup = shop_operation" "lu_label_field shop_lookup = ''name''"
    "lu_value_field shop_lookup = ''id''"
    by (simp_all add: shop_lookup_def demo_lookup_def)
  show ?thesis
    by (simp add: handleLookup_def with_context_def RequestContextFrom_def path_value_def query_get_def get
        GetLookup_def reg shop_registry getFromCache_def fetchFromBackend_def op shop_fetch mapLookupResults_def
        extractLookupItems_def getString_def reply_of_def lookup_answer_def Let_def)
qed

lemma shop_evaluates: "boot_evaluator (shop_platform auth) shop_config shop_defs ann = Inr [(''orders:edit'', True)]"
  by (simp add: boot_evaluator_def keto_evaluate_def KetoResolveCapabilities_def CollectCapabilityChecks_def
      shop_defs_def shop_domain_def demo_defs findDomainService_def namespaceByService_def shop_config_def
      demo_service_def shop_operation_def domain_cap_lists_def shop_platform_def keto_chunks.simps
      maxBatchSize_def request_for_def ann_def Let_def)

lemma shop_scalar: "QueryScalar shop_prom base q f tr w = (Inr (Finite 0), w)"
  by (simp add: QueryScalar_def instantQuery_def apiGet_def shop_prom_def Let_def)

lemma shop_analytics_served:
  "\<exists>s'. handleAnalytics (shop_deps auth) demo_env shop_analytics scalar_route (shop_request meth path)
     (shop_state auth) = (RApi \<lparr>as_status = 200, as_body = ApiScalar (Finite 0)\<rparr>, s')"
proof -
  have sel: "en_backend shop_analytics = NewPrometheusBackend shop_prom ''http://prom''"
    "en_lib shop_analytics = strict_lib" "en_resolver shop_analytics = DefaultPartitionResolver"
    "en_allowlist shop_analytics = [\<lambda>n. n = ''loans_total'']"
    by (simp_all add: shop_analytics_def)
  have st: "bs_engine (shop_state auth) = \<lparr>eg_partitions = (), eg_cache = Some (newQueryCache (120 * second))\<rparr>"
    by (simp add: shop_state_def boot_state_def)
  have json: "jd_analytics (dn_json (shop_deps auth)) b = Some (demo_request_body ''loans_total'')" for b
    by (simp add: shop_deps_def boot_dependencies_def shop_platform_def)
  show ?thesis
    by (simp add: handleAnalytics_def serve_call_def analytics_routes_def analytics_call_def json st
        handleScalar_def demo_request_body_def parseTimeRange_def demo_env_def ToMetricQuery_def Scalar_def serve_def
        prepare_def sel DefaultPartitionResolver_def resolveFilter_def RequestContextFrom_def shop_request_def ann_def
        drop_empty_def compacted_def lookupKey_def cacheGet_def qc_get_def newQueryCache_def NewPrometheusBackend_def
        shop_scalar respond_def writeJSON_def body_error_def Let_def)
qed

text \<open>The middleware keeps what the handlers keep.\<close>

lemma bearer_keeps:
  "preserves I h \<Longrightarrow> preserves I (bearer_auth h)" "answers h \<Longrightarrow> answers (bearer_auth h)"
  "safe (guarded_headers i) h \<Longrightarrow> safe (guarded_headers i) (bearer_auth h)"
  by (simp_all add: preserves_def bearer_auth_def answers_def safe_def deny_request_def sent_http_error
      guarded.keeps_http_error del: not_None_eq)

lemma bearer_auth_keeps:
  "auth_keeps (preserves I) (Some bearer_auth)" "auth_keeps answers (Some bearer_auth)"
  "auth_keeps (safe (guarded_headers i)) (Some bearer_auth)"
  by (simp_all add: auth_keeps_def bearer_keeps)

text \<open>A request of a user.\<close>

definition request_by :: "string \<Rightarrow> string \<Rightarrow> string \<Rightarrow> request" where
  "request_by user meth path =
     (shop_request meth path)\<lparr>rq_header := (\<lambda>h. if h = ''Authorization'' then user else [])\<rparr>"

lemma request_by_simps [simp]:
  "rq_method (request_by user meth path) = meth" "rq_path (request_by user meth path) = path"
  "rq_header (request_by user meth path) = (\<lambda>h. if h = ''Authorization'' then user else [])"
  "rq_clock (request_by user meth path) = (\<lambda>_. 0)"
  by (simp_all add: request_by_def shop_request_def)

lemma bearer_admits:
  "user \<noteq> [] \<Longrightarrow> admits (Some bearer_auth) (bearer_claims user) user (rq_header (request_by user meth path))"
  by (simp add: admits_def bearer_auth_def)

lemma shop_deps_simps [simp]:
  "dn_authenticate (shop_deps auth) = auth"
  "dn_evaluate (shop_deps auth) = Some (boot_evaluator (shop_platform auth) shop_config shop_defs)"
  "dn_http (shop_deps auth) = shop_http" "dn_config (shop_deps auth) = shop_config"
  by (simp_all add: shop_deps_def boot_dependencies_def shop_platform_def)

lemma shop_denies:
  "SubjectID rctx \<noteq> ''ann'' \<Longrightarrow> boot_evaluator (shop_platform auth) shop_config shop_defs rctx = Inr []"
  by (simp add: boot_evaluator_def keto_evaluate_def KetoResolveCapabilities_def CollectCapabilityChecks_def
      shop_defs_def shop_domain_def demo_defs findDomainService_def namespaceByService_def shop_config_def
      demo_service_def shop_operation_def domain_cap_lists_def shop_platform_def keto_chunks.simps
      maxBatchSize_def request_for_def Let_def)

lemma shop_resolves:
  "fst (resolve_with eval t0 t1 rctx (shop_state auth)) = eval rctx"
  by (simp add: resolve_with_def Resolve_def shop_state_def boot_state_def NewResolver_def cap_lookup_def Let_def
      split: prod.split sum.split)

end
