(* ===== verification/ResponseTypes.thy ===== *)
theory ResponseTypes imports DemoServer begin

section \<open>The types of the responses\<close>

text \<open>
  The router writes values of many Go types. Here each body has a type, each route the types it
  answers with, and a response is well typed when it is one body of such a type with the status and the
  content type that go with it. The property at the end is type soundness of the pipeline.
\<close>

subsection \<open>Types\<close>

datatype body_type =
    ErrorBody | CommandBody | ActionBody | PageBody | DataBody | FormBody | FormDataBody | SchemaBody
  | ItemBody | NavigationBody | SearchBody | LookupBody | CapabilitiesBody | GrantedBody
  | ScalarBody | PointsBody | SegmentsBody | ItemsBody | ApiErrorBody | StreamBody | TextBody

fun api_type :: "api_body \<Rightarrow> body_type" where
  "api_type (ApiError msg) = ApiErrorBody"
| "api_type (ApiText msg) = TextBody"
| "api_type (ApiScalar v) = ScalarBody"
| "api_type (ApiPoints ps) = PointsBody"
| "api_type (ApiSegments ss) = SegmentsBody"
| "api_type (ApiItems xs) = ItemsBody"

fun type_of :: "response_body \<Rightarrow> body_type" where
  "type_of (BdError ee) = ErrorBody"
| "type_of (BdCommand x) = CommandBody"
| "type_of (BdAction x) = ActionBody"
| "type_of (BdPage x) = PageBody"
| "type_of (BdData x) = DataBody"
| "type_of (BdForm x) = FormBody"
| "type_of (BdFormData x) = FormDataBody"
| "type_of (BdSchema x) = SchemaBody"
| "type_of (BdItem x) = ItemBody"
| "type_of (BdNavigation x) = NavigationBody"
| "type_of (BdSearch x) = SearchBody"
| "type_of (BdLookup x) = LookupBody"
| "type_of (BdCapabilities x) = CapabilitiesBody"
| "type_of (BdGranted x) = GrantedBody"
| "type_of (BdAnalytics a) = api_type a"
| "type_of (BdStream resp) = StreamBody"
| "type_of (BdText msg) = TextBody"

text \<open>What a route answers with when it does not fail.\<close>

definition endpoint_types :: "string \<Rightarrow> body_type list" where
  "endpoint_types pat =
     (case gget
        [(''GET /ui/capabilities'', [CapabilitiesBody]),
         (''POST /ui/capabilities/batch-check'', [GrantedBody]),
         (''GET /ui/navigation'', [NavigationBody]),
         (''GET /ui/pages/{pageId}'', [PageBody]),
         (''GET /ui/pages/{pageId}/data'', [DataBody]),
         (''GET /ui/forms/{formId}'', [FormBody]),
         (''GET /ui/forms/{formId}/data'', [FormDataBody]),
         (''GET /ui/schemas/{schemaId}'', [SchemaBody]),
         (''POST /ui/commands/{commandId}'', [CommandBody]),
         (''POST /ui/actions/{actionId}'', [CommandBody, ActionBody]),
         (''GET /ui/resources/{resourceType}/search'', [SearchBody]),
         (''GET /ui/resources/{resourceType}/{id}'', [ItemBody]),
         (''GET /ui/resources/{resourceType}'', [DataBody]),
         (''GET /ui/search'', [SearchBody]),
         (''GET /ui/lookups/{lookupId}'', [LookupBody]),
         (''POST /ui/upload'', [StreamBody]),
         (''GET /ui/download/{fileId}'', [StreamBody]),
         (''POST /api/analytics/query/scalar'', [ScalarBody, ApiErrorBody]),
         (''POST /api/analytics/query/timeseries'', [PointsBody, ApiErrorBody]),
         (''POST /api/analytics/query/grouped'', [SegmentsBody, ApiErrorBody]),
         (''POST /api/analytics/query/topn'', [ItemsBody, ApiErrorBody])] pat of
        None \<Rightarrow> [] | Some ts \<Rightarrow> ts)"

text \<open>The status and the content type of a body.\<close>

definition status_fits :: "response_body \<Rightarrow> int \<Rightarrow> string option \<Rightarrow> bool" where
  "status_fits b code ct =
     (case b of
        BdError ee \<Rightarrow> code = status_for (env_code ee) \<and> 400 \<le> code \<and> ct = Some ''application/json; charset=utf-8''
      | BdText msg \<Rightarrow> code = 301 \<or> 400 \<le> code \<and> code < 600
      | BdStream resp \<Rightarrow> code = rp_status resp
      | BdAnalytics a \<Rightarrow>
          (if api_type a = ApiErrorBody then code \<in> {400, 403, 500} else code = 200) \<and>
          ct = Some ''application/json''
      | _ \<Rightarrow> code = 200 \<and> ct = Some ''application/json; charset=utf-8'')"

definition well_typed :: "body_type list \<Rightarrow> response_writer \<Rightarrow> bool" where
  "well_typed ts rw =
     (case rw_sent rw of
        None \<Rightarrow> False
      | Some (code, h) \<Rightarrow>
          (case rw_written rw of
             [] \<Rightarrow> code = 301
           | [b] \<Rightarrow> status_fits b code (gget h ''Content-Type'') \<and> type_of b \<in> set (ErrorBody # TextBody # ts)
           | _ \<Rightarrow> False))"

subsection \<open>Writing\<close>

definition unwritten :: "response_writer \<Rightarrow> bool" where
  "unwritten rw \<longleftrightarrow> rw_sent rw = None \<and> rw_written rw = []"

lemma unwritten_set_header [simp]: "unwritten (set_header k v rw) = unwritten rw"
  by (simp add: unwritten_def set_header_def)

lemma unwritten_new [simp]: "unwritten new_writer"
  by (simp add: unwritten_def new_writer_def)

lemma unwritten_copy: "unwritten rw \<Longrightarrow> unwritten (copy_headers ks resp rw)"
  unfolding copy_headers_def by (induction ks arbitrary: rw) simp_all

lemma status_for_failure: "400 \<le> status_for code"
  by (simp add: status_for_def statusForCode_def)

lemma well_typed_weaken: "well_typed ts rw \<Longrightarrow> set ts \<subseteq> set ts' \<Longrightarrow> well_typed ts' rw"
proof (cases "rw_sent rw")
  case (Some sent)
  assume *: "well_typed ts rw" "set ts \<subseteq> set ts'"
  show ?thesis
  proof (cases "rw_written rw")
    case (Cons b bs)
    with * Some show ?thesis by (cases bs) (auto simp: well_typed_def split: prod.splits)
  qed (use * Some in \<open>simp add: well_typed_def split: prod.splits\<close>)
qed (simp add: well_typed_def)

lemma written_once:
  "unwritten rw \<Longrightarrow> well_typed ts (write_body b (write_header code rw)) \<longleftrightarrow>
     status_fits b code (gget (rw_header rw) ''Content-Type'') \<and> type_of b \<in> set (ErrorBody # TextBody # ts)"
  by (simp add: well_typed_def unwritten_def write_body_def write_header_def)

lemma header_put [simp]: "rw_header (set_header k v rw) = gput k v (rw_header rw)"
  by (simp add: set_header_def)

lemma typed_json:
  "unwritten rw \<Longrightarrow> status_fits b st (Some ''application/json; charset=utf-8'') \<Longrightarrow> type_of b \<in> set (ErrorBody # ts) \<Longrightarrow>
   well_typed ts (WriteJSON st (Some b) rw)"
  unfolding WriteJSON_def Let_def by (auto simp: written_once gget_gput)

lemma typed_error: "unwritten rw \<Longrightarrow> well_typed ts (WriteError layers err rw)"
  unfolding WriteError_def Let_def by (rule typed_json) (simp_all add: status_fits_def status_for_failure)

lemma typed_text: "unwritten rw \<Longrightarrow> 400 \<le> code \<Longrightarrow> code < 600 \<Longrightarrow> well_typed ts (http_error msg code rw)"
  unfolding http_error_def by (simp add: written_once status_fits_def)

lemma typed_redirect: "unwritten rw \<Longrightarrow> well_typed ts (redirect_to loc r rw)"
  by (auto simp: redirect_to_def Let_def well_typed_def status_fits_def unwritten_def write_body_def
      write_header_def set_header_def)

subsection \<open>Replies\<close>

definition json_types :: "body_type list" where
  "json_types = [CommandBody, ActionBody, PageBody, DataBody, FormBody, FormDataBody, SchemaBody, ItemBody,
     NavigationBody, SearchBody, LookupBody, CapabilitiesBody, GrantedBody]"

definition api_fits :: "api_response \<Rightarrow> bool" where
  "api_fits a \<longleftrightarrow> (case api_type (as_body a) of
     ApiErrorBody \<Rightarrow> as_status a \<in> {400, 403, 500} | TextBody \<Rightarrow> as_status a = 500 | _ \<Rightarrow> as_status a = 200)"

definition reply_typed :: "body_type list \<Rightarrow> reply \<Rightarrow> bool" where
  "reply_typed ts rep =
     (case rep of
        RJson st b \<Rightarrow> st = 200 \<and> type_of b \<in> set ts \<and> type_of b \<in> set json_types
      | RFail err \<Rightarrow> True
      | RApi a \<Rightarrow> api_fits a \<and> api_type (as_body a) \<in> set (TextBody # ts)
      | RStream ks resp \<Rightarrow> StreamBody \<in> set ts
      | RPanic \<Rightarrow> True)"

lemma reply_typed_simps [simp]:
  "reply_typed ts (RJson st b) \<longleftrightarrow> st = 200 \<and> type_of b \<in> set ts \<and> type_of b \<in> set json_types"
  "reply_typed ts (RFail err)" "reply_typed ts RPanic"
  "reply_typed ts (RStream ks resp) \<longleftrightarrow> StreamBody \<in> set ts"
  "reply_typed ts (RApi a) \<longleftrightarrow> api_fits a \<and> api_type (as_body a) \<in> set (TextBody # ts)"
  by (simp_all add: reply_typed_def)

lemma json_status: "type_of b \<in> set json_types \<Longrightarrow> status_fits b 200 (Some ''application/json; charset=utf-8'')"
  by (cases b) (auto simp: json_types_def status_fits_def elim: api_type.elims)

lemma typed_api:
  "unwritten rw \<Longrightarrow> api_fits a \<Longrightarrow> api_type (as_body a) \<in> set (TextBody # ts) \<Longrightarrow> well_typed ts (write_api a rw)"
  unfolding write_api_def Let_def api_fits_def
  by (cases "as_body a") (simp_all add: typed_text written_once status_fits_def gget_gput)

definition delivered :: "body_type list \<Rightarrow> bool \<times> response_writer \<times> 's \<Rightarrow> bool" where
  "delivered ts res \<longleftrightarrow> (case res of (p, rw, s) \<Rightarrow> if p then unwritten rw else well_typed ts rw)"

lemma delivered_simps [simp]: "delivered ts (False, rw, s) = well_typed ts rw" "delivered ts (True, rw, s) = unwritten rw"
  by (simp_all add: delivered_def)

definition delivers :: "body_type list \<Rightarrow> 's handler \<Rightarrow> bool" where
  "delivers ts h \<longleftrightarrow> (\<forall>layers r rw s. unwritten rw \<longrightarrow> delivered ts (h layers r rw s))"

lemma delivers_send:
  assumes "unwritten rw" and "reply_typed ts rep"
  shows "case send rep layers rw of (p, rw1) \<Rightarrow> if p then unwritten rw1 else well_typed ts rw1"
proof (cases rep)
  case (RJson st b)
  with assms show ?thesis using json_status typed_json [of rw b 200 ts] by simp
next
  case (RStream ks resp)
  with assms show ?thesis using unwritten_copy [of rw ks resp] by (simp add: Let_def written_once status_fits_def)
qed (use assms in \<open>simp_all add: typed_error typed_api\<close>)

lemma delivers_handler_of:
  assumes "\<And>r s. reply_typed ts (fst (core r s))"
  shows "delivers ts (handler_of core)"
proof -
  have "delivered ts (handler_of core layers r rw s)"
    if "unwritten rw" for layers r rw s
    using delivers_send [OF that assms, of r s layers]
    unfolding handler_of_def delivered_def split_beta by simp
  then show ?thesis by (simp add: delivers_def)
qed

subsection \<open>Handlers\<close>

lemma typed_reply_of:
  "(\<And>x. type_of (b x) \<in> set ts \<and> type_of (b x) \<in> set json_types) \<Longrightarrow> reply_typed ts (reply_of b res)"
  by (cases res) (simp_all add: reply_of_def)

lemma typed_with_context:
  "(\<And>rctx. reply_typed ts (fst (f rctx r s))) \<Longrightarrow> reply_typed ts (fst (with_context f r s))"
  by (simp add: with_context_def split: option.split)

lemma typed_run_command: "CommandBody \<in> set ts \<Longrightarrow> reply_typed ts (fst (run_command d rctx cid input r s))"
  by (simp add: run_command_def json_types_def split: prod.split option.split)

lemma typed_run_search: "SearchBody \<in> set ts \<Longrightarrow> reply_typed ts (run_search d rctx pag r)"
  by (simp add: run_search_def Let_def typed_reply_of json_types_def split: option.split)

lemma typed_proxy: "StreamBody \<in> set ts \<Longrightarrow> reply_typed ts (fst (proxy e req ks s))"
  by (simp add: proxy_def split: prod.split sum.split)

lemma typed_views:
  "reply_typed [NavigationBody] (fst (handleNavigation d r s))" "reply_typed [PageBody] (fst (handleGetPage d r s))"
  "reply_typed [DataBody] (fst (handleGetPageData d r s))" "reply_typed [FormBody] (fst (handleGetForm d r s))"
  "reply_typed [FormDataBody] (fst (handleGetFormData d r s))" "reply_typed [SchemaBody] (fst (handleGetSchema d r s))"
  "reply_typed [DataBody] (fst (handleGetResource d r s))" "reply_typed [ItemBody] (fst (handleGetResourceItem d r s))"
  "reply_typed [LookupBody] (fst (handleLookup d r s))"
  unfolding handleNavigation_def handleGetPage_def handleGetPageData_def handleGetForm_def
    handleGetFormData_def handleGetSchema_def handleGetResource_def handleGetResourceItem_def handleLookup_def
  by (simp_all add: typed_with_context typed_reply_of json_types_def split: prod.split)

lemma typed_others:
  "reply_typed [SearchBody] (fst (handleResourceSearch d r s))" "reply_typed [SearchBody] (fst (handleSearch d r s))"
  "reply_typed [CapabilitiesBody] (fst (handleCapabilities d r s))"
  "reply_typed [GrantedBody] (fst (handleBatchCheck d r s))"
  "reply_typed [CommandBody] (fst (handleCommand d r s))"
  "reply_typed [CommandBody, ActionBody] (fst (handleAction d r s))"
  "reply_typed [StreamBody] (fst (handleUpload d r s))" "reply_typed [StreamBody] (fst (handleDownload d r s))"
  unfolding handleResourceSearch_def handleSearch_def handleCapabilities_def handleBatchCheck_def
    handleCommand_def handleAction_def handleUpload_def handleDownload_def
  by (simp_all add: typed_with_context typed_reply_of typed_run_search typed_run_command typed_proxy bad_body_def
      no_files_def json_types_def Let_def split: prod.split option.split sum.split)

subsection \<open>Analytics\<close>

definition api_typed :: "body_type \<Rightarrow> api_response \<Rightarrow> bool" where
  "api_typed t a \<longleftrightarrow> api_fits a \<and> api_type (as_body a) \<in> {t, ApiErrorBody, TextBody}"

lemma typed_api_error: "c \<in> {400, 403, 500} \<Longrightarrow> api_typed t (api_error msg c)"
  by (simp add: api_typed_def api_fits_def api_error_def)

lemma typed_engine_error: "api_typed t (engine_error err)"
  by (simp add: engine_error_def typed_api_error)

lemma typed_writeJSON:
  "api_type b = t \<Longrightarrow> t \<in> {ScalarBody, PointsBody, SegmentsBody, ItemsBody} \<Longrightarrow> api_typed t (writeJSON tm b)"
  by (auto simp: writeJSON_def api_typed_def api_fits_def split: option.split)

lemma typed_respond:
  "(\<And>v. api_type (body v) = t) \<Longrightarrow> t \<in> {ScalarBody, PointsBody, SegmentsBody, ItemsBody} \<Longrightarrow>
   api_typed t (fst (respond env body res))"
  unfolding respond_def split_beta by (cases "fst res") (simp_all add: typed_engine_error typed_writeJSON)

lemma typed_endpoints:
  "api_typed ScalarBody (fst (handleScalar env es t now octx caps body e w))"
  "api_typed PointsBody (fst (handleTimeSeries env es t now octx caps body e w))"
  "api_typed SegmentsBody (fst (handleGrouped env es t now octx caps body e w))"
  "api_typed ItemsBody (fst (handleTopN env es t now octx caps body e w))"
  unfolding handleScalar_def handleTimeSeries_def handleGrouped_def handleTopN_def
  by (simp_all add: typed_api_error typed_respond split: option.split sum.split)

lemma typed_analytics:
  assumes "\<And>t now octx caps body e w. api_typed ty (fst (h t now octx caps body e w))"
    and "gget (analytics_routes env es) route = Some h"
  shows "reply_typed [ty, ApiErrorBody] (fst (handleAnalytics d env es route r s))"
proof -
  let ?c = "analytics_call d route r"
  have "serve_call env es ?c (bs_engine s) (bs_world s) =
      Some (h (ac_readings ?c) (ac_now ?c) (ac_context ?c) (ac_caps ?c) (ac_body ?c) (bs_engine s) (bs_world s))"
    using assms(2) by (simp add: serve_call_def analytics_call_def)
  then show ?thesis
    using assms(1) [of "ac_readings ?c" "ac_now ?c" "ac_context ?c" "ac_caps ?c" "ac_body ?c" "bs_engine s" "bs_world s"]
    by (auto simp: handleAnalytics_def api_typed_def split: prod.split)
qed

lemma typed_core:
  assumes "(pat, core) \<in> set (core_routes d)"
  shows "reply_typed (endpoint_types pat) (fst (core r s))"
proof -
  have "list_all (\<lambda>(pat, core). reply_typed (endpoint_types pat) (fst (core r s))) (core_routes d)"
    by (simp add: core_routes_def endpoint_types_def typed_views typed_others)
  with assms show ?thesis by (auto simp: list_all_iff)
qed

lemma typed_registered:
  assumes "(pat, core) \<in> set (RegisterRoutes d)"
  shows "reply_typed (endpoint_types pat) (fst (core r s))"
proof -
  obtain env es where "(pat, core) \<in> set (List.map (\<lambda>(route, _). (route, handleAnalytics d env es route)) (analytics_routes env es))"
    using assms unfolding RegisterRoutes_def by (fastforce split: option.splits)
  moreover have "reply_typed [ScalarBody, ApiErrorBody] (fst (handleAnalytics d env es ''POST /api/analytics/query/scalar'' r s))"
    "reply_typed [PointsBody, ApiErrorBody] (fst (handleAnalytics d env es ''POST /api/analytics/query/timeseries'' r s))"
    "reply_typed [SegmentsBody, ApiErrorBody] (fst (handleAnalytics d env es ''POST /api/analytics/query/grouped'' r s))"
    "reply_typed [ItemsBody, ApiErrorBody] (fst (handleAnalytics d env es ''POST /api/analytics/query/topn'' r s))"
    by (rule typed_analytics [OF typed_endpoints(1)] typed_analytics [OF typed_endpoints(2)]
        typed_analytics [OF typed_endpoints(3)] typed_analytics [OF typed_endpoints(4)];
        simp add: analytics_routes_def)+
  then have "list_all (\<lambda>(pat, core). reply_typed (endpoint_types pat) (fst (core r s)))
      (List.map (\<lambda>(route, _). (route, handleAnalytics d env es route)) (analytics_routes env es))"
    by (simp add: analytics_routes_def endpoint_types_def)
  ultimately show ?thesis by (auto simp: list_all_iff)
qed

lemma delivers_routed:
  assumes "(pat, core) \<in> set (core_routes d @ RegisterRoutes d)"
  shows "delivers (endpoint_types pat) (handler_of core)"
proof (rule delivers_handler_of)
  show "reply_typed (endpoint_types pat) (fst (core r s))" for r s
    using assms typed_core typed_registered by (metis Un_iff set_append)
qed

subsection \<open>The pipeline\<close>

text \<open>What is asked of the authentication middleware: it passes typed responses on, and sends typed ones.\<close>

definition auth_delivers :: "('s handler \<Rightarrow> 's handler) option \<Rightarrow> bool" where
  "auth_delivers auth \<longleftrightarrow> (\<forall>ts. auth_keeps (delivers ts) auth)"

lemma delivers_ResolveCapabilities: "delivers ts h \<Longrightarrow> delivers ts (ResolveCapabilities res h)"
  unfolding delivers_def ResolveCapabilities_def
  by (simp add: typed_error split: option.split sum.split prod.split)

lemma delivers_chain:
  assumes "delivers ts h" and "auth_delivers (dn_authenticate d)"
  shows "delivers ts (authChain d h)"
proof -
  have "delivers ts (RequestLogging h)" using assms(1) by (simp add: delivers_def RequestLogging_def)
  then have "delivers ts (HandlerTimeout t (RequestLogging h))" for t
    by (simp add: delivers_def HandlerTimeout_def Let_def)
  then have "delivers ts (ResolveCapabilities (resolve_caps d) (HandlerTimeout t (RequestLogging h)))" for t
    by (rule delivers_ResolveCapabilities)
  then have "delivers ts (BuildRequestContextMiddleware
      (ResolveCapabilities (resolve_caps d) (HandlerTimeout t (RequestLogging h))))" for t
    by (simp add: delivers_def BuildRequestContextMiddleware_def)
  moreover have "auth_keeps (delivers ts) (dn_authenticate d)" using assms(2) by (simp add: auth_delivers_def)
  ultimately have "delivers ts ((case dn_authenticate d of None \<Rightarrow> (\<lambda>next. next) | Some a \<Rightarrow> a)
      (BuildRequestContextMiddleware (ResolveCapabilities (resolve_caps d) (HandlerTimeout t (RequestLogging h)))))" for t
    using auth_keepsD by blast
  then show ?thesis by (simp add: authChain_def chainMiddleware_def)
qed

text \<open>The patterns of the routes that a request matches.\<close>

definition idle :: "unit handler" where
  "idle layers r rw s = (False, rw, s)"

definition requests_pattern :: "request \<Rightarrow> string \<Rightarrow> bool" where
  "requests_pattern r pat \<longleftrightarrow>
     (rt_method (handle pat idle) = rq_method r \<or> rq_method r = ''HEAD'' \<and> rt_method (handle pat idle) = ''GET'') \<and>
     match_segments (rt_segments (handle pat idle)) (path_segments (rq_path r)) \<noteq> None"

definition routed_as :: "('p, 'w) dependencies \<Rightarrow> request \<Rightarrow> response_writer \<Rightarrow> bool" where
  "routed_as d r rw \<longleftrightarrow> well_typed [] rw \<or>
     (\<exists>pat \<in> fst ` set (core_routes d @ RegisterRoutes d). requests_pattern r pat \<and> well_typed (endpoint_types pat) rw)"

lemma handle_sel: "rt_method (handle pat h) = rt_method (handle pat idle)" "rt_segments (handle pat h) = rt_segments (handle pat idle)"
  by (simp_all add: handle_def)

lemma best_match_sound:
  "best_match rts m ss = Some (rt, vals) \<Longrightarrow>
   rt \<in> set rts \<and> rt_method rt = m \<and> match_segments (rt_segments rt) ss \<noteq> None"
proof (induction rts arbitrary: rt vals)
  case (Cons rt1 rts)
  show ?case
  proof (cases "rt_method rt1 = m \<and> match_segments (rt_segments rt1) ss \<noteq> None")
    case False
    then have "(if rt_method rt1 = m then match_segments (rt_segments rt1) ss else None) = None" by meson
    with Cons.prems have "best_match rts m ss = Some (rt, vals)" by simp
    from Cons.IH [OF this] show ?thesis by (simp del: not_None_eq)
  next
    case True
    then obtain vals1 where "match_segments (rt_segments rt1) ss = Some vals1" by blast
    with True Cons.prems have "rt = rt1 \<or> best_match rts m ss = Some (rt, vals)"
      by (simp split: option.splits prod.splits if_splits)
    with Cons.IH True show ?thesis by (metis list.set_intros)
  qed
qed simp

lemma find_route_sound:
  "find_route rts m ss = Some (rt, vals) \<Longrightarrow>
   rt \<in> set rts \<and> (rt_method rt = m \<or> m = ''HEAD'' \<and> rt_method rt = ''GET'') \<and> match_segments (rt_segments rt) ss \<noteq> None"
  using best_match_sound [of rts m ss rt vals] best_match_sound [of rts "''GET''" ss rt vals]
  unfolding find_route_def by (cases "best_match rts m ss") (simp_all del: not_None_eq split: if_splits)

lemma found_pattern:
  assumes "find_route (router_routes d) (rq_method r) (path_segments (rq_path r)) = Some (rt, vals)"
  obtains pat core where "(pat, core) \<in> set (core_routes d @ RegisterRoutes d)" and "requests_pattern r pat"
    and "rt_handler rt = authChain d (handler_of core)"
proof -
  from find_route_sound [OF assms] obtain pat core where mem: "(pat, core) \<in> set (core_routes d @ RegisterRoutes d)"
    and rt: "rt = handle pat (authChain d (handler_of core))"
    unfolding router_routes_def set_map by fast
  have "requests_pattern r pat"
    using find_route_sound [OF assms] handle_sel [of pat "authChain d (handler_of core)"]
    unfolding rt requests_pattern_def by simp
  moreover have "rt_handler rt = authChain d (handler_of core)" by (simp add: rt handle_def)
  ultimately show thesis using that mem by blast
qed

lemma typed_mux:
  assumes "auth_delivers (dn_authenticate d)" and "unwritten rw"
    and "mux_serve loc (router_routes d) layers r rw s = (p, rw1, s1)"
  shows "if p then unwritten rw1 else routed_as d r rw1"
proof -
  let ?path = "if rq_method r = ''CONNECT'' then rq_path r else cleanPath (rq_path r)"
  consider (redirect) "?path \<noteq> rq_path r"
    | (none) "?path = rq_path r" "find_route (router_routes d) (rq_method r) (path_segments (rq_path r)) = None"
    | (route) rt vals where "?path = rq_path r"
        "find_route (router_routes d) (rq_method r) (path_segments (rq_path r)) = Some (rt, vals)"
    by (metis option.exhaust surj_pair)
  then show ?thesis
  proof cases
    case redirect
    with assms(3) have "p = False" "rw1 = redirect_to (loc r) r rw" by (simp_all add: mux_serve_def)
    with assms(2) show ?thesis by (simp add: routed_as_def typed_redirect)
  next
    case none
    with assms(3) have "p = False" "rw1 = http_error ''404 page not found'' 404 rw \<or>
        (\<exists>v. rw1 = http_error ''Method Not Allowed'' 405 (set_header ''Allow'' v rw))"
      unfolding mux_serve_def Let_def none(1) by (auto split: if_splits)
    with assms(2) show ?thesis by (auto simp: routed_as_def typed_text)
  next
    case (route rt vals)
    obtain pat core where pat: "(pat, core) \<in> set (core_routes d @ RegisterRoutes d)" "requests_pattern r pat"
      and h: "rt_handler rt = authChain d (handler_of core)"
      using found_pattern [OF route(2)] .
    have "delivers (endpoint_types pat) (rt_handler rt)"
      unfolding h by (rule delivers_chain [OF delivers_routed [OF pat(1)] assms(1)])
    moreover have "rt_handler rt layers (r\<lparr>rq_values := vals\<rparr>) rw s = (p, rw1, s1)"
      using assms(3) route(2) unfolding mux_serve_def Let_def route(1) by simp
    ultimately have "delivered (endpoint_types pat) (p, rw1, s1)"
      using assms(2) unfolding delivers_def by metis
    moreover have "pat \<in> fst ` set (core_routes d @ RegisterRoutes d)" using pat(1) by force
    ultimately show ?thesis using pat(2) by (cases p) (auto simp: routed_as_def)
  qed
qed

lemma tagged_pattern: "requests_pattern (tagged r) pat = requests_pattern r pat"
  by (simp add: requests_pattern_def)

lemma unwritten_headed: "unwritten (headed r rw) = unwritten rw"
  by (simp add: headed_def security_headers_def)

text \<open>
  C20. The router is type safe: a response is exactly one body (or a redirect without one) whose status and content
  type fit it. The body is an error envelope with the status of its code, a plain-text error, or one of the types of
  a route whose pattern the request matches; so no error is sent with a status below 400, and a
  descriptor never with another status than 200.
\<close>

theorem responses_typed:
  assumes "auth_delivers (dn_authenticate d)"
  shows "routed_as d r (fst (serve_request loc d r s))"
proof -
  obtain p rw1 s1 where run: "inner loc d r s = (p, rw1, s1)" by (cases "inner loc d r s") auto
  have "if p then unwritten rw1 else routed_as d (tagged r) rw1"
    by (rule typed_mux [OF assms _ run]) (simp add: unwritten_headed)
  moreover have "routed_as d (tagged r) rw1 = routed_as d r rw1" by (simp add: routed_as_def tagged_pattern)
  moreover have "unwritten rw1 \<Longrightarrow> routed_as d r (WriteError [] (Envelope NewInternalError) rw1)"
    by (simp add: routed_as_def typed_error)
  ultimately show ?thesis
    unfolding serve_request_unfold Let_def run by (simp split: if_splits)
qed

lemma bearer_delivers: "auth_delivers (Some bearer_auth)"
  by (simp add: auth_delivers_def auth_keeps_def delivers_def bearer_auth_def deny_request_def typed_text)

theorem responses_typed_witness:
  "routed_as (shop_deps (Some bearer_auth)) (request_by ''ann'' ''GET'' ''/ui/navigation'')
     (fst (serve_request rq_path (shop_deps (Some bearer_auth)) (request_by ''ann'' ''GET'' ''/ui/navigation'')
       (shop_state (Some bearer_auth))))"
  by (rule responses_typed) (simp add: bearer_delivers)

end
