(* ===== verification/RouteTable.thy ===== *)
theory RouteTable imports DemoServer begin

section \<open>Requests by path\<close>

text \<open>
  The routes as a table of methods and segments, and what a request to a path does: the route that
  is taken, the values of its wildcards, and the effect of the whole pipeline on an admitted request.
\<close>

subsection \<open>The table\<close>

definition entry :: "string \<Rightarrow> segment list \<Rightarrow> 's handler \<Rightarrow> 's route" where
  "entry meth ss h = \<lparr>rt_method = meth, rt_segments = ss, rt_handler = h\<rparr>"

lemma handle_patterns:
  "handle ''GET /ui/capabilities'' h = entry ''GET'' [Lit ''ui'', Lit ''capabilities''] h"
  "handle ''POST /ui/capabilities/batch-check'' h = entry ''POST'' [Lit ''ui'', Lit ''capabilities'', Lit ''batch-check''] h"
  "handle ''GET /ui/navigation'' h = entry ''GET'' [Lit ''ui'', Lit ''navigation''] h"
  "handle ''GET /ui/pages/{pageId}'' h = entry ''GET'' [Lit ''ui'', Lit ''pages'', Wild ''pageId''] h"
  "handle ''GET /ui/pages/{pageId}/data'' h = entry ''GET'' [Lit ''ui'', Lit ''pages'', Wild ''pageId'', Lit ''data''] h"
  "handle ''GET /ui/forms/{formId}'' h = entry ''GET'' [Lit ''ui'', Lit ''forms'', Wild ''formId''] h"
  "handle ''GET /ui/forms/{formId}/data'' h = entry ''GET'' [Lit ''ui'', Lit ''forms'', Wild ''formId'', Lit ''data''] h"
  "handle ''GET /ui/schemas/{schemaId}'' h = entry ''GET'' [Lit ''ui'', Lit ''schemas'', Wild ''schemaId''] h"
  "handle ''POST /ui/commands/{commandId}'' h = entry ''POST'' [Lit ''ui'', Lit ''commands'', Wild ''commandId''] h"
  "handle ''POST /ui/actions/{actionId}'' h = entry ''POST'' [Lit ''ui'', Lit ''actions'', Wild ''actionId''] h"
  by (simp_all add: handle_def entry_def parse_segment_def)

lemma handle_patterns2:
  "handle ''GET /ui/resources/{resourceType}/search'' h =
     entry ''GET'' [Lit ''ui'', Lit ''resources'', Wild ''resourceType'', Lit ''search''] h"
  "handle ''GET /ui/resources/{resourceType}/{id}'' h =
     entry ''GET'' [Lit ''ui'', Lit ''resources'', Wild ''resourceType'', Wild ''id''] h"
  "handle ''GET /ui/resources/{resourceType}'' h = entry ''GET'' [Lit ''ui'', Lit ''resources'', Wild ''resourceType''] h"
  "handle ''GET /ui/search'' h = entry ''GET'' [Lit ''ui'', Lit ''search''] h"
  "handle ''GET /ui/lookups/{lookupId}'' h = entry ''GET'' [Lit ''ui'', Lit ''lookups'', Wild ''lookupId''] h"
  "handle ''POST /ui/upload'' h = entry ''POST'' [Lit ''ui'', Lit ''upload''] h"
  "handle ''GET /ui/download/{fileId}'' h = entry ''GET'' [Lit ''ui'', Lit ''download'', Wild ''fileId''] h"
  "handle ''POST /api/analytics/query/scalar'' h =
     entry ''POST'' [Lit ''api'', Lit ''analytics'', Lit ''query'', Lit ''scalar''] h"
  "handle ''POST /api/analytics/query/timeseries'' h =
     entry ''POST'' [Lit ''api'', Lit ''analytics'', Lit ''query'', Lit ''timeseries''] h"
  "handle ''POST /api/analytics/query/grouped'' h =
     entry ''POST'' [Lit ''api'', Lit ''analytics'', Lit ''query'', Lit ''grouped''] h"
  "handle ''POST /api/analytics/query/topn'' h =
     entry ''POST'' [Lit ''api'', Lit ''analytics'', Lit ''query'', Lit ''topn''] h"
  by (simp_all add: handle_def entry_def parse_segment_def)

lemma entry_sel [simp]:
  "rt_method (entry m ss h) = m" "rt_segments (entry m ss h) = ss" "rt_handler (entry m ss h) = h"
  by (simp_all add: entry_def)

lemma api_never_matches:
  "ss = [] \<or> hd ss \<noteq> ''api'' \<Longrightarrow>
   best_match (List.map (\<lambda>(pat, core). handle pat (g core)) (RegisterRoutes d)) meth ss = None"
  by (cases ss) (auto simp: RegisterRoutes_def analytics_routes_def handle_patterns2 split: option.split)

lemma best_match_append:
  "best_match rts' meth ss = None \<Longrightarrow> best_match (rts @ rts') meth ss = best_match rts meth ss"
  by (induction rts) (auto split: option.split)

lemma best_ui_route:
  "best_match (router_routes d) meth (''ui'' # ss) =
     best_match (List.map (\<lambda>(pat, core). handle pat (authChain d (handler_of core))) (core_routes d)) meth (''ui'' # ss)"
  unfolding router_routes_def List.map_append by (rule best_match_append, rule api_never_matches) simp

lemmas route_defs = best_ui_route core_routes_def find_route_def handle_patterns handle_patterns2

lemma command_route:
  "cid \<noteq> ''/'' \<Longrightarrow> find_route (router_routes d) ''POST'' [''ui'', ''commands'', cid] =
     Some (entry ''POST'' [Lit ''ui'', Lit ''commands'', Wild ''commandId''] (authChain d (handler_of (handleCommand d))),
           [(''commandId'', cid)])"
  by (simp add: route_defs)


subsection \<open>Paths with one variable segment\<close>

definition raw_segment :: "string \<Rightarrow> bool" where
  "raw_segment s \<longleftrightarrow> s \<noteq> [] \<and> CHR ''/'' \<notin> set s \<and> s \<noteq> ''.'' \<and> s \<noteq> ''..'' \<and> pathUnescape s \<noteq> ''/''"

lemma command_path:
  assumes "raw_segment seg"
  shows "cleanPath (''/ui/commands/'' @ seg) = ''/ui/commands/'' @ seg"
    and "path_segments (''/ui/commands/'' @ seg) = [''ui'', ''commands'', pathUnescape seg]"
proof -
  have last: "last seg \<noteq> CHR ''/''" using assms last_in_set unfolding raw_segment_def by fastforce
  have sp: "split_on CHR ''/'' seg = [seg]" using assms by (simp add: raw_segment_def split_on_none)
  show "cleanPath (''/ui/commands/'' @ seg) = ''/ui/commands/'' @ seg"
    using assms last by (simp add: cleanPath_def sp raw_segment_def)
  show "path_segments (''/ui/commands/'' @ seg) = [''ui'', ''commands'', pathUnescape seg]"
    using assms by (simp add: path_segments_def sp raw_segment_def pathUnescape_def)
qed


subsection \<open>An admitted request, from the router to its handler\<close>

definition same_request :: "request \<Rightarrow> request \<Rightarrow> bool" where
  "same_request r r' \<longleftrightarrow> rq_body r' = rq_body r \<and> rq_query r' = rq_query r \<and> rq_header r' = rq_header r \<and>
     rq_clock r' = rq_clock r"

text \<open>What the handler of the route is called with, and what becomes of its outcome.\<close>

lemma admitted_run:
  assumes "admits (dn_authenticate d) cl tok (rq_header r)" and "dn_evaluate d = Some eval"
    and "rq_method r \<noteq> ''CONNECT''" and "cleanPath (rq_path r) = rq_path r"
    and "find_route (router_routes d) (rq_method r) (path_segments (rq_path r)) =
           Some (entry meth pat (authChain d (handler_of core)), vals)"
    and "resolve_with eval (rq_clock r 0) (rq_clock r 1) (admitted_context cl tok r) s = (Inr caps, s1)"
  obtains r' where "same_request r r'" "rq_values r' = vals"
    "RequestContextFrom (rq_context r') = Some (admitted_context cl tok r)" "CapabilitiesFrom (rq_context r') = caps"
    "inner loc d r s = handler_of core [StatusLayer, TraceLayer (gc_trace (rq_context r))] r' (headed r new_writer) s1"
proof -
  let ?r = "in_context (\<lambda>c. c\<lparr>gc_claims := Some cl, gc_jwt := tok, gc_request := Some (admitted_context cl tok r),
    gc_caps := Some caps\<rparr>) ((tagged r)\<lparr>rq_values := vals\<rparr>)"
  let ?t = "sv_handler_timeout (cfg_server (dn_config d))"
  let ?ls = "[TraceLayer (gc_trace (rq_context r))]"
  have "inner loc d r s = authChain d (handler_of core) ?ls ((tagged r)\<lparr>rq_values := vals\<rparr>) (headed r new_writer) s"
    using assms(3,4,5) by (simp add: mux_serve_def Let_def)
  also have "\<dots> = HandlerTimeout ?t (RequestLogging (handler_of core)) ?ls ?r (headed r new_writer) s1"
    using assms(1,2,6) by (simp add: authChain_admitted [of d cl tok _ eval] admitted_context_def in_context_values
        built_context_values Let_def)
  finally have run: "inner loc d r s = HandlerTimeout ?t (RequestLogging (handler_of core)) ?ls ?r (headed r new_writer) s1" .
  define r' where "r' = (if ?t \<le> 0 then ?r else in_context (\<lambda>c. c\<lparr>gc_deadline := Some
      (case gc_deadline (rq_context ?r) of None \<Rightarrow> rq_clock ?r 2 + ?t | Some t' \<Rightarrow> min (rq_clock ?r 2 + ?t) t')\<rparr>) ?r)"
  have "HandlerTimeout ?t (RequestLogging (handler_of core)) ?ls ?r w s1 =
      handler_of core (StatusLayer # ?ls) r' w s1" for w
    by (simp add: HandlerTimeout_def RequestLogging_def r'_def Let_def)
  moreover have "same_request r r'" "rq_values r' = vals"
    "RequestContextFrom (rq_context r') = Some (admitted_context cl tok r)" "CapabilitiesFrom (rq_context r') = caps"
    by (simp_all add: r'_def same_request_def in_context_def RequestContextFrom_def CapabilitiesFrom_def)
  ultimately show ?thesis using run by (intro that) simp_all
qed

lemma resolve_with_world: "bs_world (snd (resolve_with eval t0 t1 rctx s)) = bs_world s"
  by (simp add: resolve_with_def split: prod.split)

lemma serve_failed:
  assumes "inner loc d r s = handler_of core ls r' (headed r new_writer) s1" and "core r' s1 = (RFail err, s2)"
  shows "snd (serve_request loc d r s) = s2"
    and "fst (the (rw_sent (fst (serve_request loc d r s)))) = status_for (env_code (envelope_of err))"
  using assms fresh_WriteError [of "headed r new_writer"]
  by (simp_all add: serve_request_unfold handler_of_def headed_fresh new_writer_def Let_def)

subsection \<open>Properties\<close>

text \<open>
  C10. A caller without the capabilities of a command cannot run it: for an admitted POST to the path of a
  command, with the capabilities that were resolved for the caller, the answer is 403, or 400 exactly if
  the body does not decode, and the world behind the invokers is not touched.
\<close>

theorem denied_command_refused:
  assumes "admits (dn_authenticate d) cl tok (rq_header r)" and "dn_evaluate d = Some eval"
    and "rq_method r = ''POST''" and "rq_path r = ''/ui/commands/'' @ seg" and "raw_segment seg"
    and "fst (resolve_with eval (rq_clock r 0) (rq_clock r 1) (admitted_context cl tok r) s) = Inr caps"
    and "GetCommand (ce_registry (dn_executor d)) (pathUnescape seg) = Some cmd"
    and "denied caps (cm_capabilities cmd)"
  shows "bs_world (snd (serve_request loc d r s)) = bs_world s \<and>
    fst (the (rw_sent (fst (serve_request loc d r s)))) =
      (if jd_command (dn_json d) (rq_body r) = None then 400 else 403)"
proof -
  obtain s1 where res: "resolve_with eval (rq_clock r 0) (rq_clock r 1) (admitted_context cl tok r) s = (Inr caps, s1)"
    using assms(6) by (metis prod.collapse)
  have world: "bs_world s1 = bs_world s"
    using resolve_with_world [of eval "rq_clock r 0" "rq_clock r 1" "admitted_context cl tok r" s] res by simp
  have route: "find_route (router_routes d) (rq_method r) (path_segments (rq_path r)) =
      Some (entry ''POST'' [Lit ''ui'', Lit ''commands'', Wild ''commandId'']
        (authChain d (handler_of (handleCommand d))), [(''commandId'', pathUnescape seg)])"
    using assms(3,4) command_path(2) [OF assms(5)] assms(5) by (simp add: raw_segment_def command_route)
  have verb: "rq_method r \<noteq> ''CONNECT''" using assms(3) by simp
  have clean: "cleanPath (rq_path r) = rq_path r" unfolding assms(4) by (rule command_path(1) [OF assms(5)])
  obtain r' where r': "same_request r r'" "rq_values r' = [(''commandId'', pathUnescape seg)]"
    "RequestContextFrom (rq_context r') = Some (admitted_context cl tok r)" "CapabilitiesFrom (rq_context r') = caps"
    "inner loc d r s = handler_of (handleCommand d) [StatusLayer, TraceLayer (gc_trace (rq_context r))] r'
       (headed r new_writer) s1"
    by (rule admitted_run [OF assms(1,2) verb clean route res])
  have "rq_body r' = rq_body r" using r'(1) by (simp add: same_request_def)
  then have "\<exists>err. handleCommand d r' s1 = (RFail err, s1) \<and> status_for (env_code (envelope_of err)) =
      (if jd_command (dn_json d) (rq_body r) = None then 400 else 403)"
    using r'(2-4) assms(7,8)
    by (auto simp: handleCommand_def with_context_def bad_body_def path_value_def run_command_def Execute_def
        envelope_of_def NewBadRequestError_def NewForbiddenError_def envelope_def status_codes split: option.split)
  then show ?thesis using serve_failed [OF r'(5)] world by auto
qed


text \<open>
  The trace id is lost behind the logging middleware: the error of a handler is sent as it is, with
  no trace id added, although the writer below it carries one; \<open>RequestLogging\<close> wraps the writer that
  \<open>WriteError\<close> looks for.
\<close>

theorem handler_errors_lose_trace:
  assumes "core r s = (RFail (Envelope ee), s')"
  shows "RequestLogging (handler_of core) (TraceLayer (Some tid) # layers) r rw s =
    (False, WriteJSON (status_for (env_code ee)) (Some (BdError ee)) rw, s')"
  using assms
  by (simp add: RequestLogging_def handler_of_def WriteError_def with_trace_def envelope_of_def Let_def)

subsection \<open>The hypotheses can hold\<close>

lemma bearer_subject: "SubjectID (admitted_context (bearer_claims user) tok r) = user"
  by (simp add: admitted_context_def built_context_def bearer_claims_def in_context_def Let_def)

theorem denied_command_refused_witness:
  "bs_world (snd (serve_request rq_path (shop_deps (Some bearer_auth)) (request_by ''bob'' ''POST'' ''/ui/commands/save'')
       (shop_state (Some bearer_auth)))) = bs_world (shop_state (Some bearer_auth)) \<and>
    fst (the (rw_sent (fst (serve_request rq_path (shop_deps (Some bearer_auth))
       (request_by ''bob'' ''POST'' ''/ui/commands/save'') (shop_state (Some bearer_auth)))))) = 403"
proof -
  let ?d = "shop_deps (Some bearer_auth)"
  let ?s = "shop_state (Some bearer_auth)"
  let ?r = "request_by ''bob'' ''POST'' ''/ui/commands/save''"
  have decodes: "(jd_command (dn_json ?d) (rq_body ?r) = None) = False"
    by (simp add: shop_deps_def boot_dependencies_def shop_platform_def)
  have "bs_world (snd (serve_request rq_path ?d ?r ?s)) = bs_world ?s \<and>
    fst (the (rw_sent (fst (serve_request rq_path ?d ?r ?s)))) =
      (if jd_command (dn_json ?d) (rq_body ?r) = None then 400 else 403)"
  proof (rule denied_command_refused)
    show "admits (dn_authenticate ?d) (bearer_claims ''bob'') ''bob'' (rq_header ?r)"
      unfolding shop_deps_simps by (rule bearer_admits) simp
    show "dn_evaluate ?d = Some (boot_evaluator (shop_platform (Some bearer_auth)) shop_config shop_defs)" by simp
    show "rq_method ?r = ''POST''" "rq_path ?r = ''/ui/commands/'' @ ''save''" "raw_segment ''save''"
      by (simp_all add: raw_segment_def pathUnescape_def)
    show "fst (resolve_with (boot_evaluator (shop_platform (Some bearer_auth)) shop_config shop_defs) (rq_clock ?r 0)
        (rq_clock ?r 1) (admitted_context (bearer_claims ''bob'') ''bob'' ?r) (shop_state (Some bearer_auth))) = Inr []"
      unfolding shop_resolves by (rule shop_denies) (simp add: bearer_subject)
    show "GetCommand (ce_registry (dn_executor ?d)) (pathUnescape ''save'') =
        Some (demo_command ''save'' shop_operation [''orders:edit''])"
      by (simp add: shop_deps_def boot_dependencies_def boot_registry_def GetCommand_def Replace_fields shop_defs_def
          shop_domain_def demo_defs pathUnescape_def)
    show "denied [] (cm_capabilities (demo_command ''save'' shop_operation [''orders:edit'']))"
      by (simp add: denied_def demo_command_def Has_def)
  qed
  then show ?thesis unfolding decodes if_False .
qed


theorem handler_errors_lose_trace_witness:
  "RequestLogging (handler_of (handleGetPage (shop_deps None))) [TraceLayer (Some ''t1'')] (shop_request ''GET'' [])
     new_writer (shop_state None) =
   (False, WriteJSON (status_for ErrNotFound)
      (Some (BdError (NewNotFoundError (''page '' @ quote strict_lib [] @ '' not found'')))) new_writer, shop_state None)"
proof -
  have env: "env_code (NewNotFoundError m) = ErrNotFound" for m by (simp add: NewNotFoundError_def envelope_def)
  have "handleGetPage (shop_deps None) (shop_request ''GET'' []) (shop_state None) =
      (RFail (Envelope (NewNotFoundError (''page '' @ quote strict_lib [] @ '' not found''))), shop_state None)"
    by (simp add: handleGetPage_def with_context_def RequestContextFrom_def GetPage_def shop_deps_def boot_dependencies_def boot_pages_def boot_registry_def
        shop_platform_def path_value_def shop_request_def GetPageDef_def
        Replace_fields shop_defs_def shop_domain_def demo_defs reply_of_def not_found_error_def)
  from handler_errors_lose_trace [where core = "handleGetPage (shop_deps None)", OF this, where tid = "''t1''"
      and layers = "[]" and rw = new_writer]
  show ?thesis by (simp only: env)
qed

end
