(* ===== verification/Deployment.thy ===== *)
theory Deployment imports RouteTable begin

section \<open>The server that main.go starts\<close>

text \<open>
  Statements about the whole program: a server as \<open>boot\<close> builds it, after any sequence of requests
  with any contents. They compose the contracts of the components along the wiring of \<open>main\<close>.
\<close>

subsection \<open>What boot establishes\<close>

lemma boot_cases:
  assumes "boot pf path w = Inr (d, s)"
  obtains cfg idx defs an e w1 where "boot_config pf path = Inr cfg"
    "boot_definitions pf cfg = Inr (idx, defs)" "boot_analytics pf (cfg_analytics cfg) w = Inr (an, e, w1)"
    "d = boot_dependencies pf cfg idx defs an" "s = boot_state pf cfg idx defs e w1"
  using assms unfolding boot_def by (auto split: sum.splits)

lemma boot_definitions_valid:
  assumes "boot_definitions pf cfg = Inr (idx, defs)"
  shows "ValidateDefs (pf_lib pf) defs (Some idx) = []"
    and "LoadSpecs (pf_load_spec pf) (pf_validate_spec pf) (buildSpecSources (pf_join pf) (cfg_specs cfg)) NewIndex =
      (idx, None)"
    and "LoadAll (pf_lib pf) (pf_walk pf) (LoadFile (pf_sha pf) (pf_read pf) (pf_decode_definition pf))
      (dc_directories (cfg_definitions cfg)) = Inr defs"
  using assms by (auto simp: boot_definitions_def split: prod.splits option.splits sum.splits if_splits)

lemma boot_analytics_inv:
  assumes "boot_analytics pf a w = Inr (Some (env, es), e, w1)"
  shows "en_resolver es = DefaultPartitionResolver" and "en_fingerprint es = pf_fingerprint pf"
    and "cache_inv es e"
  using assms NewEngine_setup
  by (fastforce simp: boot_analytics_def split: if_splits sum.splits prod.splits)+

lemma boot_inv:
  assumes "boot pf path w = Inr (d, s)"
  shows "server_inv d s"
proof -
  obtain cfg idx defs an e w1 where b: "boot_analytics pf (cfg_analytics cfg) w = Inr (an, e, w1)"
    "d = boot_dependencies pf cfg idx defs an" "s = boot_state pf cfg idx defs e w1"
    using boot_cases [OF assms] by metis
  have "resolver_inv d s"
    using capc.justified_empty by (simp add: b resolver_inv_def boot_state_def NewResolver_def)
  moreover have "lookup_inv (bs_lookups s)" by (simp add: b boot_state_def lookup_inv_New)
  moreover have "analytics_inv d s"
    using b(1) boot_analytics_inv(3) by (auto simp: b(2,3) analytics_inv_def boot_dependencies_def boot_state_def)
  ultimately show ?thesis by (simp add: server_inv_def)
qed

subsection \<open>Runs of requests\<close>

text \<open>
  The authentication middleware comes from the Frame library; it has no access to the state of the
  server, so it keeps whatever the handlers keep.
\<close>

definition stateless :: "('s handler \<Rightarrow> 's handler) option \<Rightarrow> bool" where
  "stateless auth \<longleftrightarrow> (\<forall>I. auth_keeps (preserves I) auth)"

lemma run_requests_keeps:
  assumes "stateless (dn_authenticate d)" and "\<And>r t. I t \<Longrightarrow> I (snd (serve_request loc d r t))" and "I s"
  shows "I (run_requests loc d rs s)"
  using assms(2,3) unfolding run_requests_def by (induction rs arbitrary: s) auto

lemma core_lookups:
  fixes s :: "('p, 'w) bff_state"
  assumes "core \<in> snd ` set (core_routes d @ RegisterRoutes d)"
  shows "same_setup (bs_lookups s) (bs_lookups (snd (core r s)))"
proof -
  have refl: "same_setup lp lp" for lp :: "'w lookup_provider" by (simp add: same_setup_def)
  have plain: "same_caches s s' \<Longrightarrow> same_setup (bs_lookups s) (bs_lookups s')" for s'
    by (simp add: same_caches_def refl)
  have lk: "same_setup (bs_lookups s) (bs_lookups (snd (handleLookup d r s)))"
    using GetLookup_setup
    by (auto simp: handleLookup_def with_context_def refl split: option.split prod.split)
  have caps: "same_setup (bs_lookups s) (bs_lookups (snd (handleCapabilities d r s)))"
    "same_setup (bs_lookups s) (bs_lookups (snd (handleBatchCheck d r s)))"
    by (simp_all add: handleCapabilities_def handleBatchCheck_def with_context_def split_beta refl resolve_with_only
        split: option.split sum.split)
  have "\<forall>core\<in>set (List.map snd (core_routes d)). same_setup (bs_lookups s) (bs_lookups (snd (core r s)))"
    by (simp add: core_routes_def plain plain_cores command_cores lk caps)
  moreover have "\<forall>core\<in>set (List.map snd (RegisterRoutes d)). same_setup (bs_lookups s) (bs_lookups (snd (core r s)))"
    by (auto simp: RegisterRoutes_def handleAnalytics_def refl split: option.split)
  ultimately show ?thesis using assms by auto
qed

interpretation wired: server_invariant d "\<lambda>s. same_setup lp (bs_lookups s)"
  for d :: "('p, 'w) dependencies" and lp
proof
  show "same_setup lp (bs_lookups (snd (resolve_with eval t0 t1 rctx s)))"
    if "same_setup lp (bs_lookups s)" for eval s t0 t1 rctx
    using that by (simp add: resolve_with_only)
  show "same_setup lp (bs_lookups (snd (core r s)))"
    if "core \<in> snd ` set (core_routes d @ RegisterRoutes d)" and "same_setup lp (bs_lookups s)" for core r s
    using core_lookups [OF that(1), of s r] that(2) by (simp add: same_setup_def)
qed

lemma run_inv:
  assumes "boot pf path w = Inr (d, s0)" and "stateless (dn_authenticate d)"
  shows "server_inv d (run_requests loc d rs s0)"
    and "same_setup (bs_lookups s0) (bs_lookups (run_requests loc d rs s0))"
proof -
  have keep: "auth_keeps (preserves I) (dn_authenticate d)" for I using assms(2) by (simp add: stateless_def)
  show "server_inv d (run_requests loc d rs s0)"
    by (rule run_requests_keeps [OF assms(2)]) (rule server.request_keeps [OF keep], assumption, rule boot_inv [OF assms(1)])
  show "same_setup (bs_lookups s0) (bs_lookups (run_requests loc d rs s0))"
    by (rule run_requests_keeps [OF assms(2), where I = "\<lambda>s. same_setup (bs_lookups s0) (bs_lookups s)"])
       (rule wired.request_keeps [OF keep], assumption, simp add: same_setup_def)
qed

text \<open>The scopes of the default resolver: the caller's own partition, or none where the claim is missing.\<close>

lemma own_scope:
  "scope_allowed (\<lambda>_ _. False) octx caps f \<Longrightarrow>
   (case octx of
      Some rctx \<Rightarrow>
        if TenantID rctx \<noteq> [] then
          tf_scoped f \<and> tf_tenant_id f = TenantID rctx \<and> set (tf_partition_ids f) = {PartitionID rctx} - {[]}
        else \<not> tf_scoped f \<and> Has caps GlobalViewCapability
    | None \<Rightarrow> \<not> tf_scoped f \<and> Has caps GlobalViewCapability)"
proof (cases octx)
  case (Some rctx)
  assume a: "scope_allowed (\<lambda>_ _. False) octx caps f"
  show ?thesis
  proof (cases "tf_partition_ids f")
    case Nil
    with a Some show ?thesis by (auto simp: scope_allowed_def partition_visible_def split: if_splits)
  next
    case (Cons i ids)
    with a Some show ?thesis by (auto simp: scope_allowed_def partition_visible_def split: if_splits)
  qed
qed (simp add: scope_allowed_def split: if_splits)

subsection \<open>Properties\<close>

text \<open>
  C7. The invariant of the server: whatever requests a started server has been sent, every capability set
  in its cache was computed by the evaluator for a context with the entry's key, every list of lookup
  options was fetched for a definition and a caller with theirs, and every cached metric value was given
  by the backend for a query, scope, time range and parameters with the key it is stored under.
\<close>

theorem server_inv_reachable:
  assumes "boot pf path w0 = Inr (d, s0)" and "stateless (dn_authenticate d)"
  shows "server_inv d (run_requests loc d rs s0)"
  using assms by (rule run_inv)

text \<open>
  C14. A server starts only with valid definitions, serves exactly these and can submit each of its forms:
  when \<open>boot\<close> returns a server, the configuration, the specifications and the definition files loaded,
  every loaded definition satisfies all the written-out conditions of validity against the loaded index
  (so definitions that do not validate give no server), the registry of every provider and of the lookup
  cache is built from these definitions, the executor holds that index, and the command that a form of
  the registry submits is one that the executor finds.
\<close>

theorem started_server_submits:
  assumes "boot pf path w0 = Inr (d, s0)"
  shows "\<exists>cfg idx defs. boot_config pf path = Inr cfg \<and>
    LoadSpecs (pf_load_spec pf) (pf_validate_spec pf) (buildSpecSources (pf_join pf) (cfg_specs cfg)) NewIndex =
      (idx, None) \<and>
    LoadAll (pf_lib pf) (pf_walk pf) (LoadFile (pf_sha pf) (pf_read pf) (pf_decode_definition pf))
      (dc_directories (cfg_definitions cfg)) = Inr defs \<and>
    list_all (wf_domain (Some idx)) defs \<and>
    {dn_registry d, mp_registry (dn_menu d), pv_registry (dn_pages d), pv_registry (dn_forms d),
     pv_registry (dn_resources d), ce_registry (dn_executor d), sv_registry (dn_search d),
     lp_registry (bs_lookups s0)} = {Replace (pf_sha pf) defs} \<and>
    ce_index (dn_executor d) = Some idx \<and>
    (\<forall>formID f. GetFormDef (pv_registry (dn_forms d)) formID = Some f \<longrightarrow>
       GetCommand (ce_registry (dn_executor d)) (fm_submit_command f) \<noteq> None)"
proof -
  obtain cfg idx defs an e w1 where b: "boot_config pf path = Inr cfg" "boot_definitions pf cfg = Inr (idx, defs)"
    "d = boot_dependencies pf cfg idx defs an" "s0 = boot_state pf cfg idx defs e w1"
    using boot_cases [OF assms] by metis
  note valid = boot_definitions_valid [OF b(2)]
  have reg: "pv_registry (dn_forms d) = Replace (pf_sha pf) defs" "ce_registry (dn_executor d) = Replace (pf_sha pf) defs"
    by (simp_all add: b(3) boot_dependencies_def boot_pages_def boot_registry_def)
  have regs: "{dn_registry d, mp_registry (dn_menu d), pv_registry (dn_pages d), pv_registry (dn_forms d),
      pv_registry (dn_resources d), ce_registry (dn_executor d), sv_registry (dn_search d),
      lp_registry (bs_lookups s0)} = {Replace (pf_sha pf) defs}"
    by (simp add: b(3,4) boot_dependencies_def boot_state_def boot_pages_def boot_registry_def NewSearchProvider_def
        NewLookupProvider_def)
  have idx: "ce_index (dn_executor d) = Some idx" by (simp add: b(3) boot_dependencies_def)
  have "\<forall>formID f. GetFormDef (pv_registry (dn_forms d)) formID = Some f \<longrightarrow>
      GetCommand (ce_registry (dn_executor d)) (fm_submit_command f) \<noteq> None"
    using form_submits_found [OF valid(1)] by (simp add: reg)
  with b(1) valid(2,3) valid(1) [unfolded ValidateDefs_Nil] regs idx show ?thesis by blast
qed

text \<open>
  C1. No capability without the authorizer: after any requests, a capability that the server resolves for a
  request, from its cache or not, is one that the authorization service allows for a context with
  the same cache key, by one of the checks that the definitions ask for, whichever of its calls fail.
\<close>

theorem granted_by_authorizer:
  assumes "boot pf path w0 = Inr (d, s0)" and "stateless (dn_authenticate d)"
    and "dn_evaluate d = Some eval"
    and "fst (resolve_with eval t0 t1 rctx (run_requests loc d rs s0)) = Inr caps"
    and "\<And>ch res. pf_batch pf ch = Inr res \<Longrightarrow> res = List.map allowed ch"
    and "\<And>q b. pf_check pf q = Inr b \<Longrightarrow> b = allowed q"
  shows "\<exists>defs rctx'. dn_registry d = Replace (pf_sha pf) defs \<and> cap_cache_key rctx' = cap_cache_key rctx \<and>
    {c. gget caps c = Some True} \<subseteq>
      {ck_capability chk | chk. chk \<in> set (CollectCapabilityChecks defs (cfg_services (dn_config d))) \<and>
         allowed (request_for (pf_profile_ns pf) rctx' chk)}"
proof -
  obtain cfg idx defs an where d: "d = boot_dependencies pf cfg idx defs an"
    using boot_cases [OF assms(1)] by metis
  have inv: "resolver_inv d (run_requests loc d rs s0)"
    using run_inv(1) [OF assms(1,2)] by (simp add: server_inv_def)
  obtain rctx' where r: "cap_cache_key rctx' = cap_cache_key rctx" "eval rctx' = Inr caps"
    using resolve_with_inv [OF assms(3) inv, of t0 t1 rctx] assms(4) unfolding evaluated_for_def by blast
  let ?checks = "CollectCapabilityChecks defs (cfg_services cfg)"
  have "eval = boot_evaluator pf cfg defs" using assms(3) by (simp add: d boot_dependencies_def)
  then have keto: "KetoResolveCapabilities (pf_profile_ns pf) (pf_batch pf) (pf_check pf) ?checks rctx' = Some caps"
    using r(2) by (simp add: boot_evaluator_def keto_evaluate_def split: option.splits)
  have "\<exists>caps'. KetoResolveCapabilities (pf_profile_ns pf) (pf_batch pf) (pf_check pf) ?checks rctx' = Some caps' \<and>
      {c. gget caps' c = Some True} \<subseteq>
        {ck_capability chk | chk. chk \<in> set ?checks \<and> allowed (request_for (pf_profile_ns pf) rctx' chk)}"
    by (rule keto_no_more) (fact assms(5), fact assms(6))
  with keto have "{c. gget caps c = Some True} \<subseteq>
      {ck_capability chk | chk. chk \<in> set ?checks \<and> allowed (request_for (pf_profile_ns pf) rctx' chk)}" by simp
  then show ?thesis using r(1) unfolding d by (auto simp: boot_dependencies_def boot_registry_def)
qed

text \<open>
  C3. A served lookup stays within the tenant: after any requests by anybody, what the server answers for
  a tenant-scoped lookup was fetched from the backend for that definition and a caller of the same
  tenant (no lookup id has a colon).
\<close>

theorem served_lookup_isolated:
  assumes "boot pf path w0 = Inr (d, s0)" and "stateless (dn_authenticate d)"
    and "handleLookup d r (run_requests loc d rs s0) = (RJson 200 (BdLookup resp), s')"
    and "GetLookupDef (dn_registry d) (path_value r ''lookupId'') = Some def" and "lookup_scope def = ''tenant''"
    and "\<And>k l. GetLookupDef (dn_registry d) k = Some l \<Longrightarrow> CHR '':'' \<notin> set k"
  shows "\<exists>rctx rctx' w1 options. RequestContextFrom (rq_context r) = Some rctx \<and>
    TenantID rctx' = TenantID rctx \<and> fst (fetchFromBackend (bs_lookups s0) rctx' def w1) = Inr options \<and>
    ly_options resp = filterOptions (pf_lib pf) options (query_get r ''q'')"
proof -
  let ?s = "run_requests loc d rs s0"
  obtain cfg idx defs an e w1 where b: "d = boot_dependencies pf cfg idx defs an" "s0 = boot_state pf cfg idx defs e w1"
    using boot_cases [OF assms(1)] by metis
  have reg: "dn_registry d = Replace (pf_sha pf) defs" by (simp add: b boot_dependencies_def boot_registry_def)
  have inv: "lookup_inv (bs_lookups ?s)" and same: "same_setup (bs_lookups s0) (bs_lookups ?s)"
    using run_inv [OF assms(1,2)] by (auto simp: server_inv_def)
  have lp: "lp_registry (bs_lookups ?s) = Replace (pf_sha pf) defs" "lp_lib (bs_lookups ?s) = pf_lib pf"
    using same by (simp_all add: same_setup_def b(2) boot_state_def NewLookupProvider_def boot_registry_def)
  obtain rctx where rctx: "RequestContextFrom (rq_context r) = Some rctx"
    using assms(3) by (auto simp: handleLookup_def with_context_def split: option.splits)
  obtain res lp' w' where g: "GetLookup (rq_clock r 3) (rq_clock r 4) (rq_clock r 5) rctx
      (path_value r ''lookupId'') (query_get r ''q'') (bs_lookups ?s) (bs_world ?s) = (res, lp', w')"
    by (metis prod_cases3)
  with assms(3) rctx have "res = Inr resp"
    by (simp add: handleLookup_def with_context_def reply_of_def split: sum.splits)
  from tenant_scoped_answer [OF inv lp(1) g [unfolded this] assms(4) [unfolded reg] assms(5)] assms(6) [unfolded reg]
  obtain rctx' w2 options where a: "TenantID rctx' = TenantID rctx"
    "fst (fetchFromBackend (bs_lookups ?s) rctx' def w2) = Inr options"
    "ly_options resp = filterOptions (pf_lib pf) options (query_get r ''q'')"
    using lp(2) by auto
  have "fetchFromBackend (bs_lookups ?s) = fetchFromBackend (bs_lookups s0)"
    using same by (intro ext) (simp only: fetchFromBackend_def same_setup_def)
  with a rctx show ?thesis by metis
qed

text \<open>
  C4. As it is deployed the analytics endpoints show a caller with a tenant and a partition only that
  partition of that tenant: after any requests by anybody, what a successful response shows is a value
  that the backend gave for the question of this request (kind, metric query, parameters, and times of
  the same minutes) with, for a caller with a tenant, the scope of that tenant and exactly the caller's
  partition. The list of partitions is empty, which the backend reads as the whole tenant, exactly when
  the caller has no partition claim; a caller without tenant is answered unscoped and only with the
  global capability. The fingerprint is taken to be injective.
\<close>

theorem served_analytics_own_partition:
  assumes "boot pf path w0 = Inr (d, s0)" and "stateless (dn_authenticate d)" and "inj (pf_fingerprint pf)"
    and "dn_analytics d = Some (env, es)"
    and "handleAnalytics d env es route r (run_requests loc d rs s0) = (RApi resp, s')" and "as_status resp = 200"
  shows "\<exists>kind q tr x q' f tr' x' v. call_asks env es (analytics_call d route r) kind q tr x \<and>
    same_question q' tr' x' q tr x \<and> given_for es kind q' f tr' x' v \<and> as_body resp = body_of v \<and>
    (case RequestContextFrom (rq_context r) of
       Some rctx \<Rightarrow>
         if TenantID rctx \<noteq> [] then
           tf_scoped f \<and> tf_tenant_id f = TenantID rctx \<and> set (tf_partition_ids f) = {PartitionID rctx} - {[]}
         else \<not> tf_scoped f \<and> Has (CapabilitiesFrom (rq_context r)) GlobalViewCapability
     | None \<Rightarrow> \<not> tf_scoped f \<and> Has (CapabilitiesFrom (rq_context r)) GlobalViewCapability)"
proof -
  let ?s = "run_requests loc d rs s0"
  obtain cfg idx defs an e w1 where b: "boot_analytics pf (cfg_analytics cfg) w0 = Inr (an, e, w1)"
    "d = boot_dependencies pf cfg idx defs an"
    using boot_cases [OF assms(1)] by metis
  then have an: "an = Some (env, es)" using assms(4) by (simp add: boot_dependencies_def)
  note es = boot_analytics_inv [OF b(1) [unfolded an]]
  have "cache_inv es (bs_engine ?s)"
    using run_inv(1) [OF assms(1,2)] es assms(3,4) by (simp add: server_inv_def analytics_inv_def)
  moreover obtain res where call: "serve_call env es (analytics_call d route r) (bs_engine ?s) (bs_world ?s) = Some res"
    and "fst res = resp"
    using assms(5) by (auto simp: handleAnalytics_def split: option.splits prod.splits)
  ultimately have "answers_question es (scope_allowed (\<lambda>_ _. False) (RequestContextFrom (rq_context r))
      (CapabilitiesFrom (rq_context r))) (call_asks env es (analytics_call d route r)) (as_body resp)"
    using own_partition.serve_call_ok [OF es(1) _ TrueI _ call] es(2) assms(3,6)
    by (auto simp: answers_ok_def analytics_call_def split: prod.splits)
  then show ?thesis unfolding answers_question_def using own_scope by blast
qed

subsection \<open>The hypotheses can hold\<close>

lemma shop_stateless: "stateless (dn_authenticate (shop_deps (Some bearer_auth)))"
  by (simp add: stateless_def shop_deps_def boot_dependencies_def shop_platform_def bearer_auth_keeps)

abbreviation the_shop :: "(unit, string list) dependencies" where "the_shop \<equiv> shop_deps (Some bearer_auth)"
abbreviation the_shop_state :: "(unit, string list) bff_state" where "the_shop_state \<equiv> shop_state (Some bearer_auth)"

theorem server_inv_reachable_witness:
  "server_inv the_shop (run_requests rq_path the_shop [shop_request ''GET'' ''/ui/navigation''] the_shop_state)"
  by (rule server_inv_reachable [OF shop_boots shop_stateless])

theorem started_server_submits_witness:
  "\<exists>cfg idx defs. boot_config (shop_platform (Some bearer_auth)) [] = Inr cfg \<and>
     list_all (wf_domain (Some idx)) defs \<and> dn_registry the_shop = Replace (\<lambda>s. s) defs \<and>
     ce_index (dn_executor the_shop) = Some idx \<and>
     GetCommand (ce_registry (dn_executor the_shop)) ''save'' \<noteq> None"
proof -
  have form: "GetFormDef (pv_registry (dn_forms the_shop)) ''edit'' = Some (demo_form ''edit'' ''save'')"
    by (simp add: shop_deps_def boot_dependencies_def boot_pages_def boot_registry_def GetFormDef_def Replace_fields
       shop_defs_def shop_domain_def demo_defs)
  have "pf_sha (shop_platform (Some bearer_auth)) = (\<lambda>s. s)" by (simp add: shop_platform_def)
  with started_server_submits [OF shop_boots, where auth1 = "Some bearer_auth"] obtain cfg idx defs where
    "boot_config (shop_platform (Some bearer_auth)) [] = Inr cfg" "list_all (wf_domain (Some idx)) defs"
    "dn_registry the_shop = Replace (\<lambda>s. s) defs" "ce_index (dn_executor the_shop) = Some idx"
    "GetCommand (ce_registry (dn_executor the_shop)) (fm_submit_command (demo_form ''edit'' ''save'')) \<noteq> None"
    using form by (metis insertI1 singletonD)
  then show ?thesis by (simp add: demo_form_def) blast
qed

theorem granted_by_authorizer_witness:
  "\<exists>defs rctx'. dn_registry the_shop = Replace (\<lambda>s. s) defs \<and> cap_cache_key rctx' = cap_cache_key ann \<and>
    {c. gget [(''orders:edit'', True)] c = Some True} \<subseteq>
      {ck_capability chk | chk. chk \<in> set (CollectCapabilityChecks defs (cfg_services (dn_config the_shop))) \<and>
         rq_subject_id (request_for ''profile'' rctx' chk) = ''ann''}"
proof -
  have pf: "pf_sha (shop_platform a) = (\<lambda>s. s)" "pf_profile_ns (shop_platform a) = ''profile''"
    "pf_batch (shop_platform a) ch = Inr (List.map (\<lambda>q. rq_subject_id q = ''ann'') ch)"
    "pf_check (shop_platform a) q = Inr (rq_subject_id q = ''ann'')" for a ch q
    by (simp_all add: shop_platform_def)
  have eval: "dn_evaluate the_shop = Some (boot_evaluator (shop_platform (Some bearer_auth)) shop_config shop_defs)"
    by (simp add: shop_deps_def boot_dependencies_def)
  have "fst (resolve_with (boot_evaluator (shop_platform (Some bearer_auth)) shop_config shop_defs) 0 0 ann
      (run_requests rq_path the_shop [] the_shop_state)) = Inr [(''orders:edit'', True)]"
    by (simp add: run_requests_def resolve_with_def Resolve_def shop_state_def boot_state_def NewResolver_def
        cap_lookup_def shop_evaluates split: prod.split)
  from granted_by_authorizer [OF shop_boots shop_stateless eval this, where allowed = "\<lambda>q. rq_subject_id q = ''ann''",
      unfolded pf]
  show ?thesis by simp
qed

theorem served_lookup_isolated_witness:
  "\<exists>rctx rctx' w1 options. RequestContextFrom (rq_context (shop_request ''GET'' [])) = Some rctx \<and>
    TenantID rctx' = TenantID rctx \<and>
    fst (fetchFromBackend (bs_lookups the_shop_state) rctx' shop_lookup w1) = Inr options \<and>
    ly_options (lookup_answer strict_lib [\<lparr>op_label = ''Main'', op_value = ''1'', op_icon = []\<rparr>] [] False) =
      filterOptions strict_lib options (query_get (shop_request ''GET'' []) ''q'')"
proof -
  have lib: "pf_lib (shop_platform a) = strict_lib" "pf_sha (shop_platform a) = (\<lambda>s. s)" for a
    by (simp_all add: shop_platform_def)
  have path: "path_value (shop_request meth path) ''lookupId'' = ''branches''" for meth path
    by (simp add: path_value_def shop_request_def)
  have reg: "dn_registry the_shop = boot_registry (shop_platform (Some bearer_auth)) shop_defs"
    by (simp add: shop_deps_def boot_dependencies_def)
  have "handleLookup the_shop (shop_request ''GET'' []) (run_requests rq_path the_shop [] the_shop_state) =
      (RJson 200 (BdLookup (lookup_answer strict_lib [\<lparr>op_label = ''Main'', op_value = ''1'', op_icon = []\<rparr>] [] False)),
       snd (handleLookup the_shop (shop_request ''GET'' []) the_shop_state))"
    using shop_lookup_served by (simp add: run_requests_def)
  from served_lookup_isolated [OF shop_boots shop_stateless this, where def = shop_lookup, unfolded lib path reg]
  show ?thesis using shop_registry shop_lookups by (simp add: shop_lookup_def demo_lookup_def lookup_scope_def)
qed

theorem served_analytics_own_partition_witness:
  "\<exists>kind q tr x q' f tr' x' v.
     call_asks demo_env shop_analytics (analytics_call the_shop scalar_route (shop_request ''POST'' [])) kind q tr x \<and>
     same_question q' tr' x' q tr x \<and> given_for shop_analytics kind q' f tr' x' v \<and> ApiScalar (Finite 0) = body_of v \<and>
     tf_scoped f \<and> tf_tenant_id f = ''acme'' \<and> set (tf_partition_ids f) = {''p''}"
proof -
  have inj: "inj (pf_fingerprint (shop_platform (Some bearer_auth)))"
    by (simp add: shop_platform_def demo_fingerprint_inj)
  have an: "dn_analytics the_shop = Some (demo_env, shop_analytics)" by (simp add: shop_deps_def boot_dependencies_def)
  have rq: "RequestContextFrom (rq_context (shop_request m p)) = Some ann"
    "CapabilitiesFrom (rq_context (shop_request m p)) = []" for m p
    by (simp_all add: shop_request_def RequestContextFrom_def CapabilitiesFrom_def)
  obtain s' where "handleAnalytics the_shop demo_env shop_analytics scalar_route (shop_request ''POST'' [])
      (run_requests rq_path the_shop [] the_shop_state) = (RApi \<lparr>as_status = 200, as_body = ApiScalar (Finite 0)\<rparr>, s')"
    using shop_analytics_served by (simp add: run_requests_def) blast
  from served_analytics_own_partition [OF shop_boots shop_stateless inj an this] show ?thesis
    by (simp add: rq ann_def)
qed

subsection \<open>Instances of the statements about the pipeline\<close>

theorem router_always_answers_witness:
  "case NewRouter rq_path the_shop [] (request_by [] ''GET'' ''/ui/navigation'') new_writer the_shop_state of
     (panicked, rw', s') \<Rightarrow> \<not> panicked \<and> rw_sent rw' \<noteq> None"
  by (rule router_always_answers) (simp add: bearer_auth_keeps)

theorem responses_hardened_witness:
  "\<exists>code hdrs. rw_sent (fst (serve_request rq_path the_shop (request_by [] ''GET'' ''/nowhere'') the_shop_state)) =
     Some (code, hdrs) \<and> gget hdrs ''X-Frame-Options'' = Some ''DENY'' \<and>
     gget hdrs ''Cache-Control'' = Some ''no-store''"
proof -
  let ?r = "request_by [] ''GET'' ''/nowhere''"
  have "case NewRouter rq_path the_shop [] ?r new_writer the_shop_state of
      (panicked, rw', s') \<Rightarrow> \<not> panicked \<and> rw_sent rw' \<noteq> None"
    by (rule router_answers_helper) (simp add: bearer_auth_keeps)
  then obtain code hdrs where sent: "rw_sent (fst (serve_request rq_path the_shop ?r the_shop_state)) = Some (code, hdrs)"
    by (auto simp: serve_request_def split: prod.splits)
  have "{(''X-Correlation-Id'', correlation_of ?r),
      (''Strict-Transport-Security'', ''max-age=31536000; includeSubDomains''),
      (''X-Content-Type-Options'', ''nosniff''), (''X-Frame-Options'', ''DENY''), (''X-XSS-Protection'', ''0''),
      (''Cache-Control'', ''no-store''), (''Referrer-Policy'', ''strict-origin-when-cross-origin'')}
    \<subseteq> {(k, v). gget hdrs k = Some v}"
    by (rule responses_hardened [OF _ sent]) (simp add: bearer_auth_keeps)
  then have "gget hdrs ''X-Frame-Options'' = Some ''DENY''" "gget hdrs ''Cache-Control'' = Some ''no-store''" by simp_all
  with sent show ?thesis by blast
qed

theorem nothing_before_auth_witness:
  "snd (serve_request rq_path the_shop (request_by [] ''POST'' ''/ui/commands/save'') the_shop_state) = the_shop_state"
  by (rule nothing_before_auth [where a = bearer_auth and deny = deny_request]) (simp_all add: bearer_auth_def)

theorem evaluator_failure_stops_witness:
  "let d = the_shop\<lparr>dn_evaluate := Some (\<lambda>rctx. Inl (Plain ''keto is down''))\<rparr>;
       r = request_by ''ann'' ''GET'' ''/ui/navigation''
   in snd (serve_request rq_path d r the_shop_state) = the_shop_state \<and>
      fst (the (rw_sent (fst (serve_request rq_path d r the_shop_state)))) \<in> {301, 404, 405, 502}"
  unfolding Let_def
proof (rule evaluator_failure_stops)
  let ?d = "the_shop\<lparr>dn_evaluate := Some (\<lambda>rctx. Inl (Plain ''keto is down''))\<rparr>"
  have "dn_authenticate ?d = Some bearer_auth" by simp
  then show "admits (dn_authenticate ?d) (bearer_claims ''ann'') ''ann''
      (rq_header (request_by ''ann'' ''GET'' ''/ui/navigation''))"
    by (simp only:) (rule bearer_admits, simp)
  show "dn_evaluate ?d = Some (\<lambda>rctx. Inl (Plain ''keto is down''))" by simp
  let ?rctx = "admitted_context (bearer_claims ''ann'') ''ann'' (request_by ''ann'' ''GET'' ''/ui/navigation'')"
  show "(\<lambda>rctx. Inl (Plain ''keto is down'')) ?rctx = Inl (Plain ''keto is down'')" by simp
  show "ce_expires entry \<le> rq_clock (request_by ''ann'' ''GET'' ''/ui/navigation'') 0"
    if "gget (r_cache (bs_resolver the_shop_state)) (cap_cache_key ?rctx) = Some entry" for entry
    using that by (simp add: shop_state_def boot_state_def NewResolver_def)
qed

end
