(* ===== verification/Spec2Isabelle.thy ===== *)
theory Spec2Isabelle imports ResolverSteps LookupSteps AnalyticsSteps SearchSteps ResponseTypes Policy Validator Executor Menu Resources Lookup Metrics AnalyticsGuard PromBackend Deployment begin

text \<open>
  Thesa is a backend for frontends: a Go server that reads YAML definitions of domains (pages, forms,
  commands, searches, lookups) and OpenAPI documents of backend services, and serves a frontend whose
  every screen and action is filtered by the capabilities of the caller. This library translates the
  server into definitions and proves what makes it correct, from single functions up to the running
  server under any sequence of requests.

  How the program fits together. \<open>main\<close> (apps/default/cmd/bff/main.go) loads the configuration
  (pkg/config), indexes the OpenAPI documents (pkg/openapi), loads and validates the definitions and puts
  them in a registry (pkg/definition), collects the capability checks (pkg/capability), and builds the
  invokers (pkg/invoker), the executor of commands (pkg/command), the providers of metadata (pkg/metadata)
  and of searches and lookups (pkg/search), the analytics engine (pkg/analytics) and the router
  (pkg/transport). A request passes recovery, request id, security headers, authentication, construction
  of the request context and resolution of the capabilities before its handler runs; the handler calls a
  provider, which consults the registry and the caller's capabilities and may call a backend through the
  invokers.

  Shared vocabulary. Prelude holds Go maps (association lists with distinct keys, whose order is the
  order of a range loop), error values and the collections of facts; GoStrings and Values the parts of
  strings, strconv, fmt and of dynamic values the code uses; TTLCache the interface \<open>ttl_cache\<close> of the
  four caches with expiry. Model, Definitions and Descriptors hold the structs of model/.

  Components, each a theory named after its part, with one definition per Go function, in the order of
  the code:
   \<^item> Capability, CapabilityResolver, ResolverSteps, Policy: model/capability.go and pkg/capability. Has
     decides the wildcard specification; the resolver's cache; the resolver as a step relation of
     concurrent requests; the Keto evaluator in chunks and with its fallback, and the collection of checks.
   \<^item> Config: pkg/config. OpenAPIIndex: pkg/openapi. Registry and Validator: pkg/definition, with loading,
     the snapshot (interface \<open>last_wins_store\<close>) and validation against a declarative specification.
   \<^item> Expression, InputMapper, Executor: pkg/command. Invoker: pkg/invoker (URL, headers, retries, SDK
     handlers; interface \<open>exclusive_dispatch\<close>).
   \<^item> Actions, Pages, Menu, Resources: pkg/metadata. Search, Lookup: pkg/search. SearchSteps runs the
     goroutines of a search (workers, wait group, channel, collector) as a step relation.
   \<^item> Metrics, AnalyticsCache, AnalyticsEngine, PromBackend: pkg/analytics (queries, allowlist, PromQL, the
     caches, engine and endpoints, the three backends). AnalyticsGuard proves what the endpoints guarantee,
     over the interface \<open>partition_source\<close>, which both partition resolvers interpret.
   \<^item> CacheSteps: any number of requests on one cache that is locked for the lookup and for the store only,
     a step relation over the interface \<open>shared_cache\<close>; LookupSteps interprets it on the lookup cache and
     its invalidation, AnalyticsSteps on the partition resolver and on the response cache. A call of the
     sequential model is shown to be a run of these steps.
   \<^item> Response, Middleware, Handlers, Router: pkg/transport. A handler maps the layers of wrapped writers,
     the request, the writer and the state of the server to whether it panicked, the writer and the next
     state. The state (\<open>bff_state\<close>) holds the capability resolver, the lookup cache, the analytics engine
     and the world behind the invokers. http.ServeMux is modelled in Router: patterns with wildcards, the
     more specific pattern first, cleaning of paths, 404 and 405.
   \<^item> Startup: main.go as \<open>boot\<close>, from a platform (what the operating system, the decoders and the Frame
     library provide) to the dependencies and the first state, or to the fatal error.

  Statements about the whole. RouterGuard: every request is answered and every answer carries the security
  headers (interface \<open>header_guard\<close>). ResponseTypes: a response is one body of a type its route answers
  with, with the status and content type that go with it. ServerGuard: authentication first, a failed evaluator stops the
  request, and the caches keep their invariants (interface \<open>server_invariant\<close>). RouteTable: requests by
  path, down to the backend. Deployment: a started server after any requests, its capabilities, forms,
  lookups and analytics. DemoServer is a small concrete platform on which these statements are
  instantiated.

  Groups of lemmas. Guards: what a caller without a capability cannot see, call or cause. Isolation: what
  is served from a cache was computed for a caller of the same key or tenant, or for the same metric
  question and a scope of the caller, over interleavings and over runs of requests. The scopes of a caller
  (\<open>scope_allowed\<close>) follow how the backends read a filter: an empty list of partitions is the whole tenant,
  which only a caller without partition claim, or granted the empty partition id, may have. Exactness: functions that decide or compute a written-out specification
  (wildcards, validation, menus, pages, search pages, capability checks, the batches of the evaluator).
  Types: which bodies a route sends, with which status. Termination: the goroutines of a search return
  within \<open>4 * n + 4\<close> steps, and the lists they return are the permutations of the providers' results.
  Errors: on which inputs a mapping, a command or a request fails, and with which status. Bounds: numbers
  of requests sent, sizes of caches, arithmetic of page offsets. Some theorems record behaviour that looks
  unintended (a race of invalidation, an unescaped file id, a slice rewritten in the cache).

  Bounds. Loops are recursions that terminate, with measures where the recursion is not structural, and no
  definition has fuel. Page arithmetic and literals are int64 with the wrap-around written out
  (\<open>wrap64\<close>) where a client chooses them; sums of clock readings, durations and lengths are integers. A
  float64 of a decoded value is the rational it denotes.

  Parameters. What is not in the repository is an argument: the Frame library (authenticator, authorizer,
  HTTP client), the decoders of YAML, JSON and OpenAPI, SHA-256, regular expressions, the file system, the
  clock and the backends. A backend is a function of a world, so that a call is observable; the clock
  readings of a request are given by their position in the code. sort.Slice is an argument that sorts
  without being stable. Hypotheses about these arguments are named in the statements that use them and
  instantiated in a witness.

  Not modelled. The Flutter client under ui/, the test harness, build files and deployment: outside the
  service. Logging, tracing and metrics of the service itself, except the trace id of error responses.
  Deadlines as preemption: a request's deadline is part of its context and a call that misses it is an
  error the backend returns. Handlers run one after the other in Deployment; concurrency is modelled where
  shared state is unlocked between two steps (ResolverSteps, LookupSteps, AnalyticsSteps) and where the
  program starts goroutines of its own (SearchSteps). Those step relations interleave at the lock operations
  and the channel operations; a data race inside a step is not expressed. A response's bytes are its decoded
  body; the JSON encoder is not modelled, except that it refuses an infinite or undefined number. The policy
  file of the static evaluator, which main does not use, is modelled once decoded.
\<close>

end
